(* ===== verification/Prelude.thy ===== *)
theory Prelude
  imports Complex_Main "HOL-Library.Sublist" "HOL-Library.Multiset"
begin

text \<open>
  Shared vocabulary of the pvtvault model: the JavaScript primitives that the core
  (\<open>src/packages/core/src\<close>) relies on, written once and used by every component.
  \<^item> \<open>regex_search\<close>: \<open>RegExp.prototype.test\<close> for the flag-less patterns of the core,
    each an alternation of literal strings such as \<open>/(EC2|Compute Engine)/\<close>; it scans
    start positions as a backtracking engine does and is proved equal to substring
    search (\<open>sublist\<close> of HOL-Library).
  \<^item> \<open>js_round2\<close>: \<open>Math.round(x * 100) / 100\<close>, with \<open>Math.round\<close> rounding half up.
  \<^item> the UTF-8 byte sequences of the three non-ASCII characters that occur in the
    texts of the recommendations.
  JavaScript numbers are modelled as exact \<open>real\<close>s: the core only adds, multiplies and
  compares finite costs, and no property here depends on floating-point rounding.
\<close>

named_theorems js_simps "evaluation rules of the JavaScript primitives of the model"

section \<open>Literal regular expressions\<close>

type_synonym pattern = "string list"

primrec starts_with :: "string \<Rightarrow> string \<Rightarrow> bool" where
  "starts_with [] s = True"
| "starts_with (c # p) s = (case s of [] \<Rightarrow> False | d # s' \<Rightarrow> c = d \<and> starts_with p s')"

text \<open>
  A regex without flags keeps no \<open>lastIndex\<close> state, so \<open>test\<close> is a pure function of
  the pattern and the string. The engine tries each start position in turn and, at a
  position, each alternative in order.
\<close>

fun regex_search :: "pattern \<Rightarrow> string \<Rightarrow> bool" where
  "regex_search alts [] = list_ex (\<lambda>p. p = []) alts"
| "regex_search alts (c # s) =
     (list_ex (\<lambda>p. starts_with p (c # s)) alts \<or> regex_search alts s)"

section \<open>Rounding\<close>

text \<open>\<open>Math.round(x)\<close> is \<open>\<lfloor>x + 1/2\<rfloor>\<close> (ties towards \<open>+\<infinity>\<close>, so \<open>Math.round(-2.5) = -2\<close>).\<close>

definition js_round2 :: "real \<Rightarrow> real" where
  "js_round2 x = of_int \<lfloor>x * 100 + 1 / 2\<rfloor> / 100"

section \<open>Non-ASCII characters, as UTF-8 bytes\<close>

definition nb_hyphen :: string where
  "nb_hyphen = [CHR 0xE2, CHR 0x80, CHR 0x91]"

definition en_dash :: string where
  "en_dash = [CHR 0xE2, CHR 0x80, CHR 0x93]"

definition right_arrow :: string where
  "right_arrow = [CHR 0xE2, CHR 0x86, CHR 0x92]"

section \<open>Lemmas on the primitives\<close>

lemma starts_with_prefix [simp]: "starts_with p s \<longleftrightarrow> prefix p s"
  by (induction p arbitrary: s) (auto split: list.splits)

text \<open>
  The scanning regex test is substring search: a flag-less alternation of literals
  matches a string exactly when one of its alternatives occurs in it.
\<close>

theorem regex_search_sublist: "regex_search alts s \<longleftrightarrow> (\<exists>p \<in> set alts. sublist p s)"
proof (induction s)
  case Nil
  then show ?case by (auto simp: list_ex_iff)
next
  case (Cons c s)
  then show ?case by (auto simp: list_ex_iff sublist_Cons_right)
qed

lemma regex_search_append [simp]:
  "regex_search (ps @ qs) s \<longleftrightarrow> regex_search ps s \<or> regex_search qs s"
  by (induction s) auto

lemma regex_search_Nil_pattern [simp]: "\<not> regex_search [] s"
  by (induction s) auto

lemma js_round2_nonneg [intro]: "0 \<le> x \<Longrightarrow> 0 \<le> js_round2 x"
  by (simp add: js_round2_def)

lemma js_round2_neg_iff: "js_round2 x < 0 \<longleftrightarrow> x < - 1 / 200"
proof -
  have "js_round2 x < 0 \<longleftrightarrow> \<lfloor>x * 100 + 1 / 2\<rfloor> < 0" by (simp add: js_round2_def)
  also have "\<dots> \<longleftrightarrow> x * 100 + 1 / 2 < 0" by (rule floor_less_zero)
  finally show ?thesis by linarith
qed

text \<open>Rounding to cents moves a value by at most half a cent.\<close>

theorem js_round2_error: "\<bar>js_round2 x - x\<bar> \<le> 1 / 200"
proof -
  have lo: "x * 100 + 1 / 2 - 1 < of_int \<lfloor>x * 100 + 1 / 2\<rfloor>" by linarith
  have hi: "of_int \<lfloor>x * 100 + 1 / 2\<rfloor> \<le> x * 100 + 1 / 2" by linarith
  have e: "js_round2 x * 100 = of_int \<lfloor>x * 100 + 1 / 2\<rfloor>"
    by (simp add: js_round2_def)
  have up: "js_round2 x - x \<le> 1 / 200" using e hi by linarith
  have down: "- (js_round2 x - x) \<le> 1 / 200" using e lo by linarith
  show ?thesis unfolding abs_le_iff using up down by (rule conjI)
qed

end
