(* ===== verification/CostModel.thy ===== *)
theory CostModel
  imports Prelude
begin

text \<open>
  The cost record model (\<open>src/packages/core/src/types.ts\<close>) and the per-service
  summary of \<open>src/packages/core/src/normalize.ts\<close>. A JavaScript object used as a
  dictionary (\<open>Record<string, number>\<close>) is an association list in insertion order:
  an existing key keeps its place, a new key is appended.
\<close>

section \<open>Data\<close>

datatype cloud = Aws | Azure | Gcp

fun cloud_name :: "cloud \<Rightarrow> string" where
  "cloud_name Aws = ''aws''"
| "cloud_name Azure = ''azure''"
| "cloud_name Gcp = ''gcp''"

datatype effort = Low | Medium | High

text \<open>\<open>date\<close> is the time value of the coerced \<open>Date\<close> (milliseconds since the epoch).\<close>

record cost_item =
  cloud :: cloud
  service :: string
  usage_type :: string
  resource_id :: "string option"
  date :: int
  cost :: real

record recommendation =
  rec_id :: string
  title :: string
  impact_monthly :: real
  effort :: effort
  rationale :: string
  actions :: "string list"
  related :: "string list"
  meta :: "(string \<times> string) list"

section \<open>Summary by service\<close>

text \<open>\<open>agg[k] = (agg[k] ?? 0) + v\<close> on an insertion-ordered dictionary.\<close>

fun agg_add :: "(string \<times> real) list \<Rightarrow> string \<Rightarrow> real \<Rightarrow> (string \<times> real) list" where
  "agg_add [] k v = [(k, 0 + v)]"
| "agg_add ((k', w) # kvs) k v =
     (if k' = k then (k', w + v) # kvs else (k', w) # agg_add kvs k v)"

definition summarize_by_service :: "cost_item list \<Rightarrow> (string \<times> real) list" where
  "summarize_by_service items = foldl (\<lambda>agg it. agg_add agg (service it) (cost it)) [] items"

text \<open>The keys of a dictionary in insertion order: each service at its first occurrence.\<close>

definition first_occurrences :: "'a list \<Rightarrow> 'a list" where
  "first_occurrences xs = rev (remdups (rev xs))"

text \<open>The abstract view of a summary: the total cost of each service, over a multiset.\<close>

definition service_cost :: "cost_item list \<Rightarrow> string \<Rightarrow> real" where
  "service_cost items k = sum_list (map cost (filter (\<lambda>i. service i = k) items))"

section \<open>Example rows\<close>

text \<open>A billing row as \<open>loadCsv\<close> builds it, with no usage type, resource or date.\<close>

definition row_item :: "cloud \<Rightarrow> string \<Rightarrow> real \<Rightarrow> cost_item" where
  "row_item cl s x = \<lparr>cloud = cl, service = s, usage_type = [], resource_id = None, date = 0, cost = x\<rparr>"

section \<open>Lemmas on the summary\<close>

lemma cloud_name_inj [simp]: "cloud_name a = cloud_name b \<longleftrightarrow> a = b"
  by (cases a; cases b) simp_all

lemma map_fst_agg_add [simp]:
  "map fst (agg_add kvs k v) = (if k \<in> set (map fst kvs) then map fst kvs else map fst kvs @ [k])"
  by (induction kvs k v rule: agg_add.induct) auto

lemma map_of_agg_add [simp]:
  "map_of (agg_add kvs k v) = (map_of kvs)(k \<mapsto> (case map_of kvs k of None \<Rightarrow> 0 | Some w \<Rightarrow> w) + v)"
  by (induction kvs k v rule: agg_add.induct) (auto simp: fun_eq_iff)

lemma sum_agg_add [simp]: "sum_list (map snd (agg_add kvs k v)) = sum_list (map snd kvs) + v"
  by (induction kvs k v rule: agg_add.induct) auto

lemma summarize_by_service_snoc:
  "summarize_by_service (xs @ [x]) = agg_add (summarize_by_service xs) (service x) (cost x)"
  by (simp add: summarize_by_service_def)

lemma service_cost_snoc [simp]:
  "service_cost (xs @ [x]) k = service_cost xs k + (if service x = k then cost x else 0)"
  by (simp add: service_cost_def)

lemma service_cost_notin [simp]: "k \<notin> service ` set items \<Longrightarrow> service_cost items k = 0"
proof -
  assume "k \<notin> service ` set items"
  then have "filter (\<lambda>i. service i = k) items = []" by (auto simp: filter_empty_conv)
  then show ?thesis by (simp add: service_cost_def)
qed

lemma keys_summarize_by_service:
  "map fst (summarize_by_service items) = first_occurrences (map service items)"
proof (induction items rule: rev_induct)
  case Nil
  then show ?case by (simp add: summarize_by_service_def first_occurrences_def)
next
  case (snoc x xs)
  then show ?case by (auto simp: summarize_by_service_snoc first_occurrences_def)
qed

text \<open>
  \<open>summarizeByService\<close> maps exactly the services of the batch, each to the sum of
  the costs of its items.
\<close>

theorem map_of_summarize_by_service:
  "map_of (summarize_by_service items) k =
     (if k \<in> service ` set items then Some (service_cost items k) else None)"
proof (induction items rule: rev_induct)
  case Nil
  then show ?case by (simp add: summarize_by_service_def service_cost_def)
next
  case (snoc x xs)
  then show ?case
    by (auto simp: summarize_by_service_snoc)
qed

text \<open>The values of the summary add up to the total cost of the batch.\<close>

theorem sum_summarize_by_service:
  "sum_list (map snd (summarize_by_service items)) = sum_list (map cost items)"
  by (induction items rule: rev_induct) (simp_all add: summarize_by_service_def)

end
