(* ===== verification/Recommendations.thy ===== *)
theory Recommendations
  imports CostModel
begin

text \<open>
  The recommendation engine, \<open>generateRecommendations\<close> of
  \<open>src/packages/core/src/rules.ts\<close>: one pass that sums the cost per service and in
  total, six rules that each may push one recommendation, then a sort by
  \<open>impact_monthly\<close>, descending, and \<open>slice(0, 10)\<close>. Each rule is a function from the
  list \<open>recs\<close> built so far to the next, as the closure \<open>add\<close> pushes onto it.
\<close>

named_theorems rule_defs "definitions of the six rules of generateRecommendations"

section \<open>The patterns of the rules\<close>

definition compute_pat :: pattern where
  "compute_pat = [''EC2'', ''Compute Engine'', ''Virtual Machines'']"

definition storage_pat :: pattern where
  "storage_pat = [''S3'', ''EBS'', ''Cloud Storage'', ''Blob'']"

definition egress_pat :: pattern where
  "egress_pat = [''Data Transfer'', ''Egress'']"

definition rds_pat :: pattern where
  "rds_pat = [''RDS'']"

definition ahb_pat :: pattern where
  "ahb_pat = [''App Service'', ''SQL Database'']"

definition bq_pat :: pattern where
  "bq_pat = [''BigQuery'']"

section \<open>Aggregation\<close>

text \<open>The loop of lines 4--9: per-service sums and the running total.\<close>

definition aggregate :: "cost_item list \<Rightarrow> (string \<times> real) list \<times> real" where
  "aggregate items =
     foldl (\<lambda>(svc, tot) it. (agg_add svc (service it) (cost it), tot + cost it)) ([], 0) items"

text \<open>\<open>total = total || 1\<close>: a zero total is replaced by one.\<close>

definition or_one :: "real \<Rightarrow> real" where
  "or_one t = (if t = 0 then 1 else t)"

text \<open>
  \<open>Object.entries(svc).filter(([k]) => re.test(k)).reduce((a, [,v]) => a + v, 0)\<close> and
  \<open>Object.keys(svc).some(k => re.test(k))\<close>.
\<close>

definition spend_matching :: "pattern \<Rightarrow> (string \<times> real) list \<Rightarrow> real" where
  "spend_matching pat svc = foldl (\<lambda>a (k, v). a + v) 0 (filter (\<lambda>(k, v). regex_search pat k) svc)"

definition has_key_matching :: "pattern \<Rightarrow> (string \<times> real) list \<Rightarrow> bool" where
  "has_key_matching pat svc = list_ex (regex_search pat) (map fst svc)"

section \<open>Building a recommendation\<close>

text \<open>The closure \<open>add\<close> (lines 13--19), with \<open>effort\<close> at its default \<open>low\<close>.\<close>

definition mk_rec :: "cloud \<Rightarrow> string \<Rightarrow> string \<Rightarrow> real \<Rightarrow> string \<Rightarrow> string list \<Rightarrow> recommendation" where
  "mk_rec c slug ttl impact rat acts =
     \<lparr>rec_id = cloud_name c @ ''-'' @ slug, title = ttl, impact_monthly = js_round2 impact,
      effort = Low, rationale = rat, actions = acts, related = [],
      meta = [(''cloud'', cloud_name c)]\<rparr>"

definition add_rec :: "cloud \<Rightarrow> string \<Rightarrow> string \<Rightarrow> real \<Rightarrow> string \<Rightarrow> string list \<Rightarrow>
    recommendation list \<Rightarrow> recommendation list" where
  "add_rec c slug ttl impact rat acts recs = recs @ [mk_rec c slug ttl impact rat acts]"

section \<open>The six rules\<close>

definition rule_rightsizing :: "cloud \<Rightarrow> (string \<times> real) list \<Rightarrow> real \<Rightarrow>
    recommendation list \<Rightarrow> recommendation list" where
  "rule_rightsizing c svc tot recs =
     (let computePct = spend_matching compute_pat svc / tot
      in if computePct > 0.30
         then add_rec c ''rightsizing'' ''Rightsize Always-On VMs by one tier''
                (computePct * tot * 0.12)
                (''Compute >30% of spend; rightsizing typically saves 10'' @ en_dash @ ''20%.'')
                [''Audit CPU/mem <20% for 7d'', ''Downsize instance family'', ''Enable autoscaling'']
                recs
         else recs)"

definition rule_lifecycle :: "cloud \<Rightarrow> (string \<times> real) list \<Rightarrow>
    recommendation list \<Rightarrow> recommendation list" where
  "rule_lifecycle c svc recs =
     (let storageSpend = spend_matching storage_pat svc
      in if storageSpend > 0
         then add_rec c ''lifecycle'' ''Enable Lifecycle Policies for cold data''
                (storageSpend * 0.12)
                (''Tiering/deletion saves 10'' @ en_dash @ ''20% on object/block storage.'')
                [''30d'' @ right_arrow @ ''infrequent; 90d'' @ right_arrow @ ''archive'',
                 ''Delete expired versions'']
                recs
         else recs)"

definition rule_egress :: "cloud \<Rightarrow> (string \<times> real) list \<Rightarrow>
    recommendation list \<Rightarrow> recommendation list" where
  "rule_egress c svc recs =
     (let egress = spend_matching egress_pat svc
      in if egress > 0
         then add_rec c ''egress'' (''Reduce cross'' @ nb_hyphen @ ''AZ/region egress'')
                (egress * 0.25)
                (''Topology & private links reduce egress by 20'' @ en_dash @ ''40%.'')
                [''Co'' @ nb_hyphen @ ''locate resources'', ''Use CDN'', ''Consolidate buckets'']
                recs
         else recs)"

definition rule_rds :: "cloud \<Rightarrow> (string \<times> real) list \<Rightarrow>
    recommendation list \<Rightarrow> recommendation list" where
  "rule_rds c svc recs =
     (if c = Aws \<and> has_key_matching rds_pat svc
      then (let rds = spend_matching rds_pat svc
            in add_rec c ''rds-ri'' ''Buy RDS RIs/Savings Plans'' (rds * 0.28)
                 (''1'' @ nb_hyphen @ ''yr RIs/Savings Plans save ~28%.'')
                 [''Find steady DBs'', ''Commit 1'' @ nb_hyphen @ ''yr no'' @ nb_hyphen @ ''upfront'']
                 recs)
      else recs)"

definition rule_ahb :: "cloud \<Rightarrow> (string \<times> real) list \<Rightarrow> real \<Rightarrow>
    recommendation list \<Rightarrow> recommendation list" where
  "rule_ahb c svc tot recs =
     (if c = Azure \<and> has_key_matching ahb_pat svc
      then add_rec c ''ahb'' ''Enable Azure Hybrid Benefit'' (tot * 0.05)
             ''BYOL reduces compute/SQL cost substantially.''
             [''Validate license'', ''Toggle AHB where eligible'']
             recs
      else recs)"

definition rule_bq :: "cloud \<Rightarrow> (string \<times> real) list \<Rightarrow>
    recommendation list \<Rightarrow> recommendation list" where
  "rule_bq c svc recs =
     (if c = Gcp \<and> has_key_matching bq_pat svc
      then (let bq = spend_matching bq_pat svc
            in add_rec c ''bq-commit'' (''Switch BigQuery to flat'' @ nb_hyphen @ ''rate commitments'')
                 (bq * 0.30)
                 ''Committed use discounts lower analytics volatility and cost.''
                 [''Estimate slot usage'', ''Buy flex/monthly commitments'']
                 recs)
      else recs)"

declare rule_rightsizing_def [rule_defs] rule_lifecycle_def [rule_defs]
  rule_egress_def [rule_defs] rule_rds_def [rule_defs] rule_ahb_def [rule_defs]
  rule_bq_def [rule_defs]

section \<open>The engine\<close>

text \<open>
  \<open>recs.sort((a, b) => b.impact_monthly - a.impact_monthly)\<close>: \<open>Array.prototype.sort\<close>
  is stable (ECMAScript 2019), so it is the stable insertion sort \<open>sort_key\<close> on the
  negated impact; \<open>sort_desc_unique\<close> below shows that every stable descending sort
  gives the same list.
\<close>

definition js_sort_desc :: "recommendation list \<Rightarrow> recommendation list" where
  "js_sort_desc recs = sort_key (\<lambda>r. - impact_monthly r) recs"

definition candidate_recs :: "cost_item list \<Rightarrow> cloud \<Rightarrow> recommendation list" where
  "candidate_recs items c =
     (let (svc, total0) = aggregate items;
          tot = or_one total0;
          recs1 = rule_rightsizing c svc tot [];
          recs2 = rule_lifecycle c svc recs1;
          recs3 = rule_egress c svc recs2;
          recs4 = rule_rds c svc recs3;
          recs5 = rule_ahb c svc tot recs4
      in rule_bq c svc recs5)"

definition generate_recommendations :: "cost_item list \<Rightarrow> cloud \<Rightarrow> recommendation list" where
  "generate_recommendations items c = take 10 (js_sort_desc (candidate_recs items c))"

section \<open>Abstract view of the aggregates\<close>

text \<open>What the aggregates stand for, over the item list itself.\<close>

definition items_spend :: "pattern \<Rightarrow> cost_item list \<Rightarrow> real" where
  "items_spend pat items = sum_list (map cost (filter (\<lambda>i. regex_search pat (service i)) items))"

definition items_match :: "pattern \<Rightarrow> cost_item list \<Rightarrow> bool" where
  "items_match pat items = (\<exists>i \<in> set items. regex_search pat (service i))"

definition rule_slugs :: "string list" where
  "rule_slugs = [''rightsizing'', ''lifecycle'', ''egress'', ''rds-ri'', ''ahb'', ''bq-commit'']"

text \<open>A rule contributes no recommendation or one, with the given slug.\<close>

definition one_rec :: "cloud \<Rightarrow> string \<Rightarrow> recommendation list \<Rightarrow> bool" where
  "one_rec c slug xs \<longleftrightarrow> xs = [] \<or> (\<exists>ttl x rat acts. xs = [mk_rec c slug ttl x rat acts])"

section \<open>Example batches\<close>

text \<open>The batch of the specification's example: EC2 at 400 and S3 at 100.\<close>

definition example_items :: "cost_item list" where
  "example_items = [row_item Aws ''EC2'' 400, row_item Aws ''S3'' 100]"

section \<open>Lemmas on the aggregation\<close>

lemma foldl_add_snd: "foldl (\<lambda>a (k, v). a + v) a kvs = a + sum_list (map snd kvs)"
  by (induction kvs arbitrary: a) (auto simp: algebra_simps)

lemma spend_matching_sum: "spend_matching pat svc = sum_list (map snd (filter (\<lambda>(k, v). regex_search pat k) svc))"
  by (simp add: spend_matching_def foldl_add_snd)

lemma sum_filter_agg_add:
  "sum_list (map snd (filter (\<lambda>(k, v). P k) (agg_add kvs k v)))
   = sum_list (map snd (filter (\<lambda>(k, v). P k) kvs)) + (if P k then v else 0)"
  by (induction kvs k v rule: agg_add.induct) auto

lemma aggregate_snoc:
  "aggregate (xs @ [x]) = (agg_add (fst (aggregate xs)) (service x) (cost x), snd (aggregate xs) + cost x)"
  by (simp add: aggregate_def split: prod.splits)

lemma set_first_occurrences [simp]: "set (first_occurrences xs) = set xs"
  by (simp add: first_occurrences_def)

lemma items_spend_snoc [simp]:
  "items_spend pat (xs @ [x]) = items_spend pat xs + (if regex_search pat (service x) then cost x else 0)"
  by (simp add: items_spend_def)

lemma items_spend_nonneg:
  "\<forall>i \<in> set items. 0 \<le> cost i \<Longrightarrow> 0 \<le> items_spend pat items"
  unfolding items_spend_def by (induction items) auto

lemma sum_costs_nonneg: "\<forall>i \<in> set items. 0 \<le> cost i \<Longrightarrow> 0 \<le> sum_list (map cost items)"
  by (induction items) auto

lemma has_key_matching_summary [simp]:
  "has_key_matching pat (summarize_by_service items) = items_match pat items"
proof -
  have "set (map fst (summarize_by_service items)) = service ` set items"
    by (simp add: keys_summarize_by_service)
  then show ?thesis
    by (auto simp: has_key_matching_def items_match_def list_ex_iff)
qed

lemma spend_matching_summary [simp]:
  "spend_matching pat (summarize_by_service items) = items_spend pat items"
proof (induction items rule: rev_induct)
  case Nil
  then show ?case by (simp add: spend_matching_def summarize_by_service_def items_spend_def)
next
  case (snoc x xs)
  then show ?case
    by (simp add: spend_matching_sum summarize_by_service_snoc sum_filter_agg_add)
qed

section \<open>The candidate list, rule by rule\<close>

lemma aggregate_summary:
  "aggregate items = (summarize_by_service items, sum_list (map cost items))"
proof (induction items rule: rev_induct)
  case Nil
  then show ?case by (simp add: aggregate_def summarize_by_service_def)
next
  case (snoc x xs)
  then show ?case by (simp add: aggregate_snoc summarize_by_service_snoc)
qed

lemma rule_append:
  "rule_rightsizing c svc t recs = recs @ rule_rightsizing c svc t []"
  "rule_lifecycle c svc recs = recs @ rule_lifecycle c svc []"
  "rule_egress c svc recs = recs @ rule_egress c svc []"
  "rule_rds c svc recs = recs @ rule_rds c svc []"
  "rule_ahb c svc t recs = recs @ rule_ahb c svc t []"
  "rule_bq c svc recs = recs @ rule_bq c svc []"
  by (simp_all add: rule_defs add_rec_def Let_def)

lemma candidate_recs_rules:
  "candidate_recs items c =
     (let svc = summarize_by_service items; t = or_one (sum_list (map cost items))
      in rule_rightsizing c svc t [] @ rule_lifecycle c svc [] @ rule_egress c svc [] @
         rule_rds c svc [] @ rule_ahb c svc t [] @ rule_bq c svc [])"
  using aggregate_summary [of items]
  by (simp add: candidate_recs_def Let_def) (metis rule_append append.assoc)


lemmas rule_unfold = rule_defs add_rec_def Let_def

lemma items_spend_match: "items_spend pat items \<noteq> 0 \<Longrightarrow> items_match pat items"
proof (rule ccontr)
  assume "\<not> items_match pat items"
  then have "filter (\<lambda>i. regex_search pat (service i)) items = []"
    by (auto simp: items_match_def filter_empty_conv)
  moreover assume "items_spend pat items \<noteq> 0"
  ultimately show False by (simp add: items_spend_def)
qed

lemma one_rec_rules:
  "one_rec c ''rightsizing'' (rule_rightsizing c svc t [])"
  "one_rec c ''lifecycle'' (rule_lifecycle c svc [])"
  "one_rec c ''egress'' (rule_egress c svc [])"
  "one_rec c ''rds-ri'' (rule_rds c svc [])"
  "one_rec c ''ahb'' (rule_ahb c svc t [])"
  "one_rec c ''bq-commit'' (rule_bq c svc [])"
  by (auto simp: one_rec_def rule_unfold)

lemma one_rec_ids:
  "one_rec c slug xs \<Longrightarrow> (\<forall>r \<in> set xs. rec_id r = cloud_name c @ ''-'' @ slug) \<and> length xs \<le> 1"
  by (auto simp: one_rec_def mk_rec_def)

lemma one_rec_mem:
  "one_rec c slug xs \<Longrightarrow> r \<in> set xs \<Longrightarrow> \<exists>ttl x rat acts. r = mk_rec c slug ttl x rat acts"
  unfolding one_rec_def by auto blast

lemma candidate_recs_parts:
  obtains p1 p2 p3 p4 p5 p6 where "candidate_recs items c = p1 @ p2 @ p3 @ p4 @ p5 @ p6"
    "one_rec c ''rightsizing'' p1" "one_rec c ''lifecycle'' p2" "one_rec c ''egress'' p3"
    "one_rec c ''rds-ri'' p4" "one_rec c ''ahb'' p5" "one_rec c ''bq-commit'' p6"
proof -
  let ?svc = "summarize_by_service items" and ?t = "or_one (sum_list (map cost items))"
  show ?thesis
    by (rule that [of "rule_rightsizing c ?svc ?t []" "rule_lifecycle c ?svc []"
        "rule_egress c ?svc []" "rule_rds c ?svc []" "rule_ahb c ?svc ?t []" "rule_bq c ?svc []"])
      (simp_all only: candidate_recs_rules Let_def one_rec_rules)
qed

lemma candidate_shape:
  assumes "r \<in> set (candidate_recs items c)"
  shows "\<exists>slug ttl x rat acts. slug \<in> set rule_slugs \<and> r = mk_rec c slug ttl x rat acts"
proof -
  obtain p1 p2 p3 p4 p5 p6 where eq: "candidate_recs items c = p1 @ p2 @ p3 @ p4 @ p5 @ p6"
    and h: "one_rec c ''rightsizing'' p1" "one_rec c ''lifecycle'' p2" "one_rec c ''egress'' p3"
    "one_rec c ''rds-ri'' p4" "one_rec c ''ahb'' p5" "one_rec c ''bq-commit'' p6"
    by (rule candidate_recs_parts)
  from assms eq have "r \<in> set p1 \<or> r \<in> set p2 \<or> r \<in> set p3 \<or> r \<in> set p4 \<or> r \<in> set p5 \<or> r \<in> set p6"
    by simp
  then show ?thesis
  proof (elim disjE)
  qed (fastforce simp: rule_slugs_def dest: one_rec_mem [OF h(1)] one_rec_mem [OF h(2)]
        one_rec_mem [OF h(3)] one_rec_mem [OF h(4)] one_rec_mem [OF h(5)] one_rec_mem [OF h(6)])+
qed

lemma length_candidate_recs: "length (candidate_recs items c) \<le> 6"
proof -
  obtain p1 p2 p3 p4 p5 p6 where eq: "candidate_recs items c = p1 @ p2 @ p3 @ p4 @ p5 @ p6"
    and h: "one_rec c ''rightsizing'' p1" "one_rec c ''lifecycle'' p2" "one_rec c ''egress'' p3"
    "one_rec c ''rds-ri'' p4" "one_rec c ''ahb'' p5" "one_rec c ''bq-commit'' p6"
    by (rule candidate_recs_parts)
  from h show ?thesis unfolding eq by (auto dest!: one_rec_ids)
qed

lemma distinct_ids_candidate_recs: "distinct (map rec_id (candidate_recs items c))"
proof -
  obtain p1 p2 p3 p4 p5 p6 where eq: "candidate_recs items c = p1 @ p2 @ p3 @ p4 @ p5 @ p6"
    and h: "one_rec c ''rightsizing'' p1" "one_rec c ''lifecycle'' p2" "one_rec c ''egress'' p3"
    "one_rec c ''rds-ri'' p4" "one_rec c ''ahb'' p5" "one_rec c ''bq-commit'' p6"
    by (rule candidate_recs_parts)
  have one: "distinct (map rec_id xs)" if "length xs \<le> 1" for xs :: "recommendation list"
    using that by (cases xs) auto
  from h show ?thesis unfolding eq by (auto simp: distinct_append one dest!: one_rec_ids)
qed

lemma generate_js_sort: "generate_recommendations items c = js_sort_desc (candidate_recs items c)"
proof -
  have "length (js_sort_desc (candidate_recs items c)) \<le> 10"
    using length_candidate_recs [of items c] by (simp add: js_sort_desc_def)
  then show ?thesis by (simp add: generate_recommendations_def)
qed

lemma js_sort_desc_sorted: "sorted_wrt (\<ge>) (map impact_monthly (js_sort_desc recs))"
proof -
  have "sorted (map (\<lambda>r. - impact_monthly r) (js_sort_desc recs))"
    by (simp add: js_sort_desc_def)
  then show ?thesis by (simp add: sorted_map sorted_wrt_map)
qed

lemma mset_generate: "mset (generate_recommendations items c) = mset (candidate_recs items c)"
  by (simp add: generate_js_sort js_sort_desc_def)

lemma set_generate: "set (generate_recommendations items c) = set (candidate_recs items c)"
  by (metis mset_generate set_mset_mset)

lemma or_one_nonzero [simp]: "or_one t \<noteq> 0"
  by (simp add: or_one_def)

lemma candidate_select:
  fixes items c
  defines "svc \<equiv> summarize_by_service items" and "t \<equiv> or_one (sum_list (map cost items))"
  shows "{r \<in> set (candidate_recs items c). rec_id r = cloud_name c @ ''-rightsizing''}
           = set (rule_rightsizing c svc t [])"
    and "{r \<in> set (candidate_recs items c). rec_id r = cloud_name c @ ''-ahb''}
           = set (rule_ahb c svc t [])"
    and "{r \<in> set (candidate_recs items c). rec_id r = cloud_name c @ ''-rds-ri''}
           = set (rule_rds c svc [])"
proof -
  have h1: "\<forall>r \<in> set (rule_rightsizing c svc t []). rec_id r = cloud_name c @ ''-'' @ ''rightsizing''"
    using one_rec_ids [OF one_rec_rules(1)] by blast
  have h2: "\<forall>r \<in> set (rule_lifecycle c svc []). rec_id r = cloud_name c @ ''-'' @ ''lifecycle''"
    using one_rec_ids [OF one_rec_rules(2)] by blast
  have h3: "\<forall>r \<in> set (rule_egress c svc []). rec_id r = cloud_name c @ ''-'' @ ''egress''"
    using one_rec_ids [OF one_rec_rules(3)] by blast
  have h4: "\<forall>r \<in> set (rule_rds c svc []). rec_id r = cloud_name c @ ''-'' @ ''rds-ri''"
    using one_rec_ids [OF one_rec_rules(4)] by blast
  have h5: "\<forall>r \<in> set (rule_ahb c svc t []). rec_id r = cloud_name c @ ''-'' @ ''ahb''"
    using one_rec_ids [OF one_rec_rules(5)] by blast
  have h6: "\<forall>r \<in> set (rule_bq c svc []). rec_id r = cloud_name c @ ''-'' @ ''bq-commit''"
    using one_rec_ids [OF one_rec_rules(6)] by blast
  have eq: "candidate_recs items c = rule_rightsizing c svc t [] @ rule_lifecycle c svc [] @
      rule_egress c svc [] @ rule_rds c svc [] @ rule_ahb c svc t [] @ rule_bq c svc []"
    unfolding svc_def t_def candidate_recs_rules Let_def ..
  show "{r \<in> set (candidate_recs items c). rec_id r = cloud_name c @ ''-rightsizing''}
           = set (rule_rightsizing c svc t [])"
    using h1 h2 h3 h4 h5 h6 unfolding eq by auto
  show "{r \<in> set (candidate_recs items c). rec_id r = cloud_name c @ ''-ahb''}
           = set (rule_ahb c svc t [])"
    using h1 h2 h3 h4 h5 h6 unfolding eq by auto
  show "{r \<in> set (candidate_recs items c). rec_id r = cloud_name c @ ''-rds-ri''}
           = set (rule_rds c svc [])"
    using h1 h2 h3 h4 h5 h6 unfolding eq by auto
qed

lemma rules_nonneg:
  fixes items c
  defines "svc \<equiv> summarize_by_service items" and "t \<equiv> or_one (sum_list (map cost items))"
  assumes costs: "\<forall>i \<in> set items. 0 \<le> cost i"
  shows "\<forall>r \<in> set (candidate_recs items c). 0 \<le> impact_monthly r"
proof -
  have s: "\<And>p. 0 \<le> items_spend p items" using costs by (rule items_spend_nonneg)
  have t: "0 < t" using sum_costs_nonneg [OF costs] by (simp add: t_def or_one_def)
  have r1: "\<forall>r \<in> set (rule_rightsizing c svc t []). 0 \<le> impact_monthly r"
    using s t by (auto simp: svc_def rule_unfold mk_rec_def)
  have r2: "\<forall>r \<in> set (rule_lifecycle c svc []). 0 \<le> impact_monthly r"
    by (auto simp: rule_unfold mk_rec_def)
  have r3: "\<forall>r \<in> set (rule_egress c svc []). 0 \<le> impact_monthly r"
    by (auto simp: rule_unfold mk_rec_def)
  have r4: "\<forall>r \<in> set (rule_rds c svc []). 0 \<le> impact_monthly r"
    using s by (auto simp: svc_def rule_unfold mk_rec_def)
  have r5: "\<forall>r \<in> set (rule_ahb c svc t []). 0 \<le> impact_monthly r"
    using t by (auto simp: rule_unfold mk_rec_def)
  have r6: "\<forall>r \<in> set (rule_bq c svc []). 0 \<le> impact_monthly r"
    using s by (auto simp: svc_def rule_unfold mk_rec_def)
  have eq: "candidate_recs items c = rule_rightsizing c svc t [] @ rule_lifecycle c svc [] @
      rule_egress c svc [] @ rule_rds c svc [] @ rule_ahb c svc t [] @ rule_bq c svc []"
    unfolding svc_def t_def candidate_recs_rules Let_def ..
  show ?thesis using r1 r2 r3 r4 r5 r6 unfolding eq by auto
qed

lemma generate_distinct_from_candidates:
  "distinct (map rec_id (generate_recommendations items c))"
  using mset_eq_imp_distinct_iff [of "map rec_id (generate_recommendations items c)"
      "map rec_id (candidate_recs items c)"] mset_generate [of items c] distinct_ids_candidate_recs
  by simp

lemmas engine_eval = generate_recommendations_def candidate_recs_def aggregate_def rule_unfold
  mk_rec_def spend_matching_def has_key_matching_def compute_pat_def storage_pat_def egress_pat_def
  rds_pat_def ahb_pat_def bq_pat_def js_sort_desc_def or_one_def js_round2_def row_item_def

lemma candidate_recs_example:
  "map impact_monthly (candidate_recs example_items Aws) = [48, 12]"
  by (simp add: engine_eval example_items_def)

lemma rds_impact:
  "impact_monthly ` {r \<in> set (generate_recommendations items c). rec_id r = cloud_name c @ ''-rds-ri''}
   = (if c = Aws \<and> items_match rds_pat items then {js_round2 (items_spend rds_pat items * 0.28)} else {})"
  unfolding set_generate candidate_select by (simp add: rule_unfold mk_rec_def)

section \<open>Properties of the engine\<close>

text \<open>
  C1. The result is sorted by \<open>impact_monthly\<close>, non-increasing, for every batch and
  every provider.
\<close>

theorem generate_sorted:
  "sorted_wrt (\<ge>) (map impact_monthly (generate_recommendations items c))"
  unfolding generate_js_sort by (rule js_sort_desc_sorted)

text \<open>
  C7. At most six recommendations are returned (one per rule), so the cap of ten of
  \<open>slice(0, 10)\<close> is never reached.
\<close>

theorem generate_length: "length (generate_recommendations items c) \<le> 6"
  using length_candidate_recs [of items c] by (simp add: generate_js_sort js_sort_desc_def)

text \<open>
  C2. When every cost of the batch is non-negative, every recommendation has a
  non-negative \<open>impact_monthly\<close>.
\<close>

theorem generate_impact_nonneg:
  "\<forall>i \<in> set items. 0 \<le> cost i \<Longrightarrow> \<forall>r \<in> set (generate_recommendations items c). 0 \<le> impact_monthly r"
  by (simp add: set_generate rules_nonneg)

theorem generate_impact_nonneg_witness:
  "list_all (\<lambda>i. 0 \<le> cost i) example_items \<and>
   list_all (\<lambda>r. 0 \<le> impact_monthly r) (generate_recommendations example_items Aws)"
proof -
  have h: "\<forall>i \<in> set example_items. 0 \<le> cost i" by (simp add: example_items_def row_item_def)
  show ?thesis using h generate_impact_nonneg [OF h, of Aws] by (simp add: list_all_iff)
qed

text \<open>
  C3. With credits (negative costs, which the data model allows), a recommendation
  with a negative \<open>impact_monthly\<close> is produced: the reserved-instance recommendation
  has a negative impact exactly when the provider is AWS and 28\<percent> of the RDS spend
  is below minus half a cent, so that it rounds to a negative number of cents.
\<close>

theorem credit_negative_impact:
  "(\<exists>r \<in> set (generate_recommendations items c). rec_id r = cloud_name c @ ''-rds-ri'' \<and> impact_monthly r < 0)
   \<longleftrightarrow> c = Aws \<and> items_spend rds_pat items * 0.28 < - 1 / 200"
proof -
  let ?G = "set (generate_recommendations items c)"
  have "(\<exists>r \<in> ?G. rec_id r = cloud_name c @ ''-rds-ri'' \<and> impact_monthly r < 0) \<longleftrightarrow>
        (\<exists>x \<in> impact_monthly ` {r \<in> ?G. rec_id r = cloud_name c @ ''-rds-ri''}. x < 0)" by blast
  also have "\<dots> \<longleftrightarrow> c = Aws \<and> items_match rds_pat items \<and> js_round2 (items_spend rds_pat items * 0.28) < 0"
    unfolding rds_impact by auto
  also have "\<dots> \<longleftrightarrow> c = Aws \<and> items_spend rds_pat items * 0.28 < - 1 / 200"
    using items_spend_match [of rds_pat items] by (auto simp: js_round2_neg_iff)
  finally show ?thesis .
qed

theorem credit_negative_impact_witness:
  "(\<exists>r \<in> set (generate_recommendations [row_item Aws ''RDS'' (-100)] Aws).
      rec_id r = ''aws-rds-ri'' \<and> impact_monthly r < 0) \<and>
   items_spend rds_pat [row_item Aws ''RDS'' (-100)] * 0.28 < - 1 / 200"
proof -
  have s: "items_spend rds_pat [row_item Aws ''RDS'' (-100)] = -100"
    by (simp add: items_spend_def row_item_def rds_pat_def)
  then show ?thesis using credit_negative_impact [of "[row_item Aws ''RDS'' (-100)]" Aws] by simp
qed

text \<open>
  C4. Every recommendation is scoped to the requested provider: its id is the provider
  name, a dash and one of the six rule slugs, its \<open>meta\<close> is \<open>{cloud: provider}\<close>,
  its effort is the default \<open>low\<close> and its \<open>related\<close> list is empty.
\<close>

theorem generate_scoped:
  "\<forall>r \<in> set (generate_recommendations items c).
     (\<exists>slug \<in> set rule_slugs. rec_id r = cloud_name c @ ''-'' @ slug) \<and>
     meta r = [(''cloud'', cloud_name c)] \<and> effort r = Low \<and> related r = []"
  by (auto simp: set_generate mk_rec_def dest!: candidate_shape)

theorem generate_scoped_witness:
  "list_all (\<lambda>r. (\<exists>slug \<in> set rule_slugs. rec_id r = ''gcp'' @ ''-'' @ slug) \<and>
     meta r = [(''cloud'', ''gcp'')] \<and> effort r = Low \<and> related r = [])
   (generate_recommendations example_items Gcp)"
  using generate_scoped [of example_items Gcp] by (simp add: list_all_iff)

text \<open>
  C5. Provider gating: a reserved-instance recommendation (slug \<open>rds-ri\<close>) occurs in
  the result exactly when the provider is AWS and some service name contains
  \<open>RDS\<close>, and a BigQuery commitment (slug \<open>bq-commit\<close>) exactly when the provider is
  GCP and some service name contains \<open>BigQuery\<close>; an Azure request never yields
  either, whatever its service names.
\<close>

theorem rds_gating:
  "(cloud_name c @ ''-rds-ri'' \<in> set (map rec_id (generate_recommendations items c))
     \<longleftrightarrow> c = Aws \<and> items_match rds_pat items) \<and>
   (cloud_name c @ ''-bq-commit'' \<in> set (map rec_id (generate_recommendations items c))
     \<longleftrightarrow> c = Gcp \<and> items_match bq_pat items)"
  by (cases c) (auto simp: set_generate candidate_recs_rules rule_unfold mk_rec_def)

text \<open>C6. The ids of the result are pairwise distinct.\<close>

theorem generate_distinct_ids: "distinct (map rec_id (generate_recommendations items c))"
  by (rule generate_distinct_from_candidates)

text \<open>
  The example of the specification: EC2 at 400 and S3 at 100 on AWS give the
  rightsizing recommendation (48.00) and then the lifecycle one (12.00).
\<close>

theorem spec_example:
  "map (\<lambda>r. (rec_id r, impact_monthly r)) (generate_recommendations example_items Aws)
   = [(''aws-rightsizing'', 48), (''aws-lifecycle'', 12)]"
  by (simp add: engine_eval example_items_def)

text \<open>
  C8. The rightsizing rule fires exactly when the compute share of the (substituted)
  total exceeds 30\<percent>, and its impact is 12\<percent> of the compute spend: the code's
  \<open>computePct * total * 0.12\<close> is the compute spend times 0.12.
\<close>

theorem rightsizing_impact:
  "impact_monthly ` {r \<in> set (generate_recommendations items c). rec_id r = cloud_name c @ ''-rightsizing''}
   = (if items_spend compute_pat items / or_one (sum_list (map cost items)) > 0.30
      then {js_round2 (items_spend compute_pat items * 0.12)} else {})"
  unfolding set_generate candidate_select by (simp add: rule_unfold mk_rec_def)

text \<open>
  C9. The hybrid-benefit rule fires exactly for Azure batches with an App Service or
  SQL Database line, and its impact is 5\<percent> of the whole (substituted) total, not
  of the matched spend.
\<close>

theorem ahb_impact:
  "impact_monthly ` {r \<in> set (generate_recommendations items c). rec_id r = cloud_name c @ ''-ahb''}
   = (if c = Azure \<and> items_match ahb_pat items
      then {js_round2 (or_one (sum_list (map cost items)) * 0.05)} else {})"
  unfolding set_generate candidate_select by (simp add: rule_unfold mk_rec_def)

text \<open>
  The substitution of one for a zero total leaks into the hybrid-benefit estimate:
  an Azure batch whose only line is an App Service line of cost 0 yields a
  recommendation with \<open>impact_monthly\<close> 0.05.
\<close>

theorem ahb_zero_total:
  "map (\<lambda>r. (rec_id r, impact_monthly r))
     (generate_recommendations [row_item Azure ''App Service'' 0] Azure) = [(''azure-ahb'', 0.05)]"
  by (simp add: engine_eval)

text \<open>
  C10. \<open>Array.prototype.sort\<close> is stable, and any stable sort by impact, descending, of
  the candidate list gives the engine's result: a list that is a permutation of the
  candidates, is sorted non-increasingly and keeps the order of equal impacts is
  exactly \<open>generate_recommendations\<close>.
\<close>

theorem sort_desc_unique:
  assumes "mset ys = mset (candidate_recs items c)"
    and "sorted_wrt (\<ge>) (map impact_monthly ys)"
    and "\<forall>r \<in> set ys. filter (\<lambda>x. impact_monthly x = impact_monthly r) ys
           = filter (\<lambda>x. impact_monthly x = impact_monthly r) (candidate_recs items c)"
  shows "generate_recommendations items c = ys"
proof -
  have "sort_key (\<lambda>r. - impact_monthly r) (candidate_recs items c) = ys"
  proof (rule properties_for_sort_key)
    show "mset ys = mset (candidate_recs items c)" by (rule assms(1))
    show "filter (\<lambda>x. - impact_monthly k = - impact_monthly x) ys
          = filter (\<lambda>x. - impact_monthly k = - impact_monthly x) (candidate_recs items c)"
      if "k \<in> set ys" for k
      using assms(3) that by (simp add: eq_commute [of "impact_monthly k"])
    show "sorted (map (\<lambda>r. - impact_monthly r) ys)"
      using assms(2) by (simp add: sorted_map sorted_wrt_map)
  qed
  then show ?thesis by (simp add: generate_js_sort js_sort_desc_def)
qed

theorem sort_desc_unique_witness:
  "generate_recommendations example_items Aws = candidate_recs example_items Aws"
proof -
  have s: "sorted_wrt (\<ge>) (map impact_monthly (candidate_recs example_items Aws))"
    by (simp add: candidate_recs_example)
  show ?thesis by (rule sort_desc_unique [OF refl s]) simp
qed

text \<open>
  C11. Refinement of the aggregation: the loop of \<open>generateRecommendations\<close> builds the
  same dictionary as \<open>summarizeByService\<close> and the plain sum of costs, and reading it
  through a pattern (\<open>Object.entries(svc).filter(...).reduce(...)\<close>,
  \<open>Object.keys(svc).some(...)\<close>) gives the spend and presence of the matching items.
\<close>

theorem aggregate_refines:
  "fst (aggregate items) = summarize_by_service items \<and>
   snd (aggregate items) = sum_list (map cost items) \<and>
   spend_matching pat (fst (aggregate items)) = items_spend pat items \<and>
   has_key_matching pat (fst (aggregate items)) = items_match pat items"
  by (simp add: aggregate_summary)

text \<open>
  The provider rules fire on the presence of a matching service name, the spend
  rules on positive spend: an AWS batch with one RDS line of cost 0 yields the
  reserved-instance recommendation with impact 0, while an S3 line of cost 0 yields no
  lifecycle recommendation.
\<close>

theorem rds_zero_spend:
  "map (\<lambda>r. (rec_id r, impact_monthly r)) (generate_recommendations [row_item Aws ''RDS'' 0] Aws)
     = [(''aws-rds-ri'', 0)] \<and>
   generate_recommendations [row_item Aws ''S3'' 0] Aws = []"
  by (simp add: engine_eval)

end
