(* ===== verification/EscapeIndex.thy ===== *)
theory EscapeIndex
  imports CostModel
begin

text \<open>
  The lock-in escape index, \<open>computeLEI\<close> of \<open>src/packages/core/src/lei.ts\<close>: a score
  that starts at 50 and is moved by five fixed amounts, each applied once when some
  item's service name matches its pattern (the closure \<open>addIf\<close>), then clamped to
  \<open>[0, 100]\<close>. The score is a JavaScript number that only ever holds integers; it is
  an \<open>int\<close> here.
\<close>

section \<open>Patterns\<close>

definition lei_compute_pat :: pattern where
  "lei_compute_pat = [''EC2'', ''Compute Engine'', ''Virtual Machines'']"

definition lei_storage_pat :: pattern where
  "lei_storage_pat = [''S3'', ''Cloud Storage'', ''Blob'']"

definition lei_sql_pat :: pattern where
  "lei_sql_pat = [''PostgreSQL'', ''RDS'', ''SQL Database'', ''Cloud SQL'']"

definition lei_paas_pat :: pattern where
  "lei_paas_pat = [''Lambda'', ''Functions'', ''App Service'']"

definition lei_analytics_pat :: pattern where
  "lei_analytics_pat = [''BigQuery'', ''CosmosDB'', ''DynamoDB'']"

section \<open>The scorer\<close>

text \<open>\<open>items.some(i => regex.test(i.service))\<close>\<close>

definition some_service :: "cost_item list \<Rightarrow> pattern \<Rightarrow> bool" where
  "some_service items pat = list_ex (\<lambda>i. regex_search pat (service i)) items"

text \<open>\<open>addIf(regex, points)\<close>: the score is threaded through the five calls.\<close>

definition add_if :: "cost_item list \<Rightarrow> pattern \<Rightarrow> int \<Rightarrow> int \<Rightarrow> int" where
  "add_if items pat points score = (if some_service items pat then score + points else score)"

definition compute_lei :: "cost_item list \<Rightarrow> int" where
  "compute_lei items =
     (let score0 = 50;
          score1 = add_if items lei_compute_pat 10 score0;
          score2 = add_if items lei_storage_pat 10 score1;
          score3 = add_if items lei_sql_pat 10 score2;
          score4 = add_if items lei_paas_pat (-10) score3;
          score5 = add_if items lei_analytics_pat (-15) score4
      in max 0 (min 100 score5))"

section \<open>The rule table of the design\<close>

text \<open>
  The abstract specification: an ordered table of (pattern, delta) rules over the set
  of service names present; the score is 50 plus the deltas of the rules that some
  name matches.
\<close>

definition lei_rules :: "(pattern \<times> int) list" where
  "lei_rules = [(lei_compute_pat, 10), (lei_storage_pat, 10), (lei_sql_pat, 10),
                (lei_paas_pat, -10), (lei_analytics_pat, -15)]"

definition lei_table :: "string list \<Rightarrow> int" where
  "lei_table names = 50 + sum_list (map snd (filter (\<lambda>(p, d). list_ex (regex_search p) names) lei_rules))"

section \<open>Lemmas\<close>

lemma some_service_names: "some_service items pat = list_ex (regex_search pat) (map service items)"
  by (simp add: some_service_def list_ex_iff)

lemma some_service_Cons [simp]:
  "some_service (x # items) pat = (regex_search pat (service x) \<or> some_service items pat)"
  by (simp add: some_service_def)

lemma some_service_Nil [simp]: "\<not> some_service [] pat"
  by (simp add: some_service_def)

lemma compute_lei_unclamped:
  "compute_lei items =
     50 + (if some_service items lei_compute_pat then 10 else 0)
        + (if some_service items lei_storage_pat then 10 else 0)
        + (if some_service items lei_sql_pat then 10 else 0)
        - (if some_service items lei_paas_pat then 10 else 0)
        - (if some_service items lei_analytics_pat then 15 else 0)"
  by (simp add: compute_lei_def add_if_def Let_def)

section \<open>Properties of the scorer\<close>

text \<open>The score lies in \<open>[0, 100]\<close> for every batch.\<close>

theorem lei_bounds: "0 \<le> compute_lei items \<and> compute_lei items \<le> 100"
  by (simp add: compute_lei_unclamped)

text \<open>
  C12. The score in fact lies in \<open>[25, 80]\<close>: the five deltas sum to at most +30 and at
  least -25, so the clamp to \<open>[0, 100]\<close> never changes the score.
\<close>

theorem lei_range: "25 \<le> compute_lei items \<and> compute_lei items \<le> 80"
  by (simp add: compute_lei_unclamped)

text \<open>The empty batch scores exactly the baseline 50.\<close>

theorem lei_empty: "compute_lei [] = 50"
  by (simp add: compute_lei_def add_if_def)

text \<open>
  C13. Refinement: the code's five \<open>addIf\<close> calls and clamp compute the rule table of
  the design, 50 plus the deltas of the rules that some service name matches.
\<close>

theorem lei_refines_table: "compute_lei items = lei_table (map service items)"
  by (simp add: compute_lei_unclamped lei_table_def lei_rules_def some_service_names)

text \<open>
  C14. The score depends only on the set of service names: reordering the batch,
  repeating items or changing costs, dates or providers leaves it unchanged.
\<close>

theorem lei_set_invariant:
  "set (map service xs) = set (map service ys) \<Longrightarrow> compute_lei xs = compute_lei ys"
  by (simp add: compute_lei_unclamped some_service_names list_ex_iff)

theorem lei_set_invariant_witness:
  "set (map service [row_item Aws ''EC2'' 1, row_item Aws ''BigQuery'' 2])
     = set (map service [row_item Gcp ''BigQuery'' 5, row_item Aws ''EC2'' 0, row_item Aws ''EC2'' 3]) \<and>
   compute_lei [row_item Aws ''EC2'' 1, row_item Aws ''BigQuery'' 2]
     = compute_lei [row_item Gcp ''BigQuery'' 5, row_item Aws ''EC2'' 0, row_item Aws ''EC2'' 3]"
proof -
  have h: "set (map service [row_item Aws ''EC2'' 1, row_item Aws ''BigQuery'' 2])
     = set (map service [row_item Gcp ''BigQuery'' 5, row_item Aws ''EC2'' 0, row_item Aws ''EC2'' 3])"
    by (auto simp: row_item_def)
  show ?thesis using h lei_set_invariant [OF h] by simp
qed

text \<open>
  C15. Adding an item whose service name matches none of the three generic patterns
  (compute, object storage, SQL), for instance a proprietary analytics service, never
  increases the score.
\<close>

theorem lei_no_generic_no_increase:
  assumes "\<not> regex_search lei_compute_pat (service x)"
    and "\<not> regex_search lei_storage_pat (service x)"
    and "\<not> regex_search lei_sql_pat (service x)"
  shows "compute_lei (x # items) \<le> compute_lei items"
  using assms by (simp add: compute_lei_unclamped)

theorem lei_no_generic_no_increase_witness:
  "\<not> regex_search lei_compute_pat ''BigQuery'' \<and> \<not> regex_search lei_storage_pat ''BigQuery'' \<and>
   \<not> regex_search lei_sql_pat ''BigQuery'' \<and>
   compute_lei (row_item Gcp ''BigQuery'' 9 # [row_item Gcp ''Compute Engine'' 1])
     \<le> compute_lei [row_item Gcp ''Compute Engine'' 1]"
proof -
  have a: "\<not> regex_search lei_compute_pat (service (row_item Gcp ''BigQuery'' 9))"
    and b: "\<not> regex_search lei_storage_pat (service (row_item Gcp ''BigQuery'' 9))"
    and c: "\<not> regex_search lei_sql_pat (service (row_item Gcp ''BigQuery'' 9))"
    by (simp_all add: row_item_def lei_compute_pat_def lei_storage_pat_def lei_sql_pat_def)
  show ?thesis using a b c lei_no_generic_no_increase [OF a b c, of "[row_item Gcp ''Compute Engine'' 1]"]
    by (simp add: row_item_def)
qed

text \<open>
  Without that restriction, adding an item that matches the analytics pattern can
  increase the score: a batch holding BigQuery scores 35, and adding a line named
  \<open>DynamoDB on EC2\<close> (analytics and compute) raises it to 45.
\<close>

theorem lei_analytics_can_increase:
  "compute_lei [row_item Aws ''BigQuery'' 1] = 35 \<and>
   compute_lei [row_item Aws ''DynamoDB on EC2'' 1, row_item Aws ''BigQuery'' 1] = 45"
  by (simp add: compute_lei_unclamped row_item_def lei_compute_pat_def lei_storage_pat_def
      lei_sql_pat_def lei_paas_pat_def lei_analytics_pat_def)

end
