(* ===== verification/Api.thy ===== *)
theory Api
  imports Recommendations EscapeIndex
begin

text \<open>
  The \<open>/recommendations\<close> route of \<open>src/apps/api/src/index.ts\<close>, where the two
  cost components meet: the provider is read from the query string, the demo batch of
  that provider is loaded (\<open>loadItems\<close>, \<open>DEMO[p]\<close>), and the response holds the
  provider, \<open>computeLEI\<close> of the batch and \<open>generateRecommendations\<close> of the batch.
  Reading and parsing the CSV file is I/O; it is the parameter \<open>load\<close>, a function from
  the provider to an error or the validated batch. Any thrown error becomes the
  route's error (Fastify answers 500).
\<close>

section \<open>Query and response\<close>

text \<open>
  A query-string value as Fastify parses it: one string, or an array when the key is
  repeated (\<open>?provider=a&provider=b\<close>).
\<close>

datatype query_val = QStr string | QArr "string list"

record response =
  resp_provider :: string
  lei :: int
  recommendations :: "recommendation list"

text \<open>\<open>Array.prototype.join(sep)\<close> on an array of strings.\<close>

fun js_join :: "string \<Rightarrow> string list \<Rightarrow> string" where
  "js_join sep [] = []"
| "js_join sep [x] = x"
| "js_join sep (x # y # ys) = x @ sep @ js_join sep (y # ys)"

text \<open>\<open>String(req.query.provider || "aws")\<close>: \<open>String\<close> of an array joins with commas.\<close>

fun provider_of_query :: "query_val option \<Rightarrow> string" where
  "provider_of_query None = ''aws''"
| "provider_of_query (Some (QStr s)) = (if s = [] then ''aws'' else s)"
| "provider_of_query (Some (QArr xs)) = js_join '','' xs"

text \<open>
  \<open>DEMO[p]\<close>: only the three own keys name a file; any other \<open>p\<close> gives \<open>undefined\<close> or
  an inherited member of \<open>Object.prototype\<close>, and \<open>fs.readFileSync\<close> throws on both.
\<close>

fun demo_cloud :: "string \<Rightarrow> cloud option" where
  "demo_cloud p =
     (if p = ''aws'' then Some Aws else if p = ''azure'' then Some Azure
      else if p = ''gcp'' then Some Gcp else None)"

section \<open>The route\<close>

definition recommendations_route ::
    "(cloud \<Rightarrow> string + cost_item list) \<Rightarrow> query_val option \<Rightarrow> string + response" where
  "recommendations_route load q =
     (let p = provider_of_query q
      in case demo_cloud p of
           None \<Rightarrow> Inl ''TypeError [ERR_INVALID_ARG_TYPE]: the path argument must be a string''
         | Some c \<Rightarrow>
             (case load c of
                Inl e \<Rightarrow> Inl e
              | Inr items \<Rightarrow>
                  Inr \<lparr>resp_provider = p, lei = compute_lei items,
                       recommendations = generate_recommendations items c\<rparr>))"

section \<open>Lemmas\<close>

lemma demo_cloud_Some: "demo_cloud p = Some c \<longleftrightarrow> p = cloud_name c"
  by (cases c) auto

lemma route_Inr:
  "recommendations_route load q = Inr r \<longleftrightarrow>
     (\<exists>c items. demo_cloud (provider_of_query q) = Some c \<and> load c = Inr items \<and>
        r = \<lparr>resp_provider = cloud_name c, lei = compute_lei items,
             recommendations = generate_recommendations items c\<rparr>)"
proof (cases "demo_cloud (provider_of_query q)")
  case None
  then show ?thesis by (simp add: recommendations_route_def Let_def del: demo_cloud.simps)
next
  case (Some c)
  then have p: "provider_of_query q = cloud_name c" by (simp only: demo_cloud_Some)
  from Some show ?thesis
    by (auto simp: recommendations_route_def Let_def p split: sum.splits simp del: demo_cloud.simps)
qed

section \<open>Properties of the route\<close>

text \<open>
  C21. A successful response names one of the three providers, carries a score in
  \<open>[25, 80]\<close>, and lists recommendations sorted by impact, non-increasing, each with
  \<open>meta = {cloud: provider}\<close> of the provider named in the response.
\<close>

theorem route_response_ok:
  assumes "recommendations_route load q = Inr r"
  shows "resp_provider r \<in> {''aws'', ''azure'', ''gcp''} \<and> 25 \<le> lei r \<and> lei r \<le> 80 \<and>
         sorted_wrt (\<ge>) (map impact_monthly (recommendations r)) \<and>
         list_all (\<lambda>x. meta x = [(''cloud'', resp_provider r)]) (recommendations r)"
proof -
  obtain c items where l: "load c = Inr items"
    and r: "r = \<lparr>resp_provider = cloud_name c, lei = compute_lei items,
                 recommendations = generate_recommendations items c\<rparr>"
    using assms by (auto simp: route_Inr simp del: demo_cloud.simps)
  have p: "cloud_name c \<in> {''aws'', ''azure'', ''gcp''}" by (cases c) auto
  have m: "list_all (\<lambda>x. meta x = [(''cloud'', cloud_name c)]) (generate_recommendations items c)"
    by (auto simp: list_all_iff set_generate mk_rec_def dest!: candidate_shape)
  show ?thesis using p m unfolding r
    by (simp add: compute_lei_unclamped generate_js_sort js_sort_desc_sorted)
qed

theorem route_response_ok_witness:
  "recommendations_route (\<lambda>c. Inr example_items) None
     = Inr \<lparr>resp_provider = ''aws'', lei = compute_lei example_items,
            recommendations = generate_recommendations example_items Aws\<rparr> \<and>
   ''aws'' \<in> {''aws'', ''azure'', ''gcp''} \<and> 25 \<le> compute_lei example_items \<and> compute_lei example_items \<le> 80 \<and>
   sorted_wrt (\<ge>) (map impact_monthly (generate_recommendations example_items Aws)) \<and>
   list_all (\<lambda>x. meta x = [(''cloud'', ''aws'')]) (generate_recommendations example_items Aws)"
proof -
  have h: "recommendations_route (\<lambda>c. Inr example_items) None
     = Inr \<lparr>resp_provider = ''aws'', lei = compute_lei example_items,
            recommendations = generate_recommendations example_items Aws\<rparr>"
    by (simp add: recommendations_route_def)
  show ?thesis using h route_response_ok [OF h] by simp
qed

text \<open>
  The provider is neither validated nor normalised before the lookup: an upper-case
  name, a repeated query key (\<open>?provider=aws&provider=gcp\<close>, joined to \<open>aws,gcp\<close>) or the
  name of an \<open>Object.prototype\<close> member fails the whole request.
\<close>

theorem route_provider_errors:
  "isl (recommendations_route load (Some (QStr ''AWS''))) \<and>
   isl (recommendations_route load (Some (QArr [''aws'', ''gcp'']))) \<and>
   isl (recommendations_route load (Some (QStr ''toString'')))"
  by (simp add: recommendations_route_def)

text \<open>
  A missing or empty \<open>provider\<close> parameter is the same request as
  \<open>provider=aws\<close>.
\<close>

theorem route_default_aws:
  "recommendations_route load None = recommendations_route load (Some (QStr ''aws'')) \<and>
   recommendations_route load (Some (QStr [])) = recommendations_route load (Some (QStr ''aws''))"
  by (simp add: recommendations_route_def)

end
