(* ===== verification/Validation.thy ===== *)
theory Validation
  imports CostModel
begin

text \<open>
  The ingestion boundary: \<open>loadCsv\<close> of \<open>src/packages/core/src/normalize.ts\<close> builds,
  for each CSV row, the object it hands to \<open>CostItem.parse\<close>, the zod schema of
  \<open>src/packages/core/src/types.ts\<close>. Splitting the file's text into record objects
  (\<open>csv-parse\<close>) is the CsvParse theory; this one starts from the records, each column
  a string when the header has it. The cost column goes through
  \<open>parseFloat(String(r.cost).replace(/\s/g, ''))\<close>, modelled as \<open>parse_float\<close> on
  ECMAScript's \<open>StrDecimalLiteral\<close> prefix grammar. The date goes through
  \<open>z.coerce.date()\<close>, i.e. \<open>new Date(value)\<close>: \<open>cost_item_parse\<close> takes the date parser
  as a parameter (\<open>None\<close> for an invalid date), and \<open>js_date_parse\<close> is that parser
  for the date-only forms of ECMAScript's Date Time String Format, with the host's
  implementation-defined parser for every other string as its own parameter.
\<close>

section \<open>JavaScript numbers from strings\<close>

datatype js_num = Fin real | NaN | PosInf | NegInf

definition is_digit :: "char \<Rightarrow> bool" where
  "is_digit c \<longleftrightarrow> (48 :: nat) \<le> of_char c \<and> of_char c \<le> (57 :: nat)"

definition digit_val :: "char \<Rightarrow> nat" where
  "digit_val c = of_char c - of_char (CHR ''0'')"

definition digits_value :: "string \<Rightarrow> nat" where
  "digits_value ds = foldl (\<lambda>a d. 10 * a + digit_val d) 0 ds"

text \<open>The optional exponent \<open>e[+-]digits\<close>; it is consumed only when a digit follows.\<close>

definition exponent_of :: "string \<Rightarrow> int" where
  "exponent_of r =
     (case r of
        c # t \<Rightarrow>
          (if c = CHR ''e'' \<or> c = CHR ''E'' then
             (let (sg, u) = (case t of
                               d # u' \<Rightarrow> (if d = CHR ''-'' then (-1, u') else if d = CHR ''+'' then (1, u') else (1, t))
                             | [] \<Rightarrow> (1, t));
                  ds = takeWhile is_digit u
              in if ds = [] then 0 else sg * int (digits_value ds))
           else 0)
      | [] \<Rightarrow> 0)"

definition scale10 :: "real \<Rightarrow> int \<Rightarrow> real" where
  "scale10 x e = (if 0 \<le> e then x * 10 ^ nat e else x / 10 ^ nat (- e))"

text \<open>
  \<open>parseFloat\<close> on a string without leading white space: an optional sign, then
  \<open>Infinity\<close> or the longest decimal literal (digits, an optional fraction, an optional
  exponent); \<open>NaN\<close> when no digit starts it.
\<close>

definition parse_float :: "string \<Rightarrow> js_num" where
  "parse_float s =
     (let (sg, r) = (case s of
                       c # t \<Rightarrow> (if c = CHR ''-'' then (-1 :: real, t) else if c = CHR ''+'' then (1, t) else (1, s))
                     | [] \<Rightarrow> (1, s))
      in if take 8 r = ''Infinity'' then (if sg < 0 then NegInf else PosInf)
         else
           (let ip = takeWhile is_digit r;
                r1 = dropWhile is_digit r;
                (fp, r2) = (case r1 of
                              c # t \<Rightarrow> (if c = CHR ''.'' then (takeWhile is_digit t, dropWhile is_digit t) else ([], r1))
                            | [] \<Rightarrow> ([], r1))
            in if ip = [] \<and> fp = [] then NaN
               else Fin (sg * scale10 (real (digits_value ip) + real (digits_value fp) / 10 ^ length fp)
                                      (exponent_of r2))))"

text \<open>\<open>.replace(/\s/g, '')\<close> for the ASCII white-space characters.\<close>

definition js_ws :: "char \<Rightarrow> bool" where
  "js_ws c \<longleftrightarrow> c \<in> set [CHR 0x20, CHR 0x09, CHR 0x0A, CHR 0x0B, CHR 0x0C, CHR 0x0D]"

definition strip_ws :: "string \<Rightarrow> string" where
  "strip_ws s = filter (\<lambda>c. \<not> js_ws c) s"

text \<open>\<open>String(r.cost)\<close>: a missing column is \<open>undefined\<close>.\<close>

definition js_string_opt :: "string option \<Rightarrow> string" where
  "js_string_opt v = (case v of None \<Rightarrow> ''undefined'' | Some s \<Rightarrow> s)"

text \<open>\<open>String(n)\<close> for a natural number: its decimal digits.\<close>

fun nat_digits :: "nat \<Rightarrow> string" where
  "nat_digits n =
     (if n < 10 then [char_of (48 + n)] else nat_digits (n div 10) @ [char_of (48 + n mod 10)])"

declare nat_digits.simps [simp del]

section \<open>Rows and the schema\<close>

record csv_row =
  col_service :: "string option"
  col_usage_type :: "string option"
  col_resource_id :: "string option"
  col_date :: "string option"
  col_cost :: "string option"

text \<open>The object literal \<open>loadCsv\<close> passes to \<open>CostItem.parse\<close>.\<close>

record raw_item =
  raw_cloud :: cloud
  raw_service :: "string option"
  raw_usage_type :: string
  raw_resource_id :: "string option"
  raw_date :: "string option"
  raw_cost :: js_num

definition load_row :: "cloud \<Rightarrow> csv_row \<Rightarrow> raw_item" where
  "load_row c r =
     \<lparr>raw_cloud = c, raw_service = col_service r,
      raw_usage_type = (case col_usage_type r of None \<Rightarrow> [] | Some s \<Rightarrow> s),
      raw_resource_id = (case col_resource_id r of None \<Rightarrow> None | Some s \<Rightarrow> if s = [] then None else Some s),
      raw_date = col_date r,
      raw_cost = parse_float (strip_ws (js_string_opt (col_cost r)))\<rparr>"

text \<open>
  The issues zod reports, in the order of the schema's keys (zod collects every issue of
  an object before it throws). \<open>cloud\<close>, \<open>usage_type\<close> and \<open>resource_id\<close> always pass:
  \<open>loadCsv\<close>'s parameter is typed, and the other two are built as a string and as a
  string or \<open>null\<close>. \<open>z.number()\<close> refuses only \<open>NaN\<close>: a cost that \<open>parseFloat\<close>
  reads as \<open>Infinity\<close> or \<open>-Infinity\<close> passes.
\<close>

datatype zod_issue = Required string | InvalidDate | NotANumber

text \<open>
  The object \<open>CostItem.parse\<close> returns: a cost item whose cost is a JavaScript number
  other than \<open>NaN\<close>, so possibly infinite.
\<close>

record zod_item =
  z_cloud :: cloud
  z_service :: string
  z_usage_type :: string
  z_resource_id :: "string option"
  z_date :: int
  z_cost :: js_num

definition cost_item_parse :: "(string \<Rightarrow> int option) \<Rightarrow> raw_item \<Rightarrow> zod_issue list + zod_item" where
  "cost_item_parse date_parse x =
     (let i_service = (case raw_service x of None \<Rightarrow> [Required ''service''] | Some _ \<Rightarrow> []);
          d = (case raw_date x of None \<Rightarrow> None | Some s \<Rightarrow> date_parse s);
          i_date = (case d of None \<Rightarrow> [InvalidDate] | Some _ \<Rightarrow> []);
          i_cost = (case raw_cost x of NaN \<Rightarrow> [NotANumber] | _ \<Rightarrow> []);
          issues = i_service @ i_date @ i_cost
      in if issues \<noteq> [] then Inl issues
         else Inr \<lparr>z_cloud = raw_cloud x, z_service = the (raw_service x), z_usage_type = raw_usage_type x,
                   z_resource_id = raw_resource_id x, z_date = the d, z_cost = raw_cost x\<rparr>)"

text \<open>\<open>rows.map(r => CostItem.parse(...))\<close>: the first invalid row throws.\<close>

fun load_rows :: "(string \<Rightarrow> int option) \<Rightarrow> cloud \<Rightarrow> csv_row list \<Rightarrow> zod_issue list + zod_item list" where
  "load_rows dp c [] = Inr []"
| "load_rows dp c (r # rs) =
     (case cost_item_parse dp (load_row c r) of
        Inl e \<Rightarrow> Inl e
      | Inr it \<Rightarrow> (case load_rows dp c rs of Inl e \<Rightarrow> Inl e | Inr its \<Rightarrow> Inr (it # its)))"

section \<open>The batches the engine model covers\<close>

text \<open>
  The engine's numbers are exact reals (the \<open>cost_item\<close> record), so a loaded item is
  handed to it as a \<open>cost_item\<close> when its cost is finite. A batch with an infinite cost
  is one the engine computes on with \<open>Infinity\<close> and \<open>NaN\<close>; \<open>finite_items\<close> is \<open>None\<close>
  for it, and the server model treats it separately.
\<close>

definition item_of_zod :: "zod_item \<Rightarrow> cost_item option" where
  "item_of_zod z =
     (case z_cost z of
        Fin v \<Rightarrow> Some \<lparr>cloud = z_cloud z, service = z_service z, usage_type = z_usage_type z,
                       resource_id = z_resource_id z, date = z_date z, cost = v\<rparr>
      | _ \<Rightarrow> None)"

fun finite_items :: "zod_item list \<Rightarrow> cost_item list option" where
  "finite_items [] = Some []"
| "finite_items (z # zs) =
     (case item_of_zod z of None \<Rightarrow> None | Some i \<Rightarrow> map_option (Cons i) (finite_items zs))"

section \<open>Date strings\<close>

text \<open>
  \<open>z.coerce.date()\<close> is \<open>new Date(value)\<close>. For the date-only forms of ECMAScript's Date Time
  String Format (\<open>YYYY\<close>, \<open>YYYY-MM\<close>, \<open>YYYY-MM-DD\<close>, read as UTC) the time value is
  fixed by the standard (\<open>MakeDay\<close>, \<open>DayFromYear\<close>, milliseconds per day); every other
  string, and a date of that shape that does not exist, goes to the host's
  implementation-defined parser, the parameter \<open>fallback\<close>.
\<close>

definition is_leap :: "int \<Rightarrow> bool" where
  "is_leap y \<longleftrightarrow> 4 dvd y \<and> (\<not> 100 dvd y \<or> 400 dvd y)"

definition days_in_month :: "int \<Rightarrow> nat \<Rightarrow> nat" where
  "days_in_month y m =
     (if m = 2 then (if is_leap y then 29 else 28) else if m \<in> {4, 6, 9, 11} then 30 else 31)"

text \<open>\<open>DayFromYear(y)\<close>, with floor division.\<close>

definition day_from_year :: "int \<Rightarrow> int" where
  "day_from_year y = 365 * (y - 1970) + (y - 1969) div 4 - (y - 1901) div 100 + (y - 1601) div 400"

text \<open>The first day of month \<open>m\<close> within its year (\<open>MakeDay\<close>'s month table).\<close>

definition month_start :: "int \<Rightarrow> nat \<Rightarrow> int" where
  "month_start y m =
     int ([0, 31, 59, 90, 120, 151, 181, 212, 243, 273, 304, 334] ! (m - 1)) + (if is_leap y \<and> 3 \<le> m then 1 else 0)"

definition make_day :: "int \<Rightarrow> nat \<Rightarrow> nat \<Rightarrow> int" where
  "make_day y m d = day_from_year y + month_start y m + int d - 1"

text \<open>Exactly \<open>n\<close> decimal digits.\<close>

definition digits_n :: "nat \<Rightarrow> string \<Rightarrow> nat option" where
  "digits_n n s = (if length s = n \<and> list_all is_digit s then Some (digits_value s) else None)"

definition valid_date :: "int \<Rightarrow> nat \<Rightarrow> nat \<Rightarrow> bool" where
  "valid_date y m d \<longleftrightarrow> 1 \<le> m \<and> m \<le> 12 \<and> 1 \<le> d \<and> d \<le> days_in_month y m"

definition iso_date :: "string \<Rightarrow> int option" where
  "iso_date s =
     (case digits_n 4 (take 4 s) of
        None \<Rightarrow> None
      | Some y \<Rightarrow>
          (let r = drop 4 s;
               md = (if r = [] then Some (1, 1)
                     else if length r = 3 \<and> hd r = CHR ''-'' then
                       (case digits_n 2 (drop 1 r) of None \<Rightarrow> None | Some m \<Rightarrow> Some (m, 1))
                     else if length r = 6 \<and> hd r = CHR ''-'' \<and> r ! 3 = CHR ''-'' then
                       (case (digits_n 2 (take 2 (drop 1 r)), digits_n 2 (drop 4 r)) of
                          (Some m, Some d) \<Rightarrow> Some (m, d)
                        | _ \<Rightarrow> None)
                     else None)
           in case md of
                None \<Rightarrow> None
              | Some (m, d) \<Rightarrow> if valid_date (int y) m d then Some (make_day (int y) m d * 86400000) else None))"

text \<open>\<open>Date.parse\<close>: the standard format where it applies, the host's parser otherwise.\<close>

definition js_date_parse :: "(string \<Rightarrow> int option) \<Rightarrow> string \<Rightarrow> int option" where
  "js_date_parse fallback s = (case iso_date s of Some t \<Rightarrow> Some t | None \<Rightarrow> fallback s)"


text \<open>
  A row that \<open>CostItem.parse\<close> accepts: a service, a date the parser reads, a cost that
  \<open>parseFloat\<close> reads as a number other than \<open>NaN\<close>.
\<close>

definition row_ok :: "(string \<Rightarrow> int option) \<Rightarrow> csv_row \<Rightarrow> bool" where
  "row_ok dp r \<longleftrightarrow> col_service r \<noteq> None \<and>
     (case col_date r of None \<Rightarrow> False | Some s \<Rightarrow> dp s \<noteq> None) \<and>
     parse_float (strip_ws (js_string_opt (col_cost r))) \<noteq> NaN"

section \<open>Reference views of dates\<close>

text \<open>
  A reference count of days: whole years from 1970 (or back to it), then whole months of
  the year. The closed formula of \<open>make_day\<close> is proved equal to it.
\<close>

definition year_len :: "int \<Rightarrow> int" where
  "year_len y = (if is_leap y then 366 else 365)"

definition year_day :: "int \<Rightarrow> int" where
  "year_day y = (if 1970 \<le> y then sum_list (map year_len [1970..y - 1]) else - sum_list (map year_len [y..1969]))"

definition month_sum :: "int \<Rightarrow> nat \<Rightarrow> nat" where
  "month_sum y m = sum_list (map (days_in_month y) [1..<m])"

text \<open>A date printed in the \<open>YYYY-MM-DD\<close> form, zero-padded.\<close>

definition pad_digits :: "nat \<Rightarrow> nat \<Rightarrow> string" where
  "pad_digits k n = replicate (k - length (nat_digits n)) (CHR ''0'') @ nat_digits n"

definition iso_format :: "int \<Rightarrow> nat \<Rightarrow> nat \<Rightarrow> string" where
  "iso_format y m d = pad_digits 4 (nat y) @ ''-'' @ pad_digits 2 m @ ''-'' @ pad_digits 2 d"

section \<open>Lemmas\<close>

lemma nat_digits_digit: "c \<in> set (nat_digits n) \<Longrightarrow> is_digit c"
proof (induction n rule: nat_digits.induct)
  case (1 n)
  then show ?case
    by (cases "n < 10") (auto simp: is_digit_def of_char_of nat_digits.simps [of n])
qed

lemma digit_val_char: "d < 10 \<Longrightarrow> digit_val (char_of (48 + d)) = d"
  by (simp add: digit_val_def of_char_of)

lemma digits_value_snoc: "digits_value (xs @ [x]) = 10 * digits_value xs + digit_val x"
  by (simp add: digits_value_def)

lemma digits_value_nat_digits: "digits_value (nat_digits n) = n"
proof (induction n rule: nat_digits.induct)
  case (1 n)
  show ?case
  proof (cases "n < 10")
    case True
    then show ?thesis by (simp add: nat_digits.simps [of n] digits_value_def digit_val_char)
  next
    case False
    with "1.IH" show ?thesis
      by (simp add: nat_digits.simps [of n] digits_value_snoc digit_val_char)
  qed
qed

lemma nat_digits_inj: "inj nat_digits"
  by (rule inj_on_inverseI [where g = digits_value]) (rule digits_value_nat_digits)

lemma nat_digits_ne: "nat_digits n \<noteq> []"
  by (simp add: nat_digits.simps [of n])

lemma nat_digits_hd: "\<exists>c cs. nat_digits n = c # cs \<and> is_digit c"
proof -
  obtain c cs where "nat_digits n = c # cs" using nat_digits_ne by (cases "nat_digits n") auto
  moreover have "is_digit c" using nat_digits_digit [of c n] calculation by simp
  ultimately show ?thesis by blast
qed

lemma nat_digits_no_ws: "x \<in> set (nat_digits n) \<Longrightarrow> \<not> js_ws x"
  using nat_digits_digit by (fastforce simp: is_digit_def js_ws_def)

lemma takeWhile_nat_digits [simp]: "takeWhile is_digit (nat_digits n) = nat_digits n"
  using nat_digits_digit by (simp add: takeWhile_eq_all_conv)

lemma dropWhile_nat_digits [simp]: "dropWhile is_digit (nat_digits n) = []"
  using nat_digits_digit by (simp add: dropWhile_eq_Nil_conv)

lemma parse_float_nat_digits: "parse_float (nat_digits n) = Fin (real n)"
proof -
  obtain c cs where e: "nat_digits n = c # cs" and d: "is_digit c" using nat_digits_hd by blast
  have nm: "c \<noteq> CHR ''-''" "c \<noteq> CHR ''+''" "take 8 (nat_digits n) \<noteq> ''Infinity''"
    using d e by (auto simp: is_digit_def)
  have dv: "digits_value (c # cs) = n" using e digits_value_nat_digits [of n] by simp
  have d0: "digits_value [] = 0" by (simp add: digits_value_def)
  show ?thesis
    using e nm dv d0 takeWhile_nat_digits [of n] dropWhile_nat_digits [of n]
    by (simp add: parse_float_def Let_def exponent_of_def scale10_def)
qed

lemma strip_ws_nat_digits: "strip_ws (nat_digits n) = nat_digits n"
  using nat_digits_no_ws by (simp add: strip_ws_def filter_id_conv)

lemma load_rows_Inr:
  "load_rows dp c rs = Inr its \<Longrightarrow> length its = length rs \<and> list_all (\<lambda>i. z_cloud i = c) its"
proof (induction rs arbitrary: its)
  case Nil
  then show ?case by simp
next
  case (Cons r rs)
  then show ?case
    by (auto simp: cost_item_parse_def load_row_def Let_def split: sum.splits if_splits)
qed

lemma finite_items_None: "finite_items zs = None \<longleftrightarrow> list_ex (\<lambda>z. item_of_zod z = None) zs"
  by (induction zs) (auto split: option.split)

lemma finite_items_map:
  "(\<And>x. x \<in> set xs \<Longrightarrow> item_of_zod (f x) = Some (g x)) \<Longrightarrow> finite_items (map f xs) = Some (map g xs)"
  by (induction xs) auto

lemma parse_float_infinity:
  "parse_float ''Infinity'' = PosInf \<and> parse_float ''-Infinity'' = NegInf"
  by (simp add: parse_float_def)

lemma load_rows_first_error:
  "cost_item_parse dp (load_row c r) = Inl e \<Longrightarrow> load_rows dp c (r # rs) = Inl e"
  by simp

lemma div_succ:
  assumes n: "0 < (n::int)"
  shows "(a + 1) div n = a div n + (if n dvd (a + 1) then 1 else 0)"
proof -
  define q r where "q = a div n" and "r = a mod n"
  have a: "a = n * q + r" by (simp add: q_def r_def)
  have r: "0 \<le> r" "r < n" using n by (simp_all add: r_def)
  show ?thesis
  proof (cases "r + 1 = n")
    case True
    then have "a + 1 = n * (q + 1)" using a by (simp add: algebra_simps)
    then show ?thesis using n by (simp add: q_def)
  next
    case False
    then have r1: "r + 1 < n" using r by simp
    have e: "a + 1 = (r + 1) + q * n" using a by (simp add: algebra_simps)
    have d: "(a + 1) div n = q"
      unfolding e using r r1 n by (simp add: div_mult_self1 div_pos_pos_trivial)
    have m: "(a + 1) mod n = r + 1"
      unfolding e using r r1 n by (simp add: mod_mult_self1 mod_pos_pos_trivial)
    have "\<not> n dvd (a + 1)" using m r by (simp add: dvd_eq_mod_eq_0)
    then show ?thesis using d by (simp add: q_def)
  qed
qed

lemma div_succ_shift:
  assumes n: "0 < (n::int)" and k: "n dvd (k - 1)"
  shows "(y + 1 - k) div n = (y - k) div n + (if n dvd y then 1 else 0)"
proof -
  have e: "y + 1 - k = (y - k) + 1" by simp
  have "1 - k = - (k - 1)" by simp
  then have k': "n dvd (1 - k)" using k by (simp only: dvd_minus_iff)
  have "n dvd (y - k + 1) \<longleftrightarrow> n dvd ((1 - k) + y)" by (simp add: algebra_simps)
  also have "\<dots> \<longleftrightarrow> n dvd y" by (rule dvd_add_right_iff [OF k'])
  finally show ?thesis unfolding e using div_succ [OF n, of "y - k"] by simp
qed

lemma day_from_year_succ: "day_from_year (y + 1) = day_from_year y + year_len y"
proof -
  have h4: "(y + 1 - 1969) div 4 = (y - 1969) div 4 + (if 4 dvd y then 1 else 0)"
    by (rule div_succ_shift) simp_all
  have h100: "(y + 1 - 1901) div 100 = (y - 1901) div 100 + (if 100 dvd y then 1 else 0)"
    by (rule div_succ_shift) simp_all
  have h400: "(y + 1 - 1601) div 400 = (y - 1601) div 400 + (if 400 dvd y then 1 else 0)"
    by (rule div_succ_shift) simp_all
  have s: "day_from_year (y + 1) = day_from_year y + 365 + (if 4 dvd y then 1 else 0)
             - (if 100 dvd y then 1 else 0) + (if 400 dvd y then 1 else 0)"
    unfolding day_from_year_def by (simp only: h4 h100 h400) (simp add: algebra_simps)
  have d1: "400 dvd y \<Longrightarrow> 100 dvd y" by (rule dvd_trans [of 100 400]) simp_all
  have d2: "100 dvd y \<Longrightarrow> 4 dvd y" by (rule dvd_trans [of 4 100]) simp_all
  show ?thesis unfolding s year_len_def is_leap_def using d1 d2 by auto
qed

lemma year_day_succ: "year_day (y + 1) = year_day y + year_len y"
proof (cases "1970 \<le> y")
  case True
  then have "[1970..y] = [1970..y - 1] @ [y]" by (simp add: upto_rec2)
  with True show ?thesis by (simp add: year_day_def)
next
  case False
  show ?thesis
  proof (cases "y = 1969")
    case True
    then show ?thesis by (simp add: year_day_def)
  next
    case False
    with \<open>\<not> 1970 \<le> y\<close> have "y + 1 \<le> 1969" by simp
    then have "[y..1969] = y # [y + 1..1969]" by (simp add: upto_rec1)
    with \<open>y + 1 \<le> 1969\<close> show ?thesis by (simp add: year_day_def)
  qed
qed

lemma day_from_year_ref: "day_from_year y = year_day y"
proof (induction y rule: int_induct [where k = 1970])
  case base
  then show ?case by (simp add: day_from_year_def year_day_def)
next
  case (step1 i)
  then show ?case by (simp add: day_from_year_succ year_day_succ)
next
  case (step2 i)
  define j where "j = i - 1"
  have "day_from_year (j + 1) = year_day (j + 1)" using step2 by (simp add: j_def)
  then have "day_from_year j = year_day j" by (simp add: day_from_year_succ year_day_succ)
  then show ?case by (simp add: j_def)
qed

lemma month_start_sum: "1 \<le> m \<Longrightarrow> m \<le> 12 \<Longrightarrow> month_start y m = int (month_sum y m)"
proof -
  assume "1 \<le> m" "m \<le> 12"
  then have "m \<in> {1, 2, 3, 4, 5, 6, 7, 8, 9, 10, 11, 12}" by (auto simp: le_Suc_eq numeral_eq_Suc)
  then show ?thesis
    by (elim insertE emptyE) (simp_all add: month_start_def month_sum_def days_in_month_def upt_rec)
qed

lemma make_day_ref:
  "1 \<le> m \<Longrightarrow> m \<le> 12 \<Longrightarrow> make_day y m d = year_day y + int (month_sum y m) + int d - 1"
  by (simp add: make_day_def day_from_year_ref month_start_sum)

lemma month_sum_split: "1 \<le> m \<Longrightarrow> m \<le> m' \<Longrightarrow>
    month_sum y m' = month_sum y m + sum_list (map (days_in_month y) [m..<m'])"
  using upt_add_eq_append [of 1 m "m' - m"] by (simp add: month_sum_def)

lemma month_sum_13: "int (month_sum y 13) = year_len y"
  by (simp add: month_sum_def days_in_month_def year_len_def upt_rec)

lemma day_in_year:
  assumes "valid_date y m d"
  shows "month_sum y m + d \<le> month_sum y 13"
proof -
  have m: "1 \<le> m" "m \<le> 12" "d \<le> days_in_month y m" using assms by (simp_all add: valid_date_def)
  have "month_sum y 13 = month_sum y m + sum_list (map (days_in_month y) [m..<13])"
    using m by (intro month_sum_split) simp_all
  moreover have "[m..<13] = m # [Suc m..<13]" using m by (simp add: upt_rec)
  ultimately show ?thesis using m by simp
qed

lemma year_day_mono: "y < y' \<Longrightarrow> year_day y + year_len y \<le> year_day y'"
proof (induction y' rule: int_gr_induct)
  case base
  then show ?case by (simp add: year_day_succ)
next
  case (step i)
  then show ?case by (simp add: year_day_succ year_len_def)
qed

lemma length_nat_digits: "n < 10 ^ k \<Longrightarrow> 0 < k \<Longrightarrow> length (nat_digits n) \<le> k"
proof (induction n arbitrary: k rule: nat_digits.induct)
  case (1 n)
  show ?case
  proof (cases "n < 10")
    case True
    with "1.prems" show ?thesis by (simp add: nat_digits.simps [of n])
  next
    case False
    obtain k' where k0: "k = Suc k'" using "1.prems" by (cases k) auto
    have "k' \<noteq> 0"
    proof
      assume "k' = 0"
      with k0 "1.prems" False show False by simp
    qed
    with k0 have k: "k = Suc k'" "0 < k'" by simp_all
    have "n div 10 < 10 ^ k'" using "1.prems" k by (simp add: less_mult_imp_div_less)
    with False k "1.IH" [of k'] show ?thesis by (simp add: nat_digits.simps [of n])
  qed
qed

lemma digits_value_zeros: "digits_value (replicate j (CHR ''0'') @ ds) = digits_value ds"
proof -
  have "foldl (\<lambda>a d. 10 * a + digit_val d) 0 (replicate j (CHR ''0'')) = 0"
    by (induction j) (simp_all add: digit_val_def)
  then show ?thesis by (simp add: digits_value_def)
qed

lemma digits_n_pad: "n < 10 ^ k \<Longrightarrow> 0 < k \<Longrightarrow> digits_n k (pad_digits k n) = Some n"
  using length_nat_digits [of n k] nat_digits_digit [of _ n]
  by (auto simp: digits_n_def pad_digits_def list_all_iff is_digit_def digits_value_zeros
      digits_value_nat_digits)

lemma cost_item_parse_ok: "(\<exists>it. cost_item_parse dp (load_row c r) = Inr it) \<longleftrightarrow> row_ok dp r"
  by (auto simp: cost_item_parse_def load_row_def row_ok_def Let_def split: option.splits js_num.split_asm)

lemma js_date_parse_iso: "iso_date s = Some t \<Longrightarrow> js_date_parse fallback s = Some t"
  by (simp add: js_date_parse_def)


section \<open>Properties of the loader\<close>

text \<open>
  Round trip of the cost column: a column holding the decimal digits of a natural
  number \<open>n\<close> (as \<open>String(n)\<close> prints it) is loaded as the number \<open>n\<close>.
\<close>

theorem cost_column_roundtrip:
  "raw_cost (load_row c (r\<lparr>col_cost := Some (nat_digits n)\<rparr>)) = Fin (real n)"
  by (simp add: load_row_def js_string_opt_def strip_ws_nat_digits parse_float_nat_digits)

text \<open>
  C34. \<open>loadCsv\<close> succeeds exactly when every row is accepted: it has a service, a date
  the parser reads, and a cost that \<open>parseFloat\<close> reads as a number other than \<open>NaN\<close>
  (\<open>Infinity\<close> included); a single rejected row anywhere fails the whole load.
\<close>

theorem load_rows_ok: "(\<exists>items. load_rows dp c rows = Inr items) \<longleftrightarrow> list_all (row_ok dp) rows"
proof (induction rows)
  case Nil
  then show ?case by simp
next
  case (Cons r rs)
  have "(\<exists>items. load_rows dp c (r # rs) = Inr items) \<longleftrightarrow>
          (\<exists>it. cost_item_parse dp (load_row c r) = Inr it) \<and> (\<exists>items. load_rows dp c rs = Inr items)"
    by (auto split: sum.splits)
  then show ?case using Cons.IH by (simp add: cost_item_parse_ok)
qed

text \<open>
  C35. An infinite cost passes validation: a row with a service and a date the parser
  reads, whose cost column is \<open>Infinity\<close> or \<open>-Infinity\<close>, loads as an item with that
  infinite cost, although the cost record model requires a finite number; such a batch
  is outside the engine's real-valued model.
\<close>

theorem infinite_cost_accepted:
  assumes "col_service r = Some s" "col_date r = Some d" "dp d = Some t"
  shows "\<exists>z z'. load_rows dp c [r\<lparr>col_cost := Some ''Infinity''\<rparr>] = Inr [z] \<and>
                load_rows dp c [r\<lparr>col_cost := Some ''-Infinity''\<rparr>] = Inr [z'] \<and>
                z_service z = s \<and> z_date z = t \<and> z_cost z = PosInf \<and> z_cost z' = NegInf \<and>
                finite_items [z] = None \<and> finite_items [z'] = None"
  using assms parse_float_infinity
  by (simp add: cost_item_parse_def load_row_def js_string_opt_def strip_ws_def js_ws_def item_of_zod_def)

theorem infinite_cost_accepted_witness:
  "col_service \<lparr>col_service = Some ''S3'', col_usage_type = None, col_resource_id = None,
                col_date = Some ''2024-01-01'', col_cost = None\<rparr> = Some ''S3'' \<and>
   col_date \<lparr>col_service = Some ''S3'', col_usage_type = None, col_resource_id = None,
             col_date = Some ''2024-01-01'', col_cost = None\<rparr> = Some ''2024-01-01'' \<and>
   (\<lambda>_. Some (0::int)) ''2024-01-01'' = Some 0 \<and>
   (\<exists>z z'. load_rows (\<lambda>_. Some 0) Aws [\<lparr>col_service = Some ''S3'', col_usage_type = None, col_resource_id = None,
             col_date = Some ''2024-01-01'', col_cost = Some ''Infinity''\<rparr>] = Inr [z] \<and>
           load_rows (\<lambda>_. Some 0) Aws [\<lparr>col_service = Some ''S3'', col_usage_type = None, col_resource_id = None,
             col_date = Some ''2024-01-01'', col_cost = Some ''-Infinity''\<rparr>] = Inr [z'] \<and>
           z_service z = ''S3'' \<and> z_date z = 0 \<and> z_cost z = PosInf \<and> z_cost z' = NegInf \<and>
           finite_items [z] = None \<and> finite_items [z'] = None)"
  using infinite_cost_accepted [of "\<lparr>col_service = Some ''S3'', col_usage_type = None, col_resource_id = None,
             col_date = Some ''2024-01-01'', col_cost = None\<rparr>" "''S3''" "''2024-01-01''" "\<lambda>_. Some 0" 0 Aws]
  by simp

section \<open>Properties of the date model\<close>

text \<open>
  Printing a date in the \<open>YYYY-MM-DD\<close> form and reading it back with \<open>Date.parse\<close> gives
  the time value of midnight UTC of that day, whatever the host.
\<close>

theorem iso_date_format:
  assumes "0 \<le> y" "y \<le> 9999" "valid_date y m d"
  shows "iso_date (iso_format y m d) = Some (make_day y m d * 86400000)"
proof -
  have v: "1 \<le> m" "m \<le> 12" "1 \<le> d" "d \<le> 31"
    using assms(3) by (auto simp: valid_date_def days_in_month_def split: if_splits)
  have py: "digits_n 4 (pad_digits 4 (nat y)) = Some (nat y)" using assms by (intro digits_n_pad) simp_all
  have pm: "digits_n 2 (pad_digits 2 m) = Some m" using v by (intro digits_n_pad) simp_all
  have pd: "digits_n 2 (pad_digits 2 d) = Some d" using v by (intro digits_n_pad) simp_all
  have ly: "length (pad_digits 4 (nat y)) = 4" and lm: "length (pad_digits 2 m) = 2"
    and ld: "length (pad_digits 2 d) = 2"
    using py pm pd by (simp_all add: digits_n_def split: if_splits)
  show ?thesis
    using py pm pd ly lm ld assms
    by (simp add: iso_date_def iso_format_def Let_def nth_append)
qed

text \<open>Time values respect the calendar order of dates.\<close>

theorem make_day_mono:
  assumes v: "valid_date y m d" "valid_date y' m' d'"
    and lt: "y < y' \<or> y = y' \<and> (m < m' \<or> m = m' \<and> d < d')"
  shows "make_day y m d < make_day y' m' d'"
proof -
  have m: "1 \<le> m" "m \<le> 12" "1 \<le> d" "d \<le> days_in_month y m"
    and m': "1 \<le> m'" "m' \<le> 12" "1 \<le> d'" using v by (simp_all add: valid_date_def)
  have e: "make_day y m d = year_day y + int (month_sum y m) + int d - 1"
    and e': "make_day y' m' d' = year_day y' + int (month_sum y' m') + int d' - 1"
    using m m' by (simp_all add: make_day_ref)
  have b: "int (month_sum y m) + int d \<le> year_len y"
    using day_in_year [OF v(1)] month_sum_13 [of y] by linarith
  from lt show ?thesis
  proof (elim disjE conjE)
    assume "y < y'"
    moreover have "1 \<le> int d'" using m' by simp
    ultimately show ?thesis using e e' b year_day_mono [OF \<open>y < y'\<close>] by linarith
  next
    assume y: "y = y'" and "m < m'"
    then have "month_sum y m' = month_sum y m + sum_list (map (days_in_month y) [m..<m'])"
      using m by (intro month_sum_split) simp_all
    moreover have "[m..<m'] = m # [Suc m..<m']" using \<open>m < m'\<close> by (simp add: upt_rec)
    ultimately have "month_sum y m + d \<le> month_sum y' m'" using m y by simp
    then have "int (month_sum y m) + int d \<le> int (month_sum y' m')"
      by (simp only: of_nat_add [symmetric] of_nat_le_iff)
    moreover have "1 \<le> int d'" using m' by simp
    ultimately show ?thesis using e e' unfolding y by linarith
  next
    assume y: "y = y'" and mm: "m = m'" and "d < d'"
    then show ?thesis using e e' unfolding y mm by linarith
  qed
qed

end
