(* ===== verification/CsvParse.thy ===== *)
theory CsvParse
  imports Validation
begin

text \<open>
  The file side of \<open>loadCsv\<close> (\<open>src/packages/core/src/normalize.ts\<close>): the text that
  \<open>fs.readFileSync(path, "utf8")\<close> returns is split into record objects by
  \<open>parse(raw, { columns: true, skip_empty_lines: true, trim: true })\<close> of
  \<open>csv-parse/sync\<close>, and each object is read by property (\<open>r.service\<close>, ...). The parser
  is the character loop of \<open>csv-parse\<close> with the options as \<open>loadCsv\<close> sets them and the
  library's defaults for the others: delimiter \<open>,\<close>, quote and escape \<open>"\<close>, the record
  delimiter discovered at the first \<open>\r\n\<close>, \<open>\n\<close> or \<open>\r\<close> met outside quotes, left and
  right trimming (\<open>trim\<close>), the records of empty lines skipped (\<open>skip_empty_lines\<close>), the
  first record read as the column names (\<open>columns\<close>) and every later record of another
  length refused. The loop state is the parser's \<open>state\<close> object; a thrown \<open>CsvError\<close> is
  a value of \<open>csv_error\<close>. The synchronous API runs the loop on the whole text and then
  on its end, which is running it once to the end: the look-ahead the streaming loop
  waits for is then always there. Characters are the bytes of the text (ASCII).

  \<open>csv_print\<close> is a reference printer (every field quoted, quotes doubled), used to
  state the round trip: printed cost records load back as themselves.
\<close>

section \<open>The parser\<close>

datatype csv_error =
  InvalidOpeningQuote | InvalidClosingQuote | NonTrimableAfterQuote | QuoteNotClosed
  | InconsistentColumns

record csv_state =
  cs_rd :: "string option"
  cs_quoting :: bool
  cs_was_quoting :: bool
  cs_escaping :: bool
  cs_field :: string
  cs_record :: "string list"
  cs_columns :: "string list option"
  cs_out :: "(string \<times> string) list list"

definition csv_init :: csv_state where
  "csv_init =
     \<lparr>cs_rd = None, cs_quoting = False, cs_was_quoting = False, cs_escaping = False,
      cs_field = [], cs_record = [], cs_columns = None, cs_out = []\<rparr>"

text \<open>The characters \<open>trim\<close> removes (\<open>timchars\<close>): CR, LF, form feed, space, tab.\<close>

definition csv_trimable :: "char \<Rightarrow> bool" where
  "csv_trimable c \<longleftrightarrow> c \<in> set [CHR 0x0D, CHR 0x0A, CHR 0x0C, CHR 0x20, CHR 0x09]"

text \<open>\<open>__autoDiscoverRecordDelimiter\<close>: the first of \<open>\r\n\<close>, \<open>\n\<close>, \<open>\r\<close> the text starts with.\<close>

definition csv_discover :: "string \<Rightarrow> string option" where
  "csv_discover s =
     (if take 2 s = [CHR 0x0D, CHR 0x0A] then Some [CHR 0x0D, CHR 0x0A]
      else if take 1 s = [CHR 0x0A] then Some [CHR 0x0A]
      else if take 1 s = [CHR 0x0D] then Some [CHR 0x0D] else None)"

text \<open>\<open>__isRecordDelimiter\<close>: the length of the record delimiter the text starts with, or 0.\<close>

definition csv_rd_len :: "string option \<Rightarrow> string \<Rightarrow> nat" where
  "csv_rd_len rd s = (case rd of None \<Rightarrow> 0 | Some d \<Rightarrow> if take (length d) s = d then length d else 0)"

text \<open>\<open>String.prototype.trimEnd\<close>, which \<open>__onField\<close> applies to an unquoted field.\<close>

definition js_trim_end :: "string \<Rightarrow> string" where
  "js_trim_end s = rev (dropWhile js_ws (rev s))"

text \<open>\<open>obj[name] = value\<close> on a fresh object: a new key is added, a repeated one
  overwritten; assigning a string to \<open>__proto__\<close> is ignored by its setter.\<close>

definition js_obj_set :: "(string \<times> 'a) list \<Rightarrow> string \<Rightarrow> 'a \<Rightarrow> (string \<times> 'a) list" where
  "js_obj_set obj k v =
     (if k = ''__proto__'' then obj
      else if map_of obj k = None then obj @ [(k, v)]
      else map (\<lambda>(k', v'). if k' = k then (k', v) else (k', v')) obj)"

text \<open>The record object \<open>__onRecord\<close> builds from the column names and the fields.\<close>

definition csv_object :: "string list \<Rightarrow> string list \<Rightarrow> (string \<times> string) list" where
  "csv_object cols fs = foldl (\<lambda>obj (k, v). js_obj_set obj k v) [] (zip cols fs)"

text \<open>\<open>__onField\<close>: the field ends; an unquoted field is trimmed at its end.\<close>

definition csv_on_field :: "csv_state \<Rightarrow> csv_state" where
  "csv_on_field st =
     st\<lparr>cs_record := cs_record st @ [if cs_was_quoting st then cs_field st else js_trim_end (cs_field st)],
       cs_field := [], cs_was_quoting := False\<rparr>"

text \<open>
  \<open>__onRecord\<close>: the first record gives the columns (\<open>__firstLineToColumns\<close>); a later
  one of another length throws \<open>CSV_RECORD_INCONSISTENT_COLUMNS\<close>, otherwise its object
  is pushed.
\<close>

definition csv_on_record :: "csv_state \<Rightarrow> csv_error + csv_state" where
  "csv_on_record st =
     (case cs_columns st of
        None \<Rightarrow> Inr (st\<lparr>cs_columns := Some (cs_record st), cs_record := []\<rparr>)
      | Some cols \<Rightarrow>
          (if length (cs_record st) \<noteq> length cols then Inl InconsistentColumns
           else Inr (st\<lparr>cs_out := cs_out st @ [csv_object cols (cs_record st)], cs_record := []\<rparr>)))"

text \<open>
  The end of an iteration: the character joins the field unless it is left trimming
  (\<open>lappend\<close>) or follows a closing quote (\<open>rappend\<close>); after a closing quote only
  trimable characters may come.
\<close>

definition csv_append :: "csv_state \<Rightarrow> char \<Rightarrow> csv_error + csv_state" where
  "csv_append st c =
     (if (cs_quoting st \<or> cs_field st \<noteq> [] \<or> \<not> csv_trimable c) \<and> \<not> cs_was_quoting st
      then Inr (st\<lparr>cs_field := cs_field st @ [c]\<rparr>)
      else if \<not> csv_trimable c then Inl NonTrimableAfterQuote
      else Inr st)"

text \<open>
  One iteration of the loop of \<open>parse\<close> on the character \<open>c\<close> followed by \<open>rest\<close>:
  the new state and how many more characters it consumes (\<open>pos += ...\<close>).
\<close>

definition csv_char :: "csv_state \<Rightarrow> char \<Rightarrow> string \<Rightarrow> csv_error + csv_state \<times> nat" where
  "csv_char st0 c rest =
     (let st = (if \<not> cs_quoting st0 \<and> cs_rd st0 = None then st0\<lparr>cs_rd := csv_discover (c # rest)\<rparr> else st0);
          q = CHR 0x22
      in if cs_escaping st then map_sum id (\<lambda>s. (s, 0)) (csv_append (st\<lparr>cs_escaping := False\<rparr>) c)
         else if cs_quoting st \<and> c = q \<and> rest \<noteq> [] \<and> hd rest = q then Inr (st\<lparr>cs_escaping := True\<rparr>, 0)
         else if c = q then
           (if cs_quoting st then
              (let rd = (if cs_rd st = None then csv_discover rest else cs_rd st)
               in if rest = [] \<or> hd rest = CHR 0x00 \<or> hd rest = CHR 0x2C \<or> csv_rd_len rd rest \<noteq> 0
                     \<or> csv_trimable (hd rest)
                  then Inr (st\<lparr>cs_rd := rd, cs_quoting := False, cs_was_quoting := True\<rparr>, 0)
                  else Inl InvalidClosingQuote)
            else if cs_field st \<noteq> [] then Inl InvalidOpeningQuote
            else Inr (st\<lparr>cs_quoting := True\<rparr>, 0))
         else if \<not> cs_quoting st \<and> csv_rd_len (cs_rd st) (c # rest) \<noteq> 0 then
           (let n = csv_rd_len (cs_rd st) (c # rest) - 1
            in if \<not> cs_was_quoting st \<and> cs_record st = [] \<and> cs_field st = [] then Inr (st, n)
               else map_sum id (\<lambda>s. (s, n)) (csv_on_record (csv_on_field st)))
         else if \<not> cs_quoting st \<and> c = CHR 0x2C then Inr (csv_on_field st, 0)
         else map_sum id (\<lambda>s. (s, 0)) (csv_append st c))"

function csv_loop :: "csv_state \<Rightarrow> string \<Rightarrow> csv_error + csv_state" where
  "csv_loop st [] = Inr st"
| "csv_loop st (c # cs) =
     (case csv_char st c cs of Inl e \<Rightarrow> Inl e | Inr (st', n) \<Rightarrow> csv_loop st' (drop n cs))"
  by pat_completeness auto
termination by (relation "measure (\<lambda>(st, cs). length cs)") auto

text \<open>
  The end of the text: an open quote throws \<open>CSV_QUOTE_NOT_CLOSED\<close>; a last line with
  characters is a record.
\<close>

definition csv_finish :: "csv_state \<Rightarrow> csv_error + (string \<times> string) list list" where
  "csv_finish st =
     (if cs_quoting st then Inl QuoteNotClosed
      else if cs_was_quoting st \<or> cs_record st \<noteq> [] \<or> cs_field st \<noteq> []
      then map_sum id cs_out (csv_on_record (csv_on_field st))
      else Inr (cs_out st))"

definition csv_parse :: "string \<Rightarrow> csv_error + (string \<times> string) list list" where
  "csv_parse raw = (case csv_loop csv_init raw of Inl e \<Rightarrow> Inl e | Inr st \<Rightarrow> csv_finish st)"

section \<open>From the text to the cost items\<close>

text \<open>The properties \<open>loadCsv\<close> reads from a record object (a missing one is \<open>undefined\<close>).\<close>

definition csv_row_of :: "(string \<times> string) list \<Rightarrow> csv_row" where
  "csv_row_of r =
     \<lparr>col_service = map_of r ''service'', col_usage_type = map_of r ''usage_type'',
      col_resource_id = map_of r ''resource_id'', col_date = map_of r ''date'', col_cost = map_of r ''cost''\<rparr>"

datatype load_error = CsvError csv_error | ZodError "zod_issue list"

text \<open>\<open>loadCsv(path, cloud)\<close> once the file is read: parse, then validate every record.\<close>

definition load_csv :: "(string \<Rightarrow> int option) \<Rightarrow> string \<Rightarrow> cloud \<Rightarrow> load_error + zod_item list" where
  "load_csv dp raw c =
     (case csv_parse raw of
        Inl e \<Rightarrow> Inl (CsvError e)
      | Inr recs \<Rightarrow> (case load_rows dp c (map csv_row_of recs) of
                      Inl issues \<Rightarrow> Inl (ZodError issues)
                    | Inr items \<Rightarrow> Inr items))"

text \<open>The error codes of the thrown \<open>CsvError\<close>s.\<close>

fun csv_error_code :: "csv_error \<Rightarrow> string" where
  "csv_error_code InvalidOpeningQuote = ''INVALID_OPENING_QUOTE''"
| "csv_error_code InvalidClosingQuote = ''CSV_INVALID_CLOSING_QUOTE''"
| "csv_error_code NonTrimableAfterQuote = ''CSV_NON_TRIMABLE_CHAR_AFTER_CLOSING_QUOTE''"
| "csv_error_code QuoteNotClosed = ''CSV_QUOTE_NOT_CLOSED''"
| "csv_error_code InconsistentColumns = ''CSV_RECORD_INCONSISTENT_COLUMNS''"

section \<open>Reference printer\<close>

text \<open>A field in quotes, each quote doubled; a line of fields; a header and its records.\<close>

definition csv_esc :: "char \<Rightarrow> string" where
  "csv_esc c = (if c = CHR 0x22 then [CHR 0x22, CHR 0x22] else [c])"

definition csv_quote :: "string \<Rightarrow> string" where
  "csv_quote s = CHR 0x22 # concat (map csv_esc s) @ [CHR 0x22]"

fun csv_join :: "string list \<Rightarrow> string" where
  "csv_join [] = []"
| "csv_join [f] = csv_quote f"
| "csv_join (f # g # fs) = csv_quote f @ CHR 0x2C # csv_join (g # fs)"

definition csv_print :: "string list \<Rightarrow> string list list \<Rightarrow> string" where
  "csv_print hs rows = concat (map (\<lambda>fs. csv_join fs @ [CHR 0x0A]) (hs # rows))"

lemma csv_char_in_quotes:
  "cs_quoting st \<Longrightarrow> \<not> cs_escaping st \<Longrightarrow> \<not> cs_was_quoting st \<Longrightarrow> c \<noteq> CHR 0x22 \<Longrightarrow>
   csv_char st c rest = Inr (st\<lparr>cs_field := cs_field st @ [c]\<rparr>, 0)"
  by (simp add: csv_char_def csv_append_def)

lemma csv_char_escape:
  "cs_quoting st \<Longrightarrow> \<not> cs_escaping st \<Longrightarrow> csv_char st (CHR 0x22) (CHR 0x22 # rest) = Inr (st\<lparr>cs_escaping := True\<rparr>, 0)"
  by (simp add: csv_char_def)

lemma csv_char_escaped:
  "cs_quoting st \<Longrightarrow> cs_escaping st \<Longrightarrow> \<not> cs_was_quoting st \<Longrightarrow>
   csv_char st c rest = Inr (st\<lparr>cs_escaping := False, cs_field := cs_field st @ [c]\<rparr>, 0)"
  by (simp add: csv_char_def csv_append_def)


text \<open>Cost records as a spreadsheet would export them: the date as \<open>YYYY-MM-DD\<close>, the cost
  as \<open>String(k)\<close> of an integer, an empty resource id for none.\<close>

definition int_digits :: "int \<Rightarrow> string" where
  "int_digits k = (if k < 0 then CHR ''-'' # nat_digits (nat (- k)) else nat_digits (nat k))"

definition cost_header :: "string list" where
  "cost_header = [''service'', ''usage_type'', ''resource_id'', ''date'', ''cost'']"

type_synonym export_row = "string \<times> string \<times> string \<times> int \<times> nat \<times> nat \<times> int"

definition export_fields :: "export_row \<Rightarrow> string list" where
  "export_fields x = (case x of (s, u, r, y, m, d, k) \<Rightarrow> [s, u, r, iso_format y m d, int_digits k])"

definition export_item :: "cloud \<Rightarrow> export_row \<Rightarrow> zod_item" where
  "export_item c x = (case x of (s, u, r, y, m, d, k) \<Rightarrow>
     \<lparr>z_cloud = c, z_service = s, z_usage_type = u, z_resource_id = (if r = [] then None else Some r),
      z_date = make_day y m d * 86400000, z_cost = Fin (of_int k)\<rparr>)"

definition export_ok :: "export_row \<Rightarrow> bool" where
  "export_ok x = (case x of (s, u, r, y, m, d, k) \<Rightarrow> 0 \<le> y \<and> y \<le> 9999 \<and> valid_date y m d)"

text \<open>The loop state between two fields of a line, outside quotes.\<close>

definition csv_at_field :: "csv_state \<Rightarrow> bool" where
  "csv_at_field st \<longleftrightarrow> \<not> cs_quoting st \<and> \<not> cs_escaping st \<and> \<not> cs_was_quoting st \<and> cs_field st = [] \<and>
     (cs_rd st = None \<or> cs_rd st = Some [CHR 0x0A])"

section \<open>Abstract specification of quote-free text\<close>

text \<open>
  What the options promise for text without quotes and carriage returns: the lines
  that are not blank, each split at the commas, each field trimmed (\<open>trim\<close>: left of
  the trimable characters, right of JavaScript white space); the first line names the
  columns and every other line must have as many fields.
\<close>

text \<open>\<open>s.split(d)\<close>: the pieces between the occurrences of \<open>d\<close>.\<close>

fun split_on :: "char \<Rightarrow> string \<Rightarrow> string list" where
  "split_on d [] = [[]]"
| "split_on d (c # cs) = (if c = d then [] # split_on d cs else (let r = split_on d cs in (c # hd r) # tl r))"

definition plain_field :: "string \<Rightarrow> string" where
  "plain_field f = js_trim_end (dropWhile csv_trimable f)"

definition simple_fields :: "string \<Rightarrow> string list" where
  "simple_fields l = map plain_field (split_on (CHR 0x2C) l)"

definition simple_rows :: "string list \<Rightarrow> string list \<Rightarrow> csv_error + (string \<times> string) list list" where
  "simple_rows cols ls =
     (if list_all (\<lambda>r. length (simple_fields r) = length cols) ls
      then Inr (map (\<lambda>r. csv_object cols (simple_fields r)) ls) else Inl InconsistentColumns)"

definition simple_parse :: "string \<Rightarrow> csv_error + (string \<times> string) list list" where
  "simple_parse raw =
     (case filter (\<lambda>l. \<not> list_all csv_trimable l) (split_on (CHR 0x0A) raw) of
        [] \<Rightarrow> Inr []
      | h # rs \<Rightarrow> simple_rows (simple_fields h) rs)"

text \<open>The characters of such text: no quote, no carriage return.\<close>

definition csv_plain :: "char \<Rightarrow> bool" where
  "csv_plain c \<longleftrightarrow> c \<noteq> CHR 0x22 \<and> c \<noteq> CHR 0x0D"

text \<open>The characters of one unquoted field of such text: no comma and no line feed either.\<close>

definition csv_bare :: "char \<Rightarrow> bool" where
  "csv_bare c \<longleftrightarrow> csv_plain c \<and> c \<noteq> CHR 0x2C \<and> c \<noteq> CHR 0x0A"

text \<open>The loop state at the start of a line.\<close>

definition csv_line_start :: "csv_state \<Rightarrow> bool" where
  "csv_line_start st \<longleftrightarrow> \<not> cs_quoting st \<and> \<not> cs_escaping st \<and> \<not> cs_was_quoting st \<and> cs_field st = [] \<and>
     cs_record st = [] \<and> (cs_rd st = None \<or> cs_rd st = Some [CHR 0x0A])"

section \<open>Invariant of the record objects\<close>

text \<open>
  The invariant of the record objects: before the header no record is out; after it,
  every record object has each column name once as a key (\<open>__proto__\<close> excepted).
\<close>

definition csv_keys_inv :: "csv_state \<Rightarrow> bool" where
  "csv_keys_inv st \<longleftrightarrow>
     (case cs_columns st of
        None \<Rightarrow> cs_out st = []
      | Some cols \<Rightarrow> list_all (\<lambda>ob. distinct (map fst ob) \<and> fst ` set ob = set cols - {''__proto__''}) (cs_out st))"

section \<open>Lemmas\<close>

declare csv_loop.simps(2) [simp del]

lemmas csv_eval = csv_parse_def csv_init_def csv_loop.simps(2) csv_char_def Let_def csv_discover_def
  csv_rd_len_def csv_append_def csv_trimable_def csv_on_field_def csv_on_record_def js_trim_end_def js_ws_def
  csv_finish_def csv_object_def js_obj_set_def

lemma csv_escaping_False [simp]: "\<not> cs_escaping st \<Longrightarrow> st\<lparr>cs_escaping := False\<rparr> = st"
  by (cases st) simp

lemma csv_loop_step:
  "csv_char st c cs = Inr (st', n) \<Longrightarrow> csv_loop st (c # cs) = csv_loop st' (drop n cs)"
  by (simp add: csv_loop.simps(2))

lemma csv_char_close:
  "cs_quoting st \<Longrightarrow> \<not> cs_escaping st \<Longrightarrow> d = CHR 0x2C \<or> d = CHR 0x0A \<Longrightarrow>
   cs_rd st = None \<or> cs_rd st = Some [CHR 0x0A] \<Longrightarrow>
   csv_char st (CHR 0x22) (d # rest) =
     Inr (st\<lparr>cs_rd := (if d = CHR 0x0A then Some [CHR 0x0A] else cs_rd st), cs_quoting := False,
             cs_was_quoting := True\<rparr>, 0)"
  by (auto simp: csv_char_def Let_def csv_trimable_def csv_discover_def)

lemma csv_loop_quoted:
  assumes "cs_quoting st" "\<not> cs_escaping st" "\<not> cs_was_quoting st" "d = CHR 0x2C \<or> d = CHR 0x0A"
    "cs_rd st = None \<or> cs_rd st = Some [CHR 0x0A]"
  shows "csv_loop st (concat (map csv_esc s) @ CHR 0x22 # d # rest) =
         csv_loop (st\<lparr>cs_rd := (if d = CHR 0x0A then Some [CHR 0x0A] else cs_rd st), cs_quoting := False,
                      cs_was_quoting := True, cs_field := cs_field st @ s\<rparr>) (d # rest)"
  using assms
proof (induction s arbitrary: st)
  case Nil
  have "csv_char st (CHR 0x22) (d # rest) =
     Inr (st\<lparr>cs_rd := (if d = CHR 0x0A then Some [CHR 0x0A] else cs_rd st), cs_quoting := False,
             cs_was_quoting := True\<rparr>, 0)"
    using Nil.prems by (intro csv_char_close)
  then show ?case by (simp add: csv_loop_step)
next
  case (Cons c s)
  show ?case
  proof (cases "c = CHR 0x22")
    case True
    have "csv_loop st (concat (map csv_esc (c # s)) @ CHR 0x22 # d # rest) =
          csv_loop (st\<lparr>cs_field := cs_field st @ [c]\<rparr>) (concat (map csv_esc s) @ CHR 0x22 # d # rest)"
      using Cons.prems True
      by (simp add: csv_esc_def csv_loop_step [OF csv_char_escape] csv_loop_step [OF csv_char_escaped])
    then show ?thesis
      using Cons.prems Cons.IH [of "st\<lparr>cs_field := cs_field st @ [c]\<rparr>"] by simp
  next
    case False
    have "csv_loop st (concat (map csv_esc (c # s)) @ CHR 0x22 # d # rest) =
          csv_loop (st\<lparr>cs_field := cs_field st @ [c]\<rparr>) (concat (map csv_esc s) @ CHR 0x22 # d # rest)"
      using Cons.prems False by (simp add: csv_esc_def csv_loop_step [OF csv_char_in_quotes])
    then show ?thesis
      using Cons.prems Cons.IH [of "st\<lparr>cs_field := cs_field st @ [c]\<rparr>"] by simp
  qed
qed

lemma csv_char_open:
  "\<not> cs_quoting st \<Longrightarrow> \<not> cs_escaping st \<Longrightarrow> cs_field st = [] \<Longrightarrow>
   csv_char st (CHR 0x22) rest = Inr (st\<lparr>cs_quoting := True\<rparr>, 0)"
  by (cases st) (simp add: csv_char_def csv_discover_def Let_def)

lemma csv_loop_field:
  assumes "csv_at_field st" "d = CHR 0x2C \<or> d = CHR 0x0A"
  shows "csv_loop st (csv_quote s @ d # rest) =
         csv_loop (st\<lparr>cs_rd := (if d = CHR 0x0A then Some [CHR 0x0A] else cs_rd st), cs_was_quoting := True,
                      cs_field := s\<rparr>) (d # rest)"
proof -
  have o: "csv_char st (CHR 0x22) (concat (map csv_esc s) @ CHR 0x22 # d # rest) = Inr (st\<lparr>cs_quoting := True\<rparr>, 0)"
    using assms(1) by (intro csv_char_open) (simp_all add: csv_at_field_def)
  have q: "csv_loop (st\<lparr>cs_quoting := True\<rparr>) (concat (map csv_esc s) @ CHR 0x22 # d # rest) =
           csv_loop (st\<lparr>cs_quoting := True\<rparr>\<lparr>cs_rd := (if d = CHR 0x0A then Some [CHR 0x0A]
              else cs_rd (st\<lparr>cs_quoting := True\<rparr>)), cs_quoting := False, cs_was_quoting := True,
              cs_field := cs_field (st\<lparr>cs_quoting := True\<rparr>) @ s\<rparr>) (d # rest)"
    using assms by (intro csv_loop_quoted) (simp_all add: csv_at_field_def)
  show ?thesis
    using assms(1) csv_loop_step [OF o] q by (cases st) (simp add: csv_quote_def csv_at_field_def)
qed

lemma csv_char_comma:
  "csv_at_field st \<Longrightarrow>
   csv_char (st\<lparr>cs_was_quoting := True, cs_field := s\<rparr>) (CHR 0x2C) rest =
     Inr (st\<lparr>cs_record := cs_record st @ [s]\<rparr>, 0)"
  by (cases st) (auto simp: csv_char_def csv_discover_def csv_rd_len_def csv_on_field_def csv_at_field_def)

lemma csv_char_newline:
  "csv_at_field st \<Longrightarrow>
   csv_char (st\<lparr>cs_rd := Some [CHR 0x0A], cs_was_quoting := True, cs_field := s\<rparr>) (CHR 0x0A) rest =
     map_sum id (\<lambda>s. (s, 0)) (csv_on_record (st\<lparr>cs_rd := Some [CHR 0x0A], cs_record := cs_record st @ [s]\<rparr>))"
  by (cases st) (auto simp: csv_char_def csv_rd_len_def csv_on_field_def csv_at_field_def)

lemma csv_loop_line:
  "fs \<noteq> [] \<Longrightarrow> csv_at_field st \<Longrightarrow>
   csv_loop st (csv_join fs @ CHR 0x0A # rest) =
     (case csv_on_record (st\<lparr>cs_rd := Some [CHR 0x0A], cs_record := cs_record st @ fs\<rparr>) of
        Inl e \<Rightarrow> Inl e | Inr st' \<Rightarrow> csv_loop st' rest)"
proof (induction fs arbitrary: st rule: csv_join.induct)
  case 1
  then show ?case by simp
next
  case (2 f)
  then show ?case
    by (simp add: csv_loop_field csv_loop.simps(2) csv_char_newline split: sum.split)
next
  case (3 f g fs)
  have a: "csv_at_field (st\<lparr>cs_record := cs_record st @ [f]\<rparr>)"
    using "3.prems" by (simp add: csv_at_field_def)
  have "csv_loop st (csv_join (f # g # fs) @ CHR 0x0A # rest) =
        csv_loop (st\<lparr>cs_record := cs_record st @ [f]\<rparr>) (csv_join (g # fs) @ CHR 0x0A # rest)"
    using "3.prems" by (simp add: csv_loop_field csv_loop_step [OF csv_char_comma])
  then show ?case
    using "3.IH" [OF _ a] by simp
qed

lemma csv_loop_rows:
  assumes "csv_at_field st" "cs_columns st = Some hs" "cs_record st = []" "cs_rd st = Some [CHR 0x0A]"
    "list_all (\<lambda>r. r \<noteq> []) rows"
  shows "csv_loop st (concat (map (\<lambda>fs. csv_join fs @ [CHR 0x0A]) rows)) =
           (if list_all (\<lambda>r. length r = length hs) rows
            then Inr (st\<lparr>cs_out := cs_out st @ map (csv_object hs) rows\<rparr>) else Inl InconsistentColumns)"
  using assms
proof (induction rows arbitrary: st)
  case Nil
  then show ?case by simp
next
  case (Cons r rows)
  define st' where "st' = st\<lparr>cs_out := cs_out st @ [csv_object hs r], cs_record := []\<rparr>"
  have st: "st\<lparr>cs_rd := Some [CHR 0x0A], cs_record := r\<rparr> = st\<lparr>cs_record := r\<rparr>"
    using Cons.prems(4) by (cases st) simp
  have line: "csv_loop st (concat (map (\<lambda>fs. csv_join fs @ [CHR 0x0A]) (r # rows))) =
          (if length r \<noteq> length hs then Inl InconsistentColumns
           else csv_loop st' (concat (map (\<lambda>fs. csv_join fs @ [CHR 0x0A]) rows)))"
    using Cons.prems csv_loop_line [of r st]
    by (simp add: csv_on_record_def st st'_def)
  have "csv_at_field st'" "cs_columns st' = Some hs" "cs_record st' = []" "cs_rd st' = Some [CHR 0x0A]"
    using Cons.prems by (simp_all add: st'_def csv_at_field_def)
  then show ?case
    using line Cons.IH [of st'] Cons.prems(3,5) by (cases st) (simp add: st'_def)
qed

lemma csv_parse_print:
  assumes "hs \<noteq> []" "list_all (\<lambda>r. r \<noteq> []) rows"
  shows "csv_parse (csv_print hs rows) =
           (if list_all (\<lambda>r. length r = length hs) rows
            then Inr (map (csv_object hs) rows) else Inl InconsistentColumns)"
proof -
  define st where "st = csv_init\<lparr>cs_rd := Some [CHR 0x0A], cs_columns := Some hs\<rparr>"
  have h: "csv_loop csv_init (csv_print hs rows) = csv_loop st (concat (map (\<lambda>fs. csv_join fs @ [CHR 0x0A]) rows))"
    using csv_loop_line [of hs csv_init] assms(1)
    by (simp add: csv_print_def csv_at_field_def csv_init_def csv_on_record_def st_def)
  have "csv_at_field st" "cs_columns st = Some hs" "cs_record st = []" "cs_rd st = Some [CHR 0x0A]"
    by (simp_all add: st_def csv_at_field_def csv_init_def)
  then show ?thesis
    using csv_loop_rows [of st hs rows] assms(2) h
    by (simp add: csv_parse_def csv_finish_def st_def csv_init_def)
qed

lemma foldl_obj_set_fresh:
  "distinct hs \<Longrightarrow> ''__proto__'' \<notin> set hs \<Longrightarrow> (\<forall>h \<in> set hs. map_of acc h = None) \<Longrightarrow>
   foldl (\<lambda>obj (k, v). js_obj_set obj k v) acc (zip hs fs) = acc @ zip hs fs"
proof (induction hs arbitrary: fs acc)
  case Nil
  then show ?case by simp
next
  case (Cons h hs)
  show ?case
  proof (cases fs)
    case Nil
    then show ?thesis by simp
  next
    case (Cons a fs')
    have "\<forall>h' \<in> set hs. map_of (acc @ [(h, a)]) h' = None"
      using Cons.prems by auto
    then show ?thesis
      using Cons Cons.IH [of "acc @ [(h, a)]" fs'] Cons.prems by (auto simp: js_obj_set_def)
  qed
qed

lemma csv_object_zip: "distinct hs \<Longrightarrow> ''__proto__'' \<notin> set hs \<Longrightarrow> csv_object hs fs = zip hs fs"
  using foldl_obj_set_fresh [of hs "[]" fs] by (simp add: csv_object_def)

lemma load_rows_map:
  "(\<And>x. x \<in> set xs \<Longrightarrow> cost_item_parse dp (load_row c (g x)) = Inr (h x)) \<Longrightarrow>
   load_rows dp c (map g xs) = Inr (map h xs)"
  by (induction xs) auto

lemma parse_float_neg_nat_digits: "parse_float (CHR ''-'' # nat_digits n) = Fin (- real n)"
proof -
  obtain c cs where e: "nat_digits n = c # cs" and d: "is_digit c" using nat_digits_hd by blast
  have nm: "take 8 (nat_digits n) \<noteq> ''Infinity''"
    using d e by (auto simp: is_digit_def)
  have dv: "digits_value (c # cs) = n" using e digits_value_nat_digits [of n] by simp
  have d0: "digits_value [] = 0" by (simp add: digits_value_def)
  show ?thesis
    using e nm dv d0 takeWhile_nat_digits [of n] dropWhile_nat_digits [of n]
    by (simp add: parse_float_def Let_def exponent_of_def scale10_def)
qed

lemma int_digits_value: "strip_ws (int_digits k) = int_digits k \<and> parse_float (int_digits k) = Fin (of_int k)"
proof (cases "k < 0")
  case True
  have "strip_ws (CHR ''-'' # nat_digits (nat (- k))) = CHR ''-'' # nat_digits (nat (- k))"
    using strip_ws_nat_digits by (simp add: strip_ws_def js_ws_def)
  then show ?thesis using True parse_float_neg_nat_digits [of "nat (- k)"] by (simp add: int_digits_def)
next
  case False
  then show ?thesis using strip_ws_nat_digits parse_float_nat_digits [of "nat k"] by (simp add: int_digits_def)
qed

lemma export_row_loads:
  "export_ok x \<Longrightarrow>
   cost_item_parse (js_date_parse fb) (load_row c (csv_row_of (csv_object cost_header (export_fields x)))) =
     Inr (export_item c x)"
proof (cases x)
  case (fields s u r y m d k)
  assume ok: "export_ok x"
  have dt: "js_date_parse fb (iso_format y m d) = Some (make_day y m d * 86400000)"
    using ok fields by (intro js_date_parse_iso iso_date_format) (simp_all add: export_ok_def)
  show ?thesis
    using fields dt int_digits_value [of k]
    by (simp add: csv_object_zip cost_header_def export_fields_def export_item_def csv_row_of_def
        load_row_def cost_item_parse_def js_string_opt_def)
qed

lemma split_on_ne [simp]: "split_on d s \<noteq> []"
  by (induction s) (auto simp: Let_def)

lemma csv_char_plain:
  assumes "\<not> cs_quoting st" "\<not> cs_escaping st" "\<not> cs_was_quoting st" "cs_rd st = None \<or> cs_rd st = Some [CHR 0x0A]"
    "csv_plain c" "c \<noteq> CHR 0x2C" "c \<noteq> CHR 0x0A"
  shows "csv_char st c rest =
           Inr (st\<lparr>cs_field := (if cs_field st = [] \<and> csv_trimable c then [] else cs_field st @ [c])\<rparr>, 0)"
  using assms by (cases st) (auto simp: csv_char_def Let_def csv_discover_def csv_rd_len_def csv_append_def csv_plain_def)

lemma split_on_no: "d \<notin> set f \<Longrightarrow> split_on d f = [f]"
  by (induction f) auto

lemma split_on_app: "d \<notin> set f \<Longrightarrow> split_on d (f @ d # l) = f # split_on d l"
  by (induction f) auto

lemma csv_loop_plain_chars:
  assumes "\<not> cs_quoting st" "\<not> cs_escaping st" "\<not> cs_was_quoting st" "cs_rd st = None \<or> cs_rd st = Some [CHR 0x0A]"
    "list_all (\<lambda>c. csv_plain c \<and> c \<noteq> CHR 0x2C \<and> c \<noteq> CHR 0x0A) cs"
  shows "csv_loop st (cs @ rest) =
           csv_loop (st\<lparr>cs_field := (if cs_field st = [] then dropWhile csv_trimable cs else cs_field st @ cs)\<rparr>) rest"
  using assms
proof (induction cs arbitrary: st)
  case Nil
  then show ?case by (cases st) auto
next
  case (Cons c cs)
  let ?st = "st\<lparr>cs_field := (if cs_field st = [] \<and> csv_trimable c then [] else cs_field st @ [c])\<rparr>"
  have "csv_loop st ((c # cs) @ rest) = csv_loop ?st (cs @ rest)"
    using Cons.prems by (simp add: csv_loop_step [OF csv_char_plain])
  also have "\<dots> = csv_loop (?st\<lparr>cs_field := (if cs_field ?st = [] then dropWhile csv_trimable cs else cs_field ?st @ cs)\<rparr>) rest"
    using Cons.prems by (intro Cons.IH) simp_all
  finally show ?case by (cases st) auto
qed

lemma csv_char_comma_plain:
  "\<not> cs_quoting st \<Longrightarrow> \<not> cs_escaping st \<Longrightarrow> cs_rd st = None \<or> cs_rd st = Some [CHR 0x0A] \<Longrightarrow>
   csv_char st (CHR 0x2C) rest = Inr (csv_on_field st, 0)"
  by (cases st) (auto simp: csv_char_def Let_def csv_discover_def csv_rd_len_def)

lemma csv_loop_fields:
  assumes "\<not> cs_quoting st" "\<not> cs_escaping st" "\<not> cs_was_quoting st" "cs_field st = []"
    "cs_rd st = None \<or> cs_rd st = Some [CHR 0x0A]" "list_all (\<lambda>c. csv_plain c \<and> c \<noteq> CHR 0x0A) l"
  shows "csv_loop st (l @ rest) =
           csv_loop (st\<lparr>cs_record := cs_record st @ map plain_field (butlast (split_on (CHR 0x2C) l)),
                        cs_field := dropWhile csv_trimable (last (split_on (CHR 0x2C) l))\<rparr>) rest"
  using assms
proof (induction "length l" arbitrary: l st rule: less_induct)
  case less
  show ?case
  proof (cases "CHR 0x2C \<in> set l")
    case False
    have "list_all (\<lambda>c. csv_plain c \<and> c \<noteq> CHR 0x2C \<and> c \<noteq> CHR 0x0A) l"
      using False less.prems(6) by (auto simp: list_all_iff)
    then show ?thesis
      using less.prems False csv_loop_plain_chars [of st l rest] by (cases st) (simp add: split_on_no)
  next
    case True
    then obtain f l' where l: "l = f @ CHR 0x2C # l'" and f: "CHR 0x2C \<notin> set f"
      by (auto dest: split_list_first)
    let ?st = "csv_on_field (st\<lparr>cs_field := dropWhile csv_trimable f\<rparr>)"
    have "list_all (\<lambda>c. csv_plain c \<and> c \<noteq> CHR 0x2C \<and> c \<noteq> CHR 0x0A) f"
      using f less.prems(6) by (auto simp: l list_all_iff)
    then have "csv_loop st (l @ rest) = csv_loop (st\<lparr>cs_field := dropWhile csv_trimable f\<rparr>) (CHR 0x2C # l' @ rest)"
      using less.prems csv_loop_plain_chars [of st f "CHR 0x2C # l' @ rest"] by (simp add: l)
    also have "\<dots> = csv_loop ?st (l' @ rest)"
      using less.prems by (simp add: csv_loop_step [OF csv_char_comma_plain])
    also have "\<dots> = csv_loop (?st\<lparr>cs_record := cs_record ?st @ map plain_field (butlast (split_on (CHR 0x2C) l')),
                        cs_field := dropWhile csv_trimable (last (split_on (CHR 0x2C) l'))\<rparr>) rest"
      using less.prems by (intro less.hyps) (auto simp: l csv_on_field_def)
    finally show ?thesis
      using less.prems f by (cases st) (simp add: l split_on_app csv_on_field_def plain_field_def)
  qed
qed

lemma csv_char_lf:
  "\<not> cs_quoting st \<Longrightarrow> \<not> cs_escaping st \<Longrightarrow> \<not> cs_was_quoting st \<Longrightarrow>
   cs_rd st = None \<or> cs_rd st = Some [CHR 0x0A] \<Longrightarrow>
   csv_char st (CHR 0x0A) rest =
     (if cs_record st = [] \<and> cs_field st = [] then Inr (st\<lparr>cs_rd := Some [CHR 0x0A]\<rparr>, 0)
      else map_sum id (\<lambda>s. (s, 0)) (csv_on_record (csv_on_field (st\<lparr>cs_rd := Some [CHR 0x0A]\<rparr>))))"
  by (cases st) (auto simp: csv_char_def Let_def csv_discover_def csv_rd_len_def)

lemma split_on_blank:
  "list_all (\<lambda>c. c \<noteq> CHR 0x0A) l \<Longrightarrow>
   (butlast (split_on (CHR 0x2C) l) = [] \<and> dropWhile csv_trimable (last (split_on (CHR 0x2C) l)) = []) \<longleftrightarrow>
   list_all csv_trimable l"
proof (cases "CHR 0x2C \<in> set l")
  case True
  then obtain f l' where "l = f @ CHR 0x2C # l'" "CHR 0x2C \<notin> set f" by (auto dest: split_list_first)
  then show ?thesis by (auto simp: split_on_app csv_trimable_def list_all_iff)
next
  case False
  then show ?thesis by (simp add: split_on_no list_all_iff)
qed

lemma map_butlast_last: "xs \<noteq> [] \<Longrightarrow> map f (butlast xs) @ [f (last xs)] = map f xs"
  by (metis append_butlast_last_id map_append list.simps(8,9))

lemma csv_line_after:
  assumes "csv_line_start st" "list_all (\<lambda>c. csv_plain c \<and> c \<noteq> CHR 0x0A) l"
  defines "st' \<equiv> st\<lparr>cs_record := map plain_field (butlast (split_on (CHR 0x2C) l)),
                     cs_field := dropWhile csv_trimable (last (split_on (CHR 0x2C) l))\<rparr>"
  shows "csv_loop st (l @ rest) = csv_loop st' rest"
    and "cs_record st' = [] \<and> cs_field st' = [] \<longleftrightarrow> list_all csv_trimable l"
    and "csv_on_field st' = st\<lparr>cs_record := simple_fields l\<rparr>"
proof -
  show "csv_loop st (l @ rest) = csv_loop st' rest"
    using assms csv_loop_fields [of st l rest] by (simp add: csv_line_start_def)
  show "cs_record st' = [] \<and> cs_field st' = [] \<longleftrightarrow> list_all csv_trimable l"
    using assms split_on_blank [of l] by (simp add: list_all_iff)
  show "csv_on_field st' = st\<lparr>cs_record := simple_fields l\<rparr>"
    using assms(1) map_butlast_last [of "split_on (CHR 0x2C) l" plain_field]
    by (cases st) (simp add: st'_def csv_on_field_def simple_fields_def plain_field_def csv_line_start_def)
qed

lemma simple_rows_Cons:
  "simple_rows cols (l # ls) =
     (if length (simple_fields l) = length cols
      then map_sum id (\<lambda>os. csv_object cols (simple_fields l) # os) (simple_rows cols ls)
      else Inl InconsistentColumns)"
  by (simp add: simple_rows_def)

lemma csv_on_field_rd: "csv_on_field (st\<lparr>cs_rd := x\<rparr>) = (csv_on_field st)\<lparr>cs_rd := x\<rparr>"
  by (simp add: csv_on_field_def)

text \<open>One line and its line feed, from the start of a line.\<close>

lemma case_map_sum_step:
  "(case map_sum id (\<lambda>s. (s, 0)) x of Inl e \<Rightarrow> Inl e | Inr (s, n) \<Rightarrow> csv_loop s (drop n rest)) =
   (case x of Inl e \<Rightarrow> Inl e | Inr s \<Rightarrow> csv_loop s rest)"
  by (cases x) simp_all

lemma csv_plain_line_lf:
  assumes "csv_line_start st" "list_all (\<lambda>c. csv_plain c \<and> c \<noteq> CHR 0x0A) l"
  shows "csv_loop st (l @ CHR 0x0A # rest) =
           (if list_all csv_trimable l then csv_loop (st\<lparr>cs_rd := Some [CHR 0x0A]\<rparr>) rest
            else (case csv_on_record (st\<lparr>cs_record := simple_fields l, cs_rd := Some [CHR 0x0A]\<rparr>) of
                    Inl e \<Rightarrow> Inl e | Inr st' \<Rightarrow> csv_loop st' rest))"
proof -
  define st' where "st' = st\<lparr>cs_record := map plain_field (butlast (split_on (CHR 0x2C) l)),
                     cs_field := dropWhile csv_trimable (last (split_on (CHR 0x2C) l))\<rparr>"
  note a = csv_line_after [OF assms, folded st'_def]
  have c: "csv_char st' (CHR 0x0A) rest =
     (if cs_record st' = [] \<and> cs_field st' = [] then Inr (st'\<lparr>cs_rd := Some [CHR 0x0A]\<rparr>, 0)
      else map_sum id (\<lambda>s. (s, 0)) (csv_on_record (csv_on_field (st'\<lparr>cs_rd := Some [CHR 0x0A]\<rparr>))))"
    using assms(1) by (intro csv_char_lf) (simp_all add: st'_def csv_line_start_def)
  have l: "csv_loop st (l @ CHR 0x0A # rest) =
             (case csv_char st' (CHR 0x0A) rest of Inl e \<Rightarrow> Inl e | Inr (s, n) \<Rightarrow> csv_loop s (drop n rest))"
    using a(1) [of "CHR 0x0A # rest"] by (simp add: csv_loop.simps(2))
  show ?thesis
  proof (cases "list_all csv_trimable l")
    case True
    have "st'\<lparr>cs_rd := Some [CHR 0x0A]\<rparr> = st\<lparr>cs_rd := Some [CHR 0x0A]\<rparr>"
      using a(2) True assms(1) by (cases st) (simp add: st'_def csv_line_start_def)
    then show ?thesis using l c a(2) True by simp
  next
    case False
    then show ?thesis using l c a(2) a(3) by (simp add: csv_on_field_rd case_map_sum_step)
  qed
qed

text \<open>The last line, without a line feed, and the end of the text.\<close>

lemma csv_plain_line_end:
  assumes "csv_line_start st" "list_all (\<lambda>c. csv_plain c \<and> c \<noteq> CHR 0x0A) l"
  shows "(case csv_loop st l of Inl e \<Rightarrow> Inl e | Inr st' \<Rightarrow> csv_finish st') =
           (if list_all csv_trimable l then Inr (cs_out st)
            else map_sum id cs_out (csv_on_record (st\<lparr>cs_record := simple_fields l\<rparr>)))"
proof -
  define st' where "st' = st\<lparr>cs_record := map plain_field (butlast (split_on (CHR 0x2C) l)),
                     cs_field := dropWhile csv_trimable (last (split_on (CHR 0x2C) l))\<rparr>"
  note a = csv_line_after [OF assms, folded st'_def]
  have q: "\<not> cs_quoting st'" "\<not> cs_was_quoting st'" "cs_out st' = cs_out st"
    using assms(1) by (simp_all add: st'_def csv_line_start_def)
  show ?thesis
    using a(1) [of "[]"] a(2) a(3) q by (auto simp: csv_finish_def)
qed

lemma map_sum_append:
  "map_sum id (\<lambda>os. xs @ os) (map_sum id (\<lambda>os. y # os) r) = map_sum id (\<lambda>os. (xs @ [y]) @ os) r"
  by (cases r) simp_all

lemma csv_plain_split:
  assumes "CHR 0x0A \<in> set raw" "list_all csv_plain raw"
  obtains l raw' where "raw = l @ CHR 0x0A # raw'" "list_all (\<lambda>c. csv_plain c \<and> c \<noteq> CHR 0x0A) l"
    "list_all csv_plain raw'" "split_on (CHR 0x0A) raw = l # split_on (CHR 0x0A) raw'"
proof -
  obtain l raw' where r: "raw = l @ CHR 0x0A # raw'" and l: "CHR 0x0A \<notin> set l"
    using assms(1) by (auto dest: split_list_first)
  show ?thesis
    using that [OF r] assms(2) l by (auto simp: r list_all_iff split_on_app)
qed

lemma csv_plain_no_lf:
  "CHR 0x0A \<notin> set raw \<Longrightarrow> list_all csv_plain raw \<Longrightarrow> list_all (\<lambda>c. csv_plain c \<and> c \<noteq> CHR 0x0A) raw"
  by (auto simp: list_all_iff)

lemma csv_plain_rows:
  assumes "csv_line_start st" "cs_columns st = Some cols" "list_all csv_plain raw"
  shows "(case csv_loop st raw of Inl e \<Rightarrow> Inl e | Inr st' \<Rightarrow> csv_finish st') =
         map_sum id (\<lambda>os. cs_out st @ os) (simple_rows cols (filter (\<lambda>l. \<not> list_all csv_trimable l) (split_on (CHR 0x0A) raw)))"
  using assms
proof (induction "length raw" arbitrary: raw st rule: less_induct)
  case less
  show ?case
  proof (cases "CHR 0x0A \<in> set raw")
    case False
    show ?thesis
      using csv_plain_line_end [OF less.prems(1) csv_plain_no_lf [OF False less.prems(3)]] less.prems(2) False
      by (simp add: split_on_no simple_rows_def csv_on_record_def)
  next
    case True
    then obtain l raw' where r: "raw = l @ CHR 0x0A # raw'" and l: "list_all (\<lambda>c. csv_plain c \<and> c \<noteq> CHR 0x0A) l"
      and p: "list_all csv_plain raw'" and sp: "split_on (CHR 0x0A) raw = l # split_on (CHR 0x0A) raw'"
      using less.prems(3) by (rule csv_plain_split)
    have sp': "split_on (CHR 0x0A) (l @ CHR 0x0A # raw') = l # split_on (CHR 0x0A) raw'"
      using sp r by simp
    have IH: "(case csv_loop st' raw' of Inl e \<Rightarrow> Inl e | Inr st'' \<Rightarrow> csv_finish st'') =
         map_sum id (\<lambda>os. cs_out st' @ os) (simple_rows cols (filter (\<lambda>l. \<not> list_all csv_trimable l) (split_on (CHR 0x0A) raw')))"
      if "csv_line_start st'" "cs_columns st' = Some cols" for st'
      using less.hyps [of raw' st'] that p r by simp
    show ?thesis
    proof (cases "list_all csv_trimable l")
      case True
      then show ?thesis
        using csv_plain_line_lf [OF less.prems(1) l, of raw'] IH [of "st\<lparr>cs_rd := Some [CHR 0x0A]\<rparr>"] less.prems(1,2)
        by (simp add: r sp' csv_line_start_def)
    next
      case False
      define st2 where "st2 = st\<lparr>cs_rd := Some [CHR 0x0A],
                              cs_out := cs_out st @ [csv_object cols (simple_fields l)], cs_record := []\<rparr>"
      have "csv_line_start st2" "cs_columns st2 = Some cols"
        using less.prems(1,2) by (simp_all add: st2_def csv_line_start_def)
      note IH2 = IH [OF this]
      show ?thesis
        using csv_plain_line_lf [OF less.prems(1) l, of raw'] IH2 False less.prems(2)
        by (simp add: r sp' csv_on_record_def simple_rows_Cons map_sum_append st2_def)
    qed
  qed
qed

lemma map_sum_id_id [simp]: "map_sum id (\<lambda>os. os) r = r"
  by (cases r) simp_all

lemma csv_plain_header:
  assumes "csv_line_start st" "cs_columns st = None" "cs_out st = []" "list_all csv_plain raw"
  shows "(case csv_loop st raw of Inl e \<Rightarrow> Inl e | Inr st' \<Rightarrow> csv_finish st') = simple_parse raw"
  using assms
proof (induction "length raw" arbitrary: raw st rule: less_induct)
  case less
  show ?case
  proof (cases "CHR 0x0A \<in> set raw")
    case False
    show ?thesis
      using csv_plain_line_end [OF less.prems(1) csv_plain_no_lf [OF False less.prems(4)]] less.prems(2,3) False
      by (simp add: split_on_no simple_parse_def simple_rows_def csv_on_record_def)
  next
    case True
    then obtain l raw' where r: "raw = l @ CHR 0x0A # raw'" and l: "list_all (\<lambda>c. csv_plain c \<and> c \<noteq> CHR 0x0A) l"
      and p: "list_all csv_plain raw'" and sp: "split_on (CHR 0x0A) raw = l # split_on (CHR 0x0A) raw'"
      using less.prems(4) by (rule csv_plain_split)
    have sp': "split_on (CHR 0x0A) (l @ CHR 0x0A # raw') = l # split_on (CHR 0x0A) raw'"
      using sp r by simp
    show ?thesis
    proof (cases "list_all csv_trimable l")
      case True
      have "csv_line_start (st\<lparr>cs_rd := Some [CHR 0x0A]\<rparr>)"
        using less.prems(1) by (simp add: csv_line_start_def)
      then show ?thesis
        using csv_plain_line_lf [OF less.prems(1) l, of raw'] less.hyps [of raw' "st\<lparr>cs_rd := Some [CHR 0x0A]\<rparr>"]
          less.prems(2,3) True p
        by (simp add: r sp' simple_parse_def)
    next
      case False
      define st3 where "st3 = st\<lparr>cs_rd := Some [CHR 0x0A], cs_columns := Some (simple_fields l), cs_record := []\<rparr>"
      have "csv_line_start st3" "cs_columns st3 = Some (simple_fields l)"
        using less.prems(1) by (simp_all add: st3_def csv_line_start_def)
      note rows = csv_plain_rows [OF this p]
      show ?thesis
        using csv_plain_line_lf [OF less.prems(1) l, of raw'] rows False less.prems(2,3)
        by (simp add: r sp' csv_on_record_def simple_parse_def st3_def)
    qed
  qed
qed

lemma js_obj_set_keys:
  "map fst (js_obj_set obj k v) =
     (if k = ''__proto__'' \<or> k \<in> fst ` set obj then map fst obj else map fst obj @ [k])"
proof -
  have "map fst (map (\<lambda>(k', v'). if k' = k then (k', v) else (k', v')) obj) = map fst obj"
    by (induction obj) auto
  then show ?thesis by (auto simp: js_obj_set_def map_of_eq_None_iff)
qed

lemma foldl_obj_set_keys:
  "length fs = length cols \<Longrightarrow> distinct (map fst acc) \<Longrightarrow> ''__proto__'' \<notin> fst ` set acc \<Longrightarrow>
   distinct (map fst (foldl (\<lambda>obj (k, v). js_obj_set obj k v) acc (zip cols fs))) \<and>
   fst ` set (foldl (\<lambda>obj (k, v). js_obj_set obj k v) acc (zip cols fs)) = fst ` set acc \<union> (set cols - {''__proto__''})"
proof (induction cols arbitrary: fs acc)
  case Nil
  then show ?case by simp
next
  case (Cons k cols)
  then obtain v fs' where fs: "fs = v # fs'" and l: "length fs' = length cols" by (cases fs) auto
  have d: "distinct (map fst (js_obj_set acc k v)) \<and> set (map fst (js_obj_set acc k v)) = fst ` set acc \<union> ({k} - {''__proto__''})"
    using Cons.prems(2,3) by (cases "k = ''__proto__'' \<or> k \<in> fst ` set acc") (auto simp: js_obj_set_keys intro: rev_image_eqI)
  have k: "distinct (map fst (js_obj_set acc k v))" "''__proto__'' \<notin> fst ` set (js_obj_set acc k v)"
    "fst ` set (js_obj_set acc k v) = fst ` set acc \<union> ({k} - {''__proto__''})"
    using d Cons.prems(3) by (simp_all only: set_map) blast+
  show ?case
    using Cons.IH [OF l k(1,2)] k(3) by (auto simp: fs)
qed

lemma csv_object_keys:
  "length fs = length cols \<Longrightarrow>
   distinct (map fst (csv_object cols fs)) \<and> fst ` set (csv_object cols fs) = set cols - {''__proto__''}"
  using foldl_obj_set_keys [of fs cols "[]"] by (simp add: csv_object_def)

lemma csv_on_record_inv: "csv_keys_inv st \<Longrightarrow> csv_on_record st = Inr st' \<Longrightarrow> csv_keys_inv st'"
  by (auto simp: csv_on_record_def csv_keys_inv_def csv_object_keys split: option.splits if_splits)

lemma csv_keys_inv_frame:
  "cs_columns s = cs_columns st \<Longrightarrow> cs_out s = cs_out st \<Longrightarrow> csv_keys_inv s = csv_keys_inv st"
  unfolding csv_keys_inv_def by (simp split: option.split)

lemma csv_on_record_inv_frame:
  "csv_on_record s = Inr st' \<Longrightarrow> csv_keys_inv st \<Longrightarrow> cs_columns s = cs_columns st \<Longrightarrow> cs_out s = cs_out st \<Longrightarrow>
   csv_keys_inv st'"
  using csv_on_record_inv csv_keys_inv_frame by blast

lemma map_sum_eq_Inr: "map_sum f g x = Inr y \<longleftrightarrow> (\<exists>z. x = Inr z \<and> y = g z)"
  by (cases x) auto

lemma csv_char_inv:
  assumes "csv_char st c rest = Inr (st', n)" "csv_keys_inv st"
  shows "csv_keys_inv st'"
proof -
  define st1 where "st1 = (if \<not> cs_quoting st \<and> cs_rd st = None then st\<lparr>cs_rd := csv_discover (c # rest)\<rparr> else st)"
  have f: "cs_columns st1 = cs_columns st" "cs_out st1 = cs_out st" by (simp_all add: st1_def)
  have a: "csv_append s c = Inr st' \<Longrightarrow> cs_columns st' = cs_columns s \<and> cs_out st' = cs_out s" for s
    by (auto simp: csv_append_def split: if_splits)
  have r: "csv_on_record (csv_on_field s) = Inr st' \<Longrightarrow> cs_columns s = cs_columns st \<Longrightarrow> cs_out s = cs_out st \<Longrightarrow>
      csv_keys_inv st'" for s
    using csv_on_record_inv_frame [of "csv_on_field s" st' st] assms(2) by (simp add: csv_on_field_def)
  from assms(1) have "(cs_columns st' = cs_columns st1 \<and> cs_out st' = cs_out st1) \<or> csv_on_record (csv_on_field st1) = Inr st'"
    unfolding csv_char_def Let_def st1_def [symmetric]
    by (auto simp: map_sum_eq_Inr csv_on_field_def dest: a split: if_splits)
  then show ?thesis
    using f r [of st1] csv_keys_inv_frame [of st' st] assms(2) by auto
qed

lemma csv_loop_inv: "csv_keys_inv st \<Longrightarrow> csv_loop st raw = Inr st' \<Longrightarrow> csv_keys_inv st'"
proof (induction st raw rule: csv_loop.induct)
  case (1 st)
  then show ?case by simp
next
  case (2 st c cs)
  then show ?case
    by (auto simp: csv_loop.simps(2) split: sum.splits dest: csv_char_inv)
qed

lemma csv_keys_inv_out:
  "csv_keys_inv st \<Longrightarrow>
   \<exists>cols. list_all (\<lambda>ob. distinct (map fst ob) \<and> fst ` set ob = set cols - {''__proto__''}) (cs_out st)"
  by (auto simp: csv_keys_inv_def split: option.splits)

lemma nat_digits_bare: "list_all csv_bare (nat_digits n)"
  using nat_digits_digit [of _ n]
  by (fastforce simp: list_all_iff csv_bare_def csv_plain_def is_digit_def)

lemma parse_float_nat_digits_comma: "parse_float (nat_digits n @ CHR 0x2C # rest) = Fin (real n)"
proof -
  obtain c cs where e: "nat_digits n = c # cs" and d: "is_digit c" using nat_digits_hd by blast
  have nm: "c \<noteq> CHR ''-''" "c \<noteq> CHR ''+''" "take 8 (nat_digits n @ CHR 0x2C # rest) \<noteq> ''Infinity''"
    using d e by (auto simp: is_digit_def)
  have dv: "digits_value (c # cs) = n" using e digits_value_nat_digits [of n] by simp
  have d0: "digits_value [] = 0" by (simp add: digits_value_def)
  have tw: "takeWhile is_digit (nat_digits n @ CHR 0x2C # rest) = nat_digits n"
    and dw: "dropWhile is_digit (nat_digits n @ CHR 0x2C # rest) = CHR 0x2C # rest"
    using nat_digits_digit [of _ n] by (simp_all add: is_digit_def)
  show ?thesis
    using e nm dv d0 tw dw
    by (simp add: parse_float_def Let_def exponent_of_def scale10_def is_digit_def)
qed

lemma strip_ws_nat_digits_append:
  "strip_ws (nat_digits n @ CHR 0x2C # ds) = nat_digits n @ CHR 0x2C # strip_ws ds"
  using strip_ws_nat_digits [of n] by (simp add: strip_ws_def js_ws_def)

lemma bare_plain: "list_all csv_bare f \<Longrightarrow> list_all csv_plain f"
  by (auto simp: list_all_iff csv_bare_def)

lemma split_on_bare: "list_all csv_bare f \<Longrightarrow> CHR 0x2C \<notin> set f \<and> CHR 0x0A \<notin> set f"
  by (auto simp: list_all_iff csv_bare_def)

lemma csv_plain_unquoted_extra:
  assumes "list_all csv_bare s" "list_all csv_bare d" "list_all csv_bare ds"
  shows "csv_parse (''service,date,cost'' @ CHR 0x0A # s @ CHR 0x2C # d @ CHR 0x2C # nat_digits n @
                    CHR 0x2C # ds @ [CHR 0x0A]) = Inl InconsistentColumns"
proof -
  let ?l = "s @ CHR 0x2C # d @ CHR 0x2C # nat_digits n @ CHR 0x2C # ds"
  have b: "CHR 0x2C \<notin> set s \<and> CHR 0x0A \<notin> set s" "CHR 0x2C \<notin> set d \<and> CHR 0x0A \<notin> set d"
    "CHR 0x2C \<notin> set ds \<and> CHR 0x0A \<notin> set ds" "CHR 0x2C \<notin> set (nat_digits n) \<and> CHR 0x0A \<notin> set (nat_digits n)"
    using assms nat_digits_bare [of n] by (simp_all add: split_on_bare)
  have pl: "list_all csv_plain (''service,date,cost'' @ CHR 0x0A # ?l @ [CHR 0x0A])"
    using assms nat_digits_bare [of n] by (simp add: bare_plain csv_plain_def)
  have h: "csv_parse (''service,date,cost'' @ CHR 0x0A # ?l @ [CHR 0x0A]) =
           simple_parse (''service,date,cost'' @ CHR 0x0A # ?l @ [CHR 0x0A])"
    using csv_plain_header [OF _ _ _ pl] by (simp add: csv_parse_def csv_init_def csv_line_start_def)
  have sl: "split_on (CHR 0x0A) (''service,date,cost'' @ CHR 0x0A # ?l @ [CHR 0x0A]) =
            [''service,date,cost'', ?l, []]"
  proof -
    have "CHR 0x0A \<notin> set ?l" using b by simp
    then have "split_on (CHR 0x0A) (?l @ [CHR 0x0A]) = ?l # split_on (CHR 0x0A) []" by (rule split_on_app)
    moreover have "split_on (CHR 0x0A) (''service,date,cost'' @ CHR 0x0A # (?l @ [CHR 0x0A])) =
        ''service,date,cost'' # split_on (CHR 0x0A) (?l @ [CHR 0x0A])"
      by (rule split_on_app) simp
    ultimately show ?thesis by simp
  qed
  have sf: "split_on (CHR 0x2C) ?l = [s, d, nat_digits n, ds]"
    using b by (simp add: split_on_app split_on_no)
  have nb: "\<not> list_all csv_trimable ?l" by (simp add: csv_trimable_def)
  show ?thesis
    using h sl sf nb by (simp add: simple_parse_def simple_rows_def simple_fields_def csv_trimable_def)
qed

section \<open>Properties of the CSV loader\<close>

text \<open>
  C36. Round trip of the whole loader: cost records exported as CSV text (every field
  quoted, dates as \<open>YYYY-MM-DD\<close>, integer costs) are loaded back by \<open>loadCsv\<close> as exactly
  those records, for any service, usage type and resource id strings, commas, quotes,
  spaces and line breaks included; an empty resource id comes back as \<open>null\<close>.
\<close>

theorem load_csv_roundtrip:
  "list_all export_ok xs \<Longrightarrow>
   load_csv (js_date_parse fb) (csv_print cost_header (map export_fields xs)) c = Inr (map (export_item c) xs)"
proof -
  assume ok: "list_all export_ok xs"
  have p: "csv_parse (csv_print cost_header (map export_fields xs)) =
             Inr (map (csv_object cost_header) (map export_fields xs))"
    by (subst csv_parse_print) (auto simp: cost_header_def export_fields_def list_all_iff split: prod.split)
  show ?thesis
    using ok export_row_loads
    by (simp add: load_csv_def p load_rows_map list_all_iff)
qed

theorem load_csv_roundtrip_witness:
  "list_all export_ok [(''EC2, \"eu\"'', [], [], 2024, 2, 29, -5)] \<and>
   load_csv (js_date_parse (\<lambda>_. None)) (csv_print cost_header (map export_fields [(''EC2, \"eu\"'', [], [], 2024, 2, 29, -5)])) Gcp =
     Inr [\<lparr>z_cloud = Gcp, z_service = ''EC2, \"eu\"'', z_usage_type = [], z_resource_id = None,
           z_date = make_day 2024 2 29 * 86400000, z_cost = Fin (-5)\<rparr>]"
  using load_csv_roundtrip [of "[(''EC2, \"eu\"'', [], [], 2024, 2, 29, -5)]" "\<lambda>_. None" Gcp]
  by (simp add: export_ok_def valid_date_def days_in_month_def is_leap_def export_item_def)

text \<open>
  C37. A record with a different number of fields than the header fails the whole load
  with \<open>CSV_RECORD_INCONSISTENT_COLUMNS\<close>, before any record is validated.
\<close>

theorem load_csv_bad_length:
  "hs \<noteq> [] \<Longrightarrow> list_all (\<lambda>r. r \<noteq> []) rows \<Longrightarrow> \<not> list_all (\<lambda>r. length r = length hs) rows \<Longrightarrow>
   load_csv dp (csv_print hs rows) c = Inl (CsvError InconsistentColumns)"
  by (simp add: load_csv_def csv_parse_print)

theorem load_csv_bad_length_witness:
  "[''service''] \<noteq> [] \<and> list_all (\<lambda>r. r \<noteq> []) [[''EC2'', ''S3'']] \<and>
   \<not> list_all (\<lambda>r. length r = length [''service'']) [[''EC2'', ''S3'']] \<and>
   load_csv (\<lambda>_. None) (csv_print [''service''] [[''EC2'', ''S3'']]) Aws = Inl (CsvError InconsistentColumns)"
  using load_csv_bad_length [of "[''service'']" "[[''EC2'', ''S3'']]" "\<lambda>_. None" Aws] by simp

text \<open>
  C38. A cost written with a thousands separator, for any service \<open>s\<close>, date \<open>d\<close> the
  parser reads, leading digits \<open>n\<close> and rest \<open>ds\<close>: quoted, the record loads with cost
  \<open>n\<close> (\<open>parseFloat\<close> stops at the comma); unquoted, the comma splits the record into one
  field too many and the whole file is refused.
\<close>

theorem csv_thousands_separator:
  assumes "dp d = Some t" "list_all csv_bare s" "list_all csv_bare d" "list_all csv_bare ds"
  shows "load_csv dp (csv_print [''service'', ''date'', ''cost''] [[s, d, nat_digits n @ CHR 0x2C # ds]]) c =
           Inr [\<lparr>z_cloud = c, z_service = s, z_usage_type = [], z_resource_id = None, z_date = t,
                 z_cost = Fin (real n)\<rparr>] \<and>
         load_csv dp (''service,date,cost'' @ CHR 0x0A # s @ CHR 0x2C # d @ CHR 0x2C # nat_digits n @
                      CHR 0x2C # ds @ [CHR 0x0A]) c = Inl (CsvError InconsistentColumns)"
proof
  have o: "csv_object [''service'', ''date'', ''cost''] [s, d, nat_digits n @ CHR 0x2C # ds] =
           [(''service'', s), (''date'', d), (''cost'', nat_digits n @ CHR 0x2C # ds)]"
    by (simp add: csv_object_zip)
  have p: "csv_parse (csv_print [''service'', ''date'', ''cost''] [[s, d, nat_digits n @ CHR 0x2C # ds]]) =
           Inr [[(''service'', s), (''date'', d), (''cost'', nat_digits n @ CHR 0x2C # ds)]]"
    by (simp add: csv_parse_print o)
  show "load_csv dp (csv_print [''service'', ''date'', ''cost''] [[s, d, nat_digits n @ CHR 0x2C # ds]]) c =
           Inr [\<lparr>z_cloud = c, z_service = s, z_usage_type = [], z_resource_id = None, z_date = t,
                 z_cost = Fin (real n)\<rparr>]"
    using assms(1) parse_float_nat_digits_comma [of n "strip_ws ds"]
    by (simp add: load_csv_def p csv_row_of_def load_row_def cost_item_parse_def js_string_opt_def
        strip_ws_nat_digits_append)
  show "load_csv dp (''service,date,cost'' @ CHR 0x0A # s @ CHR 0x2C # d @ CHR 0x2C # nat_digits n @
                      CHR 0x2C # ds @ [CHR 0x0A]) c = Inl (CsvError InconsistentColumns)"
    using csv_plain_unquoted_extra [OF assms(2-4), of n] by (simp add: load_csv_def)
qed

theorem csv_thousands_separator_witness:
  "(\<lambda>_. Some (0::int)) ''2024-01-01'' = Some 0 \<and> list_all csv_bare ''EC2'' \<and> list_all csv_bare ''2024-01-01'' \<and>
   list_all csv_bare ''234.50'' \<and>
   load_csv (\<lambda>_. Some 0) (csv_print [''service'', ''date'', ''cost''] [[''EC2'', ''2024-01-01'', nat_digits 1 @ CHR 0x2C # ''234.50'']]) Aws =
     Inr [\<lparr>z_cloud = Aws, z_service = ''EC2'', z_usage_type = [], z_resource_id = None, z_date = 0,
           z_cost = Fin (real 1)\<rparr>] \<and>
   load_csv (\<lambda>_. Some 0) (''service,date,cost'' @ CHR 0x0A # ''EC2'' @ CHR 0x2C # ''2024-01-01'' @ CHR 0x2C #
      nat_digits 1 @ CHR 0x2C # ''234.50'' @ [CHR 0x0A]) Aws = Inl (CsvError InconsistentColumns)"
  using csv_thousands_separator [where dp = "\<lambda>_. Some 0" and d = "''2024-01-01''" and t = 0 and s = "''EC2''"
      and ds = "''234.50''" and c = Aws and n = 1]
  by (simp add: csv_bare_def csv_plain_def)

text \<open>
  Trimming and empty lines: spaces around unquoted fields are dropped, and the blank line
  between the header and the record (CRLF line ends) yields no record.
\<close>

theorem csv_trim_skip:
  "csv_parse (''service , cost'' @ [CHR 0x0D, CHR 0x0A, CHR 0x0D, CHR 0x0A] @ ''  EC2 ,  400  '' @
              [CHR 0x0D, CHR 0x0A]) = Inr [[(''service'', ''EC2''), (''cost'', ''400'')]]"
  by (simp add: csv_eval)

text \<open>
  C33. Refinement of the abstract specification: on text without quotes and carriage
  returns, the character loop of \<open>csv-parse\<close> with \<open>loadCsv\<close>'s options computes
  exactly \<open>simple_parse\<close>: blank lines dropped, the first line the columns, every
  other line split at its commas and trimmed, and a line of another length an error.
\<close>

theorem csv_parse_plain: "list_all csv_plain raw \<Longrightarrow> csv_parse raw = simple_parse raw"
  using csv_plain_header [of csv_init raw] by (simp add: csv_parse_def csv_init_def csv_line_start_def)

theorem csv_parse_plain_witness:
  "list_all csv_plain (''a , b'' @ CHR 0x0A # ''  '' @ CHR 0x0A # '' 1 ,2'') \<and>
   csv_parse (''a , b'' @ CHR 0x0A # ''  '' @ CHR 0x0A # '' 1 ,2'') =
     simple_parse (''a , b'' @ CHR 0x0A # ''  '' @ CHR 0x0A # '' 1 ,2'')"
  using csv_parse_plain [of "''a , b'' @ CHR 0x0A # ''  '' @ CHR 0x0A # '' 1 ,2''"]
  by (simp add: csv_plain_def)

text \<open>
  Whatever the text, the record objects \<open>csv-parse\<close> returns all have the same keys,
  each once: the column names of the one header the loop recorded (\<open>__proto__\<close>
  excepted).
\<close>

theorem csv_parse_keys:
  "csv_parse raw = Inr objs \<Longrightarrow>
   \<exists>cols. list_all (\<lambda>ob. distinct (map fst ob) \<and> fst ` set ob = set cols - {''__proto__''}) objs"
proof -
  assume p: "csv_parse raw = Inr objs"
  then obtain st where l: "csv_loop csv_init raw = Inr st" and f: "csv_finish st = Inr objs"
    by (auto simp: csv_parse_def split: sum.splits)
  have i: "csv_keys_inv st"
    using csv_loop_inv [OF _ l] by (simp add: csv_keys_inv_def csv_init_def)
  show ?thesis
  proof (cases "\<not> cs_quoting st \<and> (cs_was_quoting st \<or> cs_record st \<noteq> [] \<or> cs_field st \<noteq> [])")
    case True
    then obtain st' where "csv_on_record (csv_on_field st) = Inr st'" "objs = cs_out st'"
      using f by (auto simp: csv_finish_def map_sum_eq_Inr)
    moreover have "csv_keys_inv (csv_on_field st)"
      using i csv_keys_inv_frame [of "csv_on_field st" st] by (simp add: csv_on_field_def)
    ultimately show ?thesis using csv_on_record_inv csv_keys_inv_out by blast
  next
    case False
    then have "objs = cs_out st" using f by (auto simp: csv_finish_def split: if_splits)
    then show ?thesis using csv_keys_inv_out [OF i] by simp
  qed
qed

theorem csv_parse_keys_witness:
  "csv_parse (''a,b,a'' @ CHR 0x0A # ''1,2,3'') = Inr [[(''a'', ''3''), (''b'', ''2'')]] \<and>
   (\<exists>cols. list_all (\<lambda>ob. distinct (map fst ob) \<and> fst ` set ob = set cols - {''__proto__''}) [[(''a'', ''3''), (''b'', ''2'')]])"
proof
  show p: "csv_parse (''a,b,a'' @ CHR 0x0A # ''1,2,3'') = Inr [[(''a'', ''3''), (''b'', ''2'')]]"
    by (simp add: csv_eval)
  show "\<exists>cols. list_all (\<lambda>ob. distinct (map fst ob) \<and> fst ` set ob = set cols - {''__proto__''}) [[(''a'', ''3''), (''b'', ''2'')]]"
    using csv_parse_keys [OF p] .
qed

end
