(* ===== verification/ActionsDsl.thy ===== *)
theory ActionsDsl
  imports Prelude
begin

text \<open>
  The action plan compiler, \<open>compileActions\<close> of
  \<open>src/packages/core/src/actions-dsl.ts\<close>. \<open>YAML.parse\<close> (the \<open>yaml\<close> package) is a
  library: the model takes its outcome, a parse error or the parsed JavaScript value
  (\<open>yval\<close>: null, booleans, numbers, strings, arrays and plain objects, an object as an
  association list of its keys in order). On that value the model follows the
  JavaScript semantics the code relies on: property access (\<open>item.id\<close>; reading a
  property of \<open>null\<close> throws a TypeError; no value of \<open>yval\<close> other than an object has
  an own or inherited property named \<open>actions\<close>, \<open>id\<close>, \<open>title\<close> or \<open>steps\<close>),
  optional chaining \<open>?.\<close>, nullish coalescing \<open>??\<close>, truthiness for \<open>||\<close>,
  \<open>for ... of\<close> (arrays and strings are iterable, other values throw), and
  \<open>Array.prototype.map\<close> (only arrays have it). Each thrown error is a value of
  \<open>dsl_error\<close>.
\<close>

section \<open>Values and plans\<close>

datatype yval =
    YNull
  | YBool bool
  | YNum real
  | YStr string
  | YSeq "yval list"
  | YMap "(string \<times> yval) list"

datatype dsl_error = ParseError string | TypeError string

text \<open>
  The \<open>ActionPlan\<close> the code builds: \<open>id\<close> and \<open>title\<close> are copied as they are
  (\<open>None\<close> is \<open>undefined\<close>), and \<open>steps\<close> holds the values the \<open>map\<close> returns.
\<close>

record action_plan =
  plan_id :: "yval option"
  plan_title :: "yval option"
  steps :: "yval list"

section \<open>JavaScript semantics used by the compiler\<close>

fun get_prop :: "yval \<Rightarrow> string \<Rightarrow> yval option" where
  "get_prop (YMap kvs) k = map_of kvs k"
| "get_prop v k = None"

text \<open>\<open>v.k\<close>: a TypeError on \<open>null\<close>.\<close>

definition read_prop :: "yval \<Rightarrow> string \<Rightarrow> dsl_error + yval option" where
  "read_prop v k =
     (if v = YNull then Inl (TypeError (''Cannot read properties of null (reading '' @ k @ '')''))
      else Inr (get_prop v k))"

text \<open>\<open>doc?.actions ?? []\<close>\<close>

definition doc_actions :: "yval \<Rightarrow> yval" where
  "doc_actions doc =
     (let a = (if doc = YNull then None else get_prop doc ''actions'')
      in case a of None \<Rightarrow> YSeq [] | Some YNull \<Rightarrow> YSeq [] | Some v \<Rightarrow> v)"

text \<open>\<open>for (const item of v)\<close>: arrays by element, strings by character.\<close>

fun js_iterate :: "yval \<Rightarrow> dsl_error + yval list" where
  "js_iterate (YSeq xs) = Inr xs"
| "js_iterate (YStr s) = Inr (map (\<lambda>c. YStr [c]) s)"
| "js_iterate v = Inl (TypeError ''actions is not iterable'')"

text \<open>Falsy values: \<open>undefined\<close>, \<open>null\<close>, \<open>false\<close>, \<open>0\<close> and \<open>''''\<close>.\<close>

fun js_falsy :: "yval option \<Rightarrow> bool" where
  "js_falsy None = True"
| "js_falsy (Some YNull) = True"
| "js_falsy (Some (YBool b)) = (\<not> b)"
| "js_falsy (Some (YNum x)) = (x = 0)"
| "js_falsy (Some (YStr s)) = (s = [])"
| "js_falsy (Some (YSeq xs)) = False"
| "js_falsy (Some (YMap kvs)) = False"

section \<open>The compiler\<close>

text \<open>\<open>(s) => (typeof s === "string" ? { run: s } : s)\<close>\<close>

fun norm_step :: "yval \<Rightarrow> yval" where
  "norm_step (YStr s) = YMap [(''run'', YStr s)]"
| "norm_step v = v"

text \<open>\<open>(item.steps || []).map(...)\<close>\<close>

definition item_steps :: "yval option \<Rightarrow> dsl_error + yval list" where
  "item_steps v =
     (if js_falsy v then Inr []
      else case v of
        Some (YSeq xs) \<Rightarrow> Inr (map norm_step xs)
      | _ \<Rightarrow> Inl (TypeError ''(item.steps || []).map is not a function''))"

text \<open>
  The object literal pushed for one item: \<open>item.id\<close>, \<open>item.title\<close> and the steps are
  evaluated in that order, and the first property read fails on a \<open>null\<close> item.
\<close>

definition compile_item :: "yval \<Rightarrow> dsl_error + action_plan" where
  "compile_item item =
     (case read_prop item ''id'' of
        Inl e \<Rightarrow> Inl e
      | Inr i \<Rightarrow>
          (case item_steps (get_prop item ''steps'') of
             Inl e \<Rightarrow> Inl e
           | Inr ss \<Rightarrow> Inr \<lparr>plan_id = i, plan_title = get_prop item ''title'', steps = ss\<rparr>))"

text \<open>The loop: \<open>out.push\<close> for each item; the first error leaves the loop.\<close>

fun compile_items :: "yval list \<Rightarrow> action_plan list \<Rightarrow> dsl_error + action_plan list" where
  "compile_items [] out = Inr out"
| "compile_items (item # items) out =
     (case compile_item item of
        Inl e \<Rightarrow> Inl e
      | Inr p \<Rightarrow> compile_items items (out @ [p]))"

definition compile_actions :: "string + yval \<Rightarrow> dsl_error + action_plan list" where
  "compile_actions parsed =
     (case parsed of
        Inl msg \<Rightarrow> Inl (ParseError msg)
      | Inr doc \<Rightarrow>
          (case js_iterate (doc_actions doc) of
             Inl e \<Rightarrow> Inl e
           | Inr items \<Rightarrow> compile_items items []))"

section \<open>Abstract view\<close>

text \<open>An item the compiler accepts, and the plan it makes of it.\<close>

definition item_ok :: "yval \<Rightarrow> bool" where
  "item_ok item \<longleftrightarrow> item \<noteq> YNull \<and>
     (js_falsy (get_prop item ''steps'') \<or> (\<exists>xs. get_prop item ''steps'' = Some (YSeq xs)))"

definition plan_of :: "yval \<Rightarrow> action_plan" where
  "plan_of item =
     \<lparr>plan_id = get_prop item ''id'', plan_title = get_prop item ''title'',
      steps = (case get_prop item ''steps'' of Some (YSeq xs) \<Rightarrow> map norm_step xs | _ \<Rightarrow> [])\<rparr>"

text \<open>Whether a value is a string (\<open>typeof s === "string"\<close>).\<close>

fun is_str :: "yval \<Rightarrow> bool" where
  "is_str (YStr s) = True"
| "is_str v = False"

section \<open>Lemmas\<close>

lemmas dsl_eval = compile_actions_def doc_actions_def item_steps_def compile_item_def read_prop_def Let_def

lemma compile_item_ok: "item_ok item \<Longrightarrow> compile_item item = Inr (plan_of item)"
  by (auto simp: item_ok_def compile_item_def read_prop_def item_steps_def plan_of_def
      split: option.splits yval.splits)

lemma compile_item_not_ok: "\<not> item_ok item \<Longrightarrow> \<exists>e. compile_item item = Inl e"
  by (auto simp: item_ok_def compile_item_def read_prop_def item_steps_def
      split: option.splits yval.splits)

lemma compile_items_all_ok:
  "list_all item_ok items \<Longrightarrow> compile_items items out = Inr (out @ map plan_of items)"
  by (induction items arbitrary: out) (auto simp: compile_item_ok)

lemma compile_items_some_bad:
  "\<not> list_all item_ok items \<Longrightarrow> \<exists>e. compile_items items out = Inl e"
proof (induction items arbitrary: out)
  case Nil
  then show ?case by simp
next
  case (Cons item items)
  show ?case
  proof (cases "item_ok item")
    case True
    with Cons.prems have "\<not> list_all item_ok items" by simp
    with True show ?thesis by (simp add: compile_item_ok Cons.IH)
  next
    case False
    then obtain e where "compile_item item = Inl e" using compile_item_not_ok by blast
    then show ?thesis by simp
  qed
qed

lemma compile_item_not_iterable: "compile_item item \<noteq> Inl (TypeError ''actions is not iterable'')"
  by (auto simp: compile_item_def read_prop_def item_steps_def split: sum.splits if_splits option.splits yval.splits)

lemma compile_items_not_iterable: "compile_items items out \<noteq> Inl (TypeError ''actions is not iterable'')"
proof (induction items arbitrary: out)
  case Nil
  then show ?case by simp
next
  case (Cons item items)
  then show ?case using compile_item_not_iterable [of item] by (auto split: sum.split)
qed

lemma compile_items_Inr:
  "compile_items items out = Inr ps \<longleftrightarrow> list_all item_ok items \<and> ps = out @ map plan_of items"
proof (cases "list_all item_ok items")
  case True
  then show ?thesis by (auto simp: compile_items_all_ok)
next
  case False
  then obtain e where "compile_items items out = Inl e" using compile_items_some_bad by blast
  with False show ?thesis by simp
qed

lemma compile_actions_items:
  "compile_actions (Inr doc) = (case js_iterate (doc_actions doc) of Inl e \<Rightarrow> Inl e | Inr items \<Rightarrow> compile_items items [])"
  by (simp add: compile_actions_def)

lemma norm_step_not_str [simp]: "\<not> is_str v \<Longrightarrow> norm_step v = v"
  by (cases v) auto

section \<open>Properties of the compiler\<close>

text \<open>
  C18. The round trip of the specification: a document with one action whose two steps
  are bare strings compiles to one plan with the action's id and title and two steps
  \<open>{run: s}\<close>, with no \<open>note\<close>.
\<close>

theorem dsl_bare_strings:
  "compile_actions (Inr (YMap [(''actions'', YSeq [YMap [(''id'', YStr a), (''title'', YStr t),
       (''steps'', YSeq [YStr x, YStr y])]])]))
   = Inr [\<lparr>plan_id = Some (YStr a), plan_title = Some (YStr t),
           steps = [YMap [(''run'', YStr x)], YMap [(''run'', YStr y)]]\<rparr>]"
  by (simp add: dsl_eval)

text \<open>
  C16. For a document whose \<open>actions\<close> is a list, compilation succeeds exactly when every
  item is non-null and its \<open>steps\<close> is falsy or a list; a single bad item fails the whole
  batch.
\<close>

theorem dsl_accepts_iff:
  "doc_actions doc = YSeq items \<Longrightarrow>
   (\<exists>ps. compile_actions (Inr doc) = Inr ps) \<longleftrightarrow> list_all item_ok items"
  by (simp add: compile_actions_items compile_items_Inr)

theorem dsl_accepts_iff_witness:
  "doc_actions (YMap [(''actions'', YSeq [YMap [(''id'', YStr ''m'')]])]) = YSeq [YMap [(''id'', YStr ''m'')]] \<and>
   ((\<exists>ps. compile_actions (Inr (YMap [(''actions'', YSeq [YMap [(''id'', YStr ''m'')]])])) = Inr ps)
     \<longleftrightarrow> list_all item_ok [YMap [(''id'', YStr ''m'')]])"
proof -
  have h: "doc_actions (YMap [(''actions'', YSeq [YMap [(''id'', YStr ''m'')]])]) = YSeq [YMap [(''id'', YStr ''m'')]]"
    by (simp add: doc_actions_def)
  show ?thesis using h dsl_accepts_iff [OF h] by simp
qed

text \<open>
  C17. Order and content are preserved: when compilation succeeds, the plans are the
  items in their order, each with the item's \<open>id\<close> and \<open>title\<close> copied unchecked and its
  steps normalised.
\<close>

theorem dsl_plans_in_order:
  "doc_actions doc = YSeq items \<Longrightarrow> compile_actions (Inr doc) = Inr ps \<Longrightarrow> ps = map plan_of items"
  by (simp add: compile_actions_items compile_items_Inr)

theorem dsl_plans_in_order_witness:
  "doc_actions (YMap [(''actions'', YSeq [YMap [(''id'', YStr ''a'')], YMap [(''id'', YStr ''b'')]])])
     = YSeq [YMap [(''id'', YStr ''a'')], YMap [(''id'', YStr ''b'')]] \<and>
   compile_actions (Inr (YMap [(''actions'', YSeq [YMap [(''id'', YStr ''a'')], YMap [(''id'', YStr ''b'')]])]))
     = Inr [plan_of (YMap [(''id'', YStr ''a'')]), plan_of (YMap [(''id'', YStr ''b'')])] \<and>
   [plan_of (YMap [(''id'', YStr ''a'')]), plan_of (YMap [(''id'', YStr ''b'')])]
     = map plan_of [YMap [(''id'', YStr ''a'')], YMap [(''id'', YStr ''b'')]]"
proof -
  have h: "doc_actions (YMap [(''actions'', YSeq [YMap [(''id'', YStr ''a'')], YMap [(''id'', YStr ''b'')]])])
     = YSeq [YMap [(''id'', YStr ''a'')], YMap [(''id'', YStr ''b'')]]"
    by (simp add: doc_actions_def)
  have c: "compile_actions (Inr (YMap [(''actions'', YSeq [YMap [(''id'', YStr ''a'')], YMap [(''id'', YStr ''b'')]])]))
     = Inr [plan_of (YMap [(''id'', YStr ''a'')]), plan_of (YMap [(''id'', YStr ''b'')])]"
    by (simp add: dsl_eval plan_of_def)
  from h c dsl_plans_in_order [OF h c] show ?thesis by blast
qed

text \<open>The example of the specification: \<open>actions: []\<close> compiles to no plan, without error.\<close>

theorem dsl_empty_actions: "compile_actions (Inr (YMap [(''actions'', YSeq [])])) = Inr []"
  by (simp add: dsl_eval)

text \<open>
  A document without an \<open>actions\<close> key, with \<open>actions: null\<close>, or a null document,
  compiles to no plan, without error.
\<close>

theorem dsl_missing_actions:
  "doc = YNull \<or> get_prop doc ''actions'' = None \<or> get_prop doc ''actions'' = Some YNull \<Longrightarrow>
   compile_actions (Inr doc) = Inr []"
  by (auto simp: dsl_eval)

theorem dsl_missing_actions_witness:
  "(YMap [(''title'', YStr ''t'')] = YNull \<or> get_prop (YMap [(''title'', YStr ''t'')]) ''actions'' = None \<or>
    get_prop (YMap [(''title'', YStr ''t'')]) ''actions'' = Some YNull) \<and>
   compile_actions (Inr (YMap [(''title'', YStr ''t'')])) = Inr []"
proof -
  have h: "YMap [(''title'', YStr ''t'')] = YNull \<or> get_prop (YMap [(''title'', YStr ''t'')]) ''actions'' = None \<or>
    get_prop (YMap [(''title'', YStr ''t'')]) ''actions'' = Some YNull" by simp
  show ?thesis using h dsl_missing_actions [OF h] by simp
qed

text \<open>
  C19. Not permissive for a non-list \<open>actions\<close>: the compiler fails with the TypeError
  \<open>actions is not iterable\<close> exactly when the document's \<open>actions\<close> is a mapping, a number
  or a boolean; no plan is returned then, and no other input gives that error.
\<close>

theorem dsl_actions_mapping_fails:
  "compile_actions (Inr doc) = Inl (TypeError ''actions is not iterable'') \<longleftrightarrow>
   (\<exists>kvs. get_prop doc ''actions'' = Some (YMap kvs)) \<or> (\<exists>x. get_prop doc ''actions'' = Some (YNum x)) \<or>
   (\<exists>b. get_prop doc ''actions'' = Some (YBool b))"
proof (cases "js_iterate (doc_actions doc)")
  case (Inl e)
  then show ?thesis
    by (cases doc) (auto simp: compile_actions_def doc_actions_def split: option.splits yval.splits)
next
  case (Inr items)
  have "compile_items items [] \<noteq> Inl (TypeError ''actions is not iterable'')"
    by (rule compile_items_not_iterable)
  with Inr show ?thesis
    by (cases doc) (auto simp: compile_actions_def doc_actions_def split: option.splits yval.splits)
qed

theorem dsl_actions_mapping_fails_witness:
  "((\<exists>kvs. get_prop (YMap [(''actions'', YNum 3)]) ''actions'' = Some (YMap kvs)) \<or>
    (\<exists>x. get_prop (YMap [(''actions'', YNum 3)]) ''actions'' = Some (YNum x)) \<or>
    (\<exists>b. get_prop (YMap [(''actions'', YNum 3)]) ''actions'' = Some (YBool b))) \<and>
   compile_actions (Inr (YMap [(''actions'', YNum 3)])) = Inl (TypeError ''actions is not iterable'')"
  using dsl_actions_mapping_fails [of "YMap [(''actions'', YNum 3)]"] by simp

text \<open>
  C20. A null item (an empty \<open>-\<close> entry in the YAML list) or an item whose \<open>steps\<close> is a
  non-empty string throws, and the whole batch fails, whatever the other items are.
\<close>

theorem dsl_bad_item_fails_batch:
  "(\<exists>e. compile_actions (Inr (YMap [(''actions'', YSeq (xs @ YNull # ys))])) = Inl e) \<and>
   (\<exists>e. compile_actions (Inr (YMap [(''actions'', YSeq (xs @ YMap [(''steps'', YStr (c # s))] # ys))])) = Inl e)"
proof -
  have "\<not> list_all item_ok (xs @ YNull # ys)" by (simp add: item_ok_def)
  moreover have "\<not> list_all item_ok (xs @ YMap [(''steps'', YStr (c # s))] # ys)" by (simp add: item_ok_def)
  ultimately show ?thesis using compile_items_some_bad by (simp add: compile_actions_items doc_actions_def)
qed

text \<open>
  A string \<open>actions\<close> is iterated character by character: \<open>actions: ab\<close> yields two
  plans with undefined id and title and no steps.
\<close>

theorem dsl_string_actions:
  "compile_actions (Inr (YMap [(''actions'', YStr ''ab'')]))
   = Inr [\<lparr>plan_id = None, plan_title = None, steps = []\<rparr>, \<lparr>plan_id = None, plan_title = None, steps = []\<rparr>]"
  by (simp add: dsl_eval)

text \<open>
  Duplicate and missing ids are not checked: two actions with the same id yield two
  plans with that id, and an action without id yields a plan with an undefined id.
\<close>

theorem dsl_ids_unchecked:
  "compile_actions (Inr (YMap [(''actions'', YSeq [YMap [(''id'', YStr i)], YMap [(''id'', YStr i)], YMap []])]))
   = Inr [\<lparr>plan_id = Some (YStr i), plan_title = None, steps = []\<rparr>,
          \<lparr>plan_id = Some (YStr i), plan_title = None, steps = []\<rparr>,
          \<lparr>plan_id = None, plan_title = None, steps = []\<rparr>]"
  by (simp add: dsl_eval)

text \<open>
  Steps that are not strings are passed through unchanged: a structured step keeps
  its \<open>run\<close>, its optional \<open>note\<close> and any other key, and a step that is not an object
  at all is kept as it is.
\<close>

theorem dsl_structured_steps_verbatim:
  "list_all (\<lambda>v. \<not> is_str v) xs \<Longrightarrow>
   compile_actions (Inr (YMap [(''actions'', YSeq [YMap [(''steps'', YSeq xs)]])]))
   = Inr [\<lparr>plan_id = None, plan_title = None, steps = xs\<rparr>]"
proof -
  assume h: "list_all (\<lambda>v. \<not> is_str v) xs"
  then have "map norm_step xs = xs" by (induction xs) auto
  then show ?thesis by (simp add: dsl_eval)
qed

theorem dsl_structured_steps_verbatim_witness:
  "list_all (\<lambda>v. \<not> is_str v) [YMap [(''run'', YStr ''pg_dump''), (''note'', YStr ''n''), (''retry'', YNum 3)], YNum 7] \<and>
   compile_actions (Inr (YMap [(''actions'', YSeq [YMap [(''steps'', YSeq
       [YMap [(''run'', YStr ''pg_dump''), (''note'', YStr ''n''), (''retry'', YNum 3)], YNum 7])]])]))
   = Inr [\<lparr>plan_id = None, plan_title = None,
           steps = [YMap [(''run'', YStr ''pg_dump''), (''note'', YStr ''n''), (''retry'', YNum 3)], YNum 7]\<rparr>]"
proof -
  have h: "list_all (\<lambda>v. \<not> is_str v) [YMap [(''run'', YStr ''pg_dump''), (''note'', YStr ''n''), (''retry'', YNum 3)], YNum 7]"
    by simp
  show ?thesis using h dsl_structured_steps_verbatim [OF h] by simp
qed

end
