(* ===== verification/Server.thy ===== *)
theory Server
  imports Api CsvParse ActionsDsl
begin

text \<open>
  The whole API server of \<open>src/apps/api/src/index.ts\<close> as a function from a request to
  its reply. The environment (\<open>process.env\<close> after \<open>dotenv.config\<close>, the text of the
  demo CSV files as \<open>fs.readFileSync\<close> returns it, the host's \<open>Date\<close> parsing) is the
  record \<open>server_env\<close>. \<open>load_items\<close> is \<open>loadItems\<close>: \<open>loadCsv\<close> of the provider's demo
  file, i.e. \<open>load_csv\<close> of the CsvParse theory (parse, then validate), so the
  \<open>/recommendations\<close> route is composed with the loader from the file's text on
  instead of taking the batch as a parameter. Replies are JSON values,
  written as \<open>yval\<close> (JSON is a subset of the values \<open>YAML.parse\<close> returns): the
  object a handler returns is what \<open>JSON.stringify\<close> sends and the browser's
  \<open>r.json()\<close> reads back, keys in insertion order. A thrown error becomes Fastify's
  default 500 reply and an unknown route its default 404 reply; the message of a
  thrown error is its name (\<open>ZodError\<close>, \<open>ENOENT\<close>) or the \<open>TypeError\<close> text.
  \<open>PORT\<close> is read with \<open>Number(...)\<close>, modelled as \<open>js_to_number\<close> (ECMAScript's
  \<open>StringNumericLiteral\<close> for ASCII white space).
\<close>

section \<open>Number() of a string\<close>

text \<open>White space at both ends is ignored; the rest must be one numeric literal.\<close>

definition trim_ws :: "string \<Rightarrow> string" where
  "trim_ws s = rev (dropWhile js_ws (rev (dropWhile js_ws s)))"

text \<open>An \<open>ExponentPart\<close> that ends the literal: at least one digit after the sign.\<close>

definition exponent_part :: "string \<Rightarrow> int option" where
  "exponent_part r =
     (case r of
        [] \<Rightarrow> Some 0
      | c # t \<Rightarrow>
          (if c = CHR ''e'' \<or> c = CHR ''E'' then
             (let (sg, u) = (case t of
                               d # u' \<Rightarrow> (if d = CHR ''-'' then (-1, u') else if d = CHR ''+'' then (1, u') else (1, t))
                             | [] \<Rightarrow> (1, t))
              in if u \<noteq> [] \<and> list_all is_digit u then Some (sg * int (digits_value u)) else None)
           else None))"

text \<open>A whole \<open>StrDecimalLiteral\<close>: sign, then \<open>Infinity\<close> or digits, fraction, exponent.\<close>

definition decimal_literal :: "string \<Rightarrow> js_num option" where
  "decimal_literal s =
     (let (sg, r) = (case s of
                       c # t \<Rightarrow> (if c = CHR ''-'' then (-1 :: real, t) else if c = CHR ''+'' then (1, t) else (1, s))
                     | [] \<Rightarrow> (1, s))
      in if r = ''Infinity'' then Some (if sg < 0 then NegInf else PosInf)
         else
           (let ip = takeWhile is_digit r;
                r1 = dropWhile is_digit r;
                (fp, r2) = (case r1 of
                              c # t \<Rightarrow> (if c = CHR ''.'' then (takeWhile is_digit t, dropWhile is_digit t) else ([], r1))
                            | [] \<Rightarrow> ([], r1))
            in if ip = [] \<and> fp = [] then None
               else (case exponent_part r2 of
                       None \<Rightarrow> None
                     | Some e \<Rightarrow> Some (Fin (sg * scale10 (real (digits_value ip) + real (digits_value fp) / 10 ^ length fp) e)))))"

text \<open>A digit of base 2, 8 or 16 (\<open>0x\<close>, \<open>0o\<close>, \<open>0b\<close> literals, either case).\<close>

definition radix_digit :: "char \<Rightarrow> nat option" where
  "radix_digit c =
     (let n = (of_char c :: nat)
      in if 48 \<le> n \<and> n \<le> 57 then Some (n - 48)
         else if 97 \<le> n \<and> n \<le> 102 then Some (n - 87)
         else if 65 \<le> n \<and> n \<le> 70 then Some (n - 55) else None)"

definition radix_literal :: "nat \<Rightarrow> string \<Rightarrow> nat option" where
  "radix_literal b ds =
     (if ds \<noteq> [] \<and> list_all (\<lambda>d. case radix_digit d of Some v \<Rightarrow> v < b | None \<Rightarrow> False) ds
      then Some (foldl (\<lambda>a d. b * a + the (radix_digit d)) 0 ds) else None)"

definition js_to_number :: "string \<Rightarrow> js_num" where
  "js_to_number s =
     (let t = trim_ws s;
          radix = (\<lambda>b ds. case radix_literal b ds of None \<Rightarrow> NaN | Some n \<Rightarrow> Fin (real n));
          dec = (case decimal_literal t of None \<Rightarrow> NaN | Some v \<Rightarrow> v)
      in if t = [] then Fin 0
         else (case t of
                 c # d # ds \<Rightarrow>
                   (if c = CHR ''0'' \<and> (d = CHR ''x'' \<or> d = CHR ''X'') then radix 16 ds
                    else if c = CHR ''0'' \<and> (d = CHR ''o'' \<or> d = CHR ''O'') then radix 8 ds
                    else if c = CHR ''0'' \<and> (d = CHR ''b'' \<or> d = CHR ''B'') then radix 2 ds
                    else dec)
               | _ \<Rightarrow> dec))"

text \<open>\<open>const PORT = Number(process.env.PORT || 8787)\<close>\<close>

definition server_port :: "string option \<Rightarrow> js_num" where
  "server_port e = (case e of None \<Rightarrow> Fin 8787 | Some s \<Rightarrow> if s = [] then Fin 8787 else js_to_number s)"

section \<open>Environment, requests and replies\<close>

record server_env =
  env_port :: "string option"
  env_razorpay_key :: "string option"
  demo_files :: "cloud \<Rightarrow> string option"
  env_date_parse :: "string \<Rightarrow> int option"
  host_nonfinite_recs :: "zod_item list \<Rightarrow> cloud \<Rightarrow> (recommendation \<times> js_num) list"

datatype http_method = GET | POST

record http_reply =
  status :: nat
  body :: yval

definition ok_reply :: "yval \<Rightarrow> http_reply" where
  "ok_reply v = \<lparr>status = 200, body = v\<rparr>"

text \<open>
  Fastify's default error reply for a thrown error without a status code (the \<open>code\<close>
  key it adds for errors that carry one, such as \<open>ERR_INVALID_ARG_TYPE\<close>, is left out).
\<close>

definition error_reply :: "string \<Rightarrow> http_reply" where
  "error_reply msg =
     \<lparr>status = 500, body = YMap [(''statusCode'', YNum 500), (''error'', YStr ''Internal Server Error''),
                                (''message'', YStr msg)]\<rparr>"

fun method_name :: "http_method \<Rightarrow> string" where
  "method_name GET = ''GET''"
| "method_name POST = ''POST''"

text \<open>Fastify's default reply for a route that is not registered.\<close>

definition not_found_reply :: "http_method \<Rightarrow> string \<Rightarrow> http_reply" where
  "not_found_reply m path =
     \<lparr>status = 404, body = YMap [(''message'', YStr (''Route '' @ method_name m @ '':'' @ path @ '' not found'')),
                                (''error'', YStr ''Not Found''), (''statusCode'', YNum 404)]\<rparr>"

section \<open>JSON of the recommendations response\<close>

fun effort_name :: "effort \<Rightarrow> string" where
  "effort_name Low = ''low''"
| "effort_name Medium = ''medium''"
| "effort_name High = ''high''"

text \<open>The object \<open>add\<close> pushes (\<open>rules.ts\<close>), keys in the order of its literal.\<close>

definition json_of_rec :: "recommendation \<Rightarrow> yval" where
  "json_of_rec r =
     YMap [(''id'', YStr (rec_id r)), (''title'', YStr (title r)),
           (''impact_monthly'', YNum (impact_monthly r)), (''effort'', YStr (effort_name (effort r))),
           (''rationale'', YStr (rationale r)), (''actions'', YSeq (map YStr (actions r))),
           (''related'', YSeq (map YStr (related r))),
           (''meta'', YMap (map (\<lambda>(k, v). (k, YStr v)) (meta r)))]"

text \<open>\<open>JSON.stringify\<close> of a number: \<open>Infinity\<close>, \<open>-Infinity\<close> and \<open>NaN\<close> become \<open>null\<close>.\<close>

fun json_num :: "js_num \<Rightarrow> yval" where
  "json_num (Fin x) = YNum x"
| "json_num v = YNull"

text \<open>A recommendation whose \<open>impact_monthly\<close> is the double \<open>x\<close>, as JSON.\<close>

definition json_of_rec_num :: "recommendation \<times> js_num \<Rightarrow> yval" where
  "json_of_rec_num rx =
     (case rx of (r, x) \<Rightarrow>
        YMap [(''id'', YStr (rec_id r)), (''title'', YStr (title r)),
              (''impact_monthly'', json_num x), (''effort'', YStr (effort_name (effort r))),
              (''rationale'', YStr (rationale r)), (''actions'', YSeq (map YStr (actions r))),
              (''related'', YSeq (map YStr (related r))),
              (''meta'', YMap (map (\<lambda>(k, v). (k, YStr v)) (meta r)))])"

definition json_of_response :: "response \<Rightarrow> yval" where
  "json_of_response r =
     YMap [(''provider'', YStr (resp_provider r)), (''lei'', YNum (of_int (lei r))),
           (''recommendations'', YSeq (map json_of_rec (recommendations r)))]"

section \<open>Handlers\<close>

text \<open>\<open>loadItems(provider)\<close>: \<open>loadCsv(DEMO[provider], provider)\<close>.\<close>

definition load_items :: "server_env \<Rightarrow> cloud \<Rightarrow> string + zod_item list" where
  "load_items env c =
     (case demo_files env c of
        None \<Rightarrow> Inl ''ENOENT: no such file or directory''
      | Some raw \<Rightarrow> (case load_csv (env_date_parse env) raw c of
                      Inl (CsvError e) \<Rightarrow> Inl (csv_error_code e)
                    | Inl (ZodError _) \<Rightarrow> Inl ''ZodError''
                    | Inr items \<Rightarrow> Inr items))"

definition health_body :: yval where
  "health_body = YMap [(''ok'', YBool True), (''name'', YStr ''cloudshift-api''), (''version'', YStr ''0.1.0'')]"

text \<open>
  \<open>/api/check-razorpay\<close>: \<open>key = process.env.RAZORPAY_KEY_ID || "not_set"\<close>, then
  \<open>!!key\<close> and \<open>key.slice(0, 8)\<close>.
\<close>

definition check_razorpay :: "string option \<Rightarrow> yval" where
  "check_razorpay k =
     (let key = (case k of None \<Rightarrow> ''not_set'' | Some s \<Rightarrow> if s = [] then ''not_set'' else s)
      in YMap [(''ok'', YBool True), (''key_id_loaded'', YBool (key \<noteq> [])),
               (''key_id_prefix'', YStr (take 8 key))])"

definition payment_order_body :: yval where
  "payment_order_body = YMap [(''ok'', YBool True), (''orderId'', YStr ''order_demo_001''), (''amount'', YNum 99900)]"

text \<open>
  \<open>computeLEI\<close> reads only the service name of an item (\<open>lei.ts\<close>, \<open>i.service\<close>), so
  on a loaded batch it is \<open>compute_lei\<close> of the items with any cost; \<open>lei_view\<close> gives
  them cost 0.
\<close>

definition lei_view :: "zod_item \<Rightarrow> cost_item" where
  "lei_view z = \<lparr>cloud = z_cloud z, service = z_service z, usage_type = z_usage_type z,
                 resource_id = z_resource_id z, date = z_date z, cost = 0\<rparr>"

text \<open>
  \<open>app.get("/recommendations", ...)\<close> on the server: the provider, the load of its demo
  file, then the response. On a batch whose costs are all finite the engine is
  \<open>generate_recommendations\<close>. On a batch with an infinite cost the engine computes with
  \<open>Infinity\<close> and \<open>NaN\<close>, which exact reals do not model: the recommendations it returns,
  each with the double its \<open>impact_monthly\<close> evaluates to, are the parameter
  \<open>host_nonfinite_recs\<close>; the reply is 200 and a non-finite impact is sent as \<open>null\<close>.
\<close>

definition recommendations_reply :: "server_env \<Rightarrow> query_val option \<Rightarrow> http_reply" where
  "recommendations_reply env q =
     (let p = provider_of_query q
      in case demo_cloud p of
           None \<Rightarrow> error_reply ''TypeError [ERR_INVALID_ARG_TYPE]: the path argument must be a string''
         | Some c \<Rightarrow>
             (case load_items env c of
                Inl e \<Rightarrow> error_reply e
              | Inr zs \<Rightarrow>
                  (case finite_items zs of
                     Some items \<Rightarrow>
                       ok_reply (json_of_response \<lparr>resp_provider = p, lei = compute_lei items,
                                                   recommendations = generate_recommendations items c\<rparr>)
                   | None \<Rightarrow>
                       ok_reply (YMap [(''provider'', YStr p), (''lei'', YNum (of_int (compute_lei (map lei_view zs)))),
                                       (''recommendations'', YSeq (map json_of_rec_num (host_nonfinite_recs env zs c)))]))))"

text \<open>
  The route table: the four \<open>app.get\<close> routes, in the order they are registered, and
  the 404 reply for anything else. \<open>q\<close> is the \<open>provider\<close> query parameter.
\<close>

definition api_handle :: "server_env \<Rightarrow> http_method \<Rightarrow> string \<Rightarrow> query_val option \<Rightarrow> http_reply" where
  "api_handle env m path q =
     (if m = GET \<and> path = ''/health'' then ok_reply health_body
      else if m = GET \<and> path = ''/api/check-razorpay'' then ok_reply (check_razorpay (env_razorpay_key env))
      else if m = GET \<and> path = ''/api/payment/order'' then ok_reply payment_order_body
      else if m = GET \<and> path = ''/recommendations'' then recommendations_reply env q
      else not_found_reply m path)"


text \<open>
  An environment whose AWS demo file has one row of cost \<open>Infinity\<close>, served by a host
  whose engine answers one recommendation of infinite impact.
\<close>

definition infinity_env :: server_env where
  "infinity_env = \<lparr>env_port = None, env_razorpay_key = None,
     demo_files = (\<lambda>c. if c = Aws then Some
        (''date,service,cost'' @ CHR 0x0A # ''2024-01-01,S3,Infinity'' @ [CHR 0x0A]) else None),
     env_date_parse = (\<lambda>_. Some 0),
     host_nonfinite_recs = (\<lambda>_ _. [(\<lparr>rec_id = ''s3'', title = ''S3'', impact_monthly = 0, effort = Low,
        rationale = [], actions = [], related = [], meta = []\<rparr>, PosInf)])\<rparr>"

section \<open>The client's view of the response\<close>

text \<open>
  The types the web client declares for the reply (\<open>App.tsx\<close>, \<open>Rec\<close> and \<open>ApiRes\<close>):
  a JSON value has the shape when each declared field is present with its type.
\<close>

fun json_is_str :: "yval option \<Rightarrow> bool" where
  "json_is_str (Some (YStr s)) = True"
| "json_is_str v = False"

fun json_is_num :: "yval option \<Rightarrow> bool" where
  "json_is_num (Some (YNum x)) = True"
| "json_is_num v = False"

fun json_is_str_array :: "yval option \<Rightarrow> bool" where
  "json_is_str_array (Some (YSeq xs)) = list_all (\<lambda>x. json_is_str (Some x)) xs"
| "json_is_str_array v = False"

definition rec_typed :: "yval \<Rightarrow> bool" where
  "rec_typed v \<longleftrightarrow> json_is_str (get_prop v ''id'') \<and> json_is_str (get_prop v ''title'') \<and>
     json_is_num (get_prop v ''impact_monthly'') \<and> json_is_str (get_prop v ''rationale'') \<and>
     json_is_str_array (get_prop v ''actions'') \<and> json_is_str (get_prop v ''effort'')"

definition api_res_typed :: "yval \<Rightarrow> bool" where
  "api_res_typed v \<longleftrightarrow> json_is_str (get_prop v ''provider'') \<and> json_is_num (get_prop v ''lei'') \<and>
     (case get_prop v ''recommendations'' of Some (YSeq xs) \<Rightarrow> list_all rec_typed xs | _ \<Rightarrow> False)"

section \<open>Lemmas\<close>

lemma nat_digits_hd_zero: "hd (nat_digits n) = CHR ''0'' \<Longrightarrow> n = 0"
proof (induction n rule: nat_digits.induct)
  case (1 n)
  show ?case
  proof (cases "n < 10")
    case True
    with "1.prems" have "char_of (48 + n) = CHR ''0''" by (simp add: nat_digits.simps [of n])
    then have "(of_char (char_of (48 + n) :: char) :: nat) = of_char (CHR ''0'')" by simp
    with True show ?thesis by simp
  next
    case False
    with "1.prems" have "hd (nat_digits (n div 10)) = CHR ''0''"
      by (simp add: nat_digits.simps [of n] nat_digits_ne)
    with False "1.IH" show ?thesis by simp
  qed
qed

lemma dropWhile_none: "(\<And>x. x \<in> set s \<Longrightarrow> \<not> P x) \<Longrightarrow> dropWhile P s = s"
  by (cases s) simp_all

lemma trim_ws_id:
  assumes "\<And>x. x \<in> set s \<Longrightarrow> \<not> js_ws x"
  shows "trim_ws s = s"
proof -
  have "dropWhile js_ws s = s" using assms by (rule dropWhile_none)
  moreover have "dropWhile js_ws (rev s) = rev s" using assms by (intro dropWhile_none) simp
  ultimately show ?thesis by (simp add: trim_ws_def)
qed

lemma decimal_literal_nat_digits: "decimal_literal (nat_digits n) = Some (Fin (real n))"
proof -
  obtain c cs where e: "nat_digits n = c # cs" and d: "is_digit c" using nat_digits_hd by blast
  have nm: "c \<noteq> CHR ''-''" "c \<noteq> CHR ''+''" "nat_digits n \<noteq> ''Infinity''"
    using d e by (auto simp: is_digit_def)
  have dv: "digits_value (c # cs) = n" using e digits_value_nat_digits [of n] by simp
  have d0: "digits_value [] = 0" by (simp add: digits_value_def)
  show ?thesis
    using e nm dv d0 takeWhile_nat_digits [of n] dropWhile_nat_digits [of n]
    by (simp add: decimal_literal_def Let_def exponent_part_def scale10_def)
qed

lemma js_to_number_nat_digits: "js_to_number (nat_digits n) = Fin (real n)"
proof (cases "nat_digits n")
  case Nil
  then show ?thesis using nat_digits_ne by simp
next
  case (Cons c cs)
  have t: "trim_ws (nat_digits n) = nat_digits n" by (rule trim_ws_id) (rule nat_digits_no_ws)
  have "c = CHR ''0'' \<Longrightarrow> cs = []"
    using nat_digits_hd_zero [of n] Cons by (auto simp: nat_digits.simps [of 0])
  then show ?thesis using t Cons decimal_literal_nat_digits [of n]
    by (auto simp: js_to_number_def Let_def split: list.split)
qed

lemma decimal_literal_neg_nat_digits: "decimal_literal (CHR ''-'' # nat_digits n) = Some (Fin (- real n))"
proof -
  obtain c cs where e: "nat_digits n = c # cs" and d: "is_digit c" using nat_digits_hd by blast
  have nm: "nat_digits n \<noteq> ''Infinity''" using d e by (auto simp: is_digit_def)
  have dv: "digits_value (c # cs) = n" using e digits_value_nat_digits [of n] by simp
  have d0: "digits_value [] = 0" by (simp add: digits_value_def)
  show ?thesis
    using e nm dv d0 takeWhile_nat_digits [of n] dropWhile_nat_digits [of n]
    by (simp add: decimal_literal_def Let_def exponent_part_def scale10_def)
qed

lemma js_to_number_neg_nat_digits: "js_to_number (CHR ''-'' # nat_digits n) = Fin (- real n)"
proof -
  have "trim_ws (CHR ''-'' # nat_digits n) = CHR ''-'' # nat_digits n"
    by (rule trim_ws_id) (auto simp: js_ws_def dest: nat_digits_no_ws)
  then show ?thesis using nat_digits_ne [of n] decimal_literal_neg_nat_digits [of n]
    by (auto simp: js_to_number_def Let_def split: list.split)
qed



lemma api_recommendations: "api_handle env GET ''/recommendations'' q = recommendations_reply env q"
  by (simp add: api_handle_def)



lemma api_not_get: "api_handle env POST path q = not_found_reply POST path"
  by (simp add: api_handle_def)

section \<open>Properties of the server\<close>



text \<open>
  C23. A non-finite impact breaks the client's type: when a demo batch has an infinite
  cost and the engine's recommendations carry an impact that is not a finite number
  (the code computes \<open>Infinity\<close> or \<open>NaN\<close>), the reply is 200 and its body is not of the
  declared type \<open>ApiRes\<close>, since \<open>JSON.stringify\<close> writes the impact as \<open>null\<close>.
\<close>

theorem api_infinite_impact_untyped:
  assumes "load_items env c = Inr zs" "finite_items zs = None"
    "(r, x) \<in> set (host_nonfinite_recs env zs c)" "\<not> (case x of Fin _ \<Rightarrow> True | _ \<Rightarrow> False)"
  shows "status (api_handle env GET ''/recommendations'' (Some (QStr (cloud_name c)))) = 200 \<and>
         \<not> api_res_typed (body (api_handle env GET ''/recommendations'' (Some (QStr (cloud_name c)))))"
proof -
  have n: "json_num x = YNull" using assms(4) by (cases x) simp_all
  have "\<not> rec_typed (json_of_rec_num (r, x))"
    using n by (simp add: rec_typed_def json_of_rec_num_def)
  then have "\<not> list_all rec_typed (map json_of_rec_num (host_nonfinite_recs env zs c))"
    using assms(3) by (auto simp: list_all_iff)
  then show ?thesis
    using assms(1,2) by (cases c) (simp_all add: api_recommendations recommendations_reply_def ok_reply_def
      api_res_typed_def)
qed

theorem api_infinite_impact_untyped_witness:
  "load_items infinity_env Aws =
     Inr [\<lparr>z_cloud = Aws, z_service = ''S3'', z_usage_type = [], z_resource_id = None, z_date = 0,
           z_cost = PosInf\<rparr>] \<and>
   finite_items [\<lparr>z_cloud = Aws, z_service = ''S3'', z_usage_type = [], z_resource_id = None, z_date = 0,
           z_cost = PosInf\<rparr>] = None \<and>
   (\<lparr>rec_id = ''s3'', title = ''S3'', impact_monthly = 0, effort = Low, rationale = [], actions = [],
     related = [], meta = []\<rparr>, PosInf) \<in>
     set (host_nonfinite_recs infinity_env [\<lparr>z_cloud = Aws, z_service = ''S3'', z_usage_type = [],
       z_resource_id = None, z_date = 0, z_cost = PosInf\<rparr>] Aws) \<and>
   \<not> (case PosInf of Fin _ \<Rightarrow> True | _ \<Rightarrow> False) \<and>
   status (api_handle infinity_env GET ''/recommendations'' (Some (QStr (cloud_name Aws)))) = 200 \<and>
   \<not> api_res_typed (body (api_handle infinity_env GET ''/recommendations'' (Some (QStr (cloud_name Aws)))))"
proof -
  have l: "load_items infinity_env Aws =
     Inr [\<lparr>z_cloud = Aws, z_service = ''S3'', z_usage_type = [], z_resource_id = None, z_date = 0,
           z_cost = PosInf\<rparr>]"
    by (simp add: load_items_def infinity_env_def load_csv_def csv_eval csv_row_of_def cost_item_parse_def
      load_row_def js_string_opt_def strip_ws_def parse_float_def)
  have f: "finite_items [\<lparr>z_cloud = Aws, z_service = ''S3'', z_usage_type = [], z_resource_id = None,
      z_date = 0, z_cost = PosInf\<rparr>] = None"
    by (simp add: item_of_zod_def)
  show ?thesis
    using api_infinite_impact_untyped [OF l f] l f by (simp add: infinity_env_def)
qed

text \<open>
  \<open>/api/check-razorpay\<close> reports \<open>key_id_loaded: true\<close> whatever the environment:
  the fallback \<open>"not_set"\<close> is a non-empty string, so \<open>!!key\<close> is always true and the
  flag cannot tell a missing key.
\<close>

theorem razorpay_always_loaded:
  "get_prop (body (api_handle env GET ''/api/check-razorpay'' q)) ''key_id_loaded'' = Some (YBool True)"
  by (simp add: api_handle_def ok_reply_def check_razorpay_def Let_def split: option.split)

text \<open>
  The port: without \<open>PORT\<close> (or with an empty one) the server uses 8787, and a
  \<open>PORT\<close> holding the decimal digits of \<open>n\<close> is read back as \<open>n\<close>.
\<close>

theorem server_port_roundtrip:
  "server_port None = Fin 8787 \<and> server_port (Some []) = Fin 8787 \<and>
   server_port (Some (nat_digits n)) = Fin (real n)"
  using js_to_number_nat_digits nat_digits_ne by (simp add: server_port_def)

end
