(* ===== verification/WebUi.thy ===== *)
theory WebUi
  imports Server
begin

text \<open>
  The web client, \<open>src/apps/web/src/ui/App.tsx\<close>. Its state is the two \<open>useState\<close>
  hooks (\<open>provider\<close>, \<open>data\<close>) and the requests the \<open>useEffect\<close> on \<open>[provider]\<close> has
  sent and that have not settled yet (\<open>ui_pending\<close>, in the order they were sent). The
  events are the user's choice in the provider \<open><select>\<close>, the answer of one pending
  request (\<open>.then(r => r.json()).then(setData)\<close>, for any HTTP status), and the failure
  of one (the rejected promise has no handler: nothing changes). The network may answer
  the pending requests in any order, so the steps are a relation over the events
  (\<open>ui_reach\<close>), restricted where stated to answers in the order of the requests. The
  server the client talks to is a parameter \<open>srv\<close> (the body it answers for a
  provider); \<open>ui_server\<close> instantiates it with the API model of the Server theory. The
  rendered data is modelled as the values the render reads: the pie's slices
  (\<open>pie\<close>), the rows of the savings table with the rupee amount
  \<open>(r.impact_monthly*83).toFixed(0)\<close>, and the LEI pill; a property read that throws
  during render is a \<open>dsl_error\<close>. The Compile Plan button is its click handler. The
  JSX layout, styles and the chart library are not modelled.
\<close>

section \<open>JavaScript helpers\<close>

text \<open>\<open>xs.map(f)\<close> where \<open>f\<close> may throw: the first throw ends the map.\<close>

fun map_sum :: "('a \<Rightarrow> 'e + 'b) \<Rightarrow> 'a list \<Rightarrow> 'e + 'b list" where
  "map_sum f [] = Inr []"
| "map_sum f (x # xs) =
     (case f x of Inl e \<Rightarrow> Inl e | Inr y \<Rightarrow> (case map_sum f xs of Inl e \<Rightarrow> Inl e | Inr ys \<Rightarrow> Inr (y # ys)))"

text \<open>\<open>d?.k ?? dflt\<close> for \<open>d\<close> a value or \<open>null\<close> (\<open>None\<close>).\<close>

definition opt_prop_or :: "yval option \<Rightarrow> string \<Rightarrow> yval \<Rightarrow> yval" where
  "opt_prop_or d k dflt =
     (case d of
        None \<Rightarrow> dflt
      | Some v \<Rightarrow> (case (if v = YNull then None else get_prop v k) of
                    None \<Rightarrow> dflt
                  | Some YNull \<Rightarrow> dflt
                  | Some x \<Rightarrow> x))"

text \<open>
  \<open>ToNumber\<close> of a value, as \<open>*\<close> applies it: \<open>undefined\<close> is NaN, \<open>null\<close> 0, a string
  goes through \<open>Number\<close>, a plain object is NaN, and an array through its string
  (\<open>join\<close>): empty is 0, one element is that element's string, more contain a comma.
\<close>

fun js_to_num_val :: "yval option \<Rightarrow> js_num" where
  "js_to_num_val None = NaN"
| "js_to_num_val (Some YNull) = Fin 0"
| "js_to_num_val (Some (YBool b)) = Fin (if b then 1 else 0)"
| "js_to_num_val (Some (YNum x)) = Fin x"
| "js_to_num_val (Some (YStr s)) = js_to_number s"
| "js_to_num_val (Some (YMap kvs)) = NaN"
| "js_to_num_val (Some (YSeq [])) = Fin 0"
| "js_to_num_val (Some (YSeq [x])) = (case x of YBool b \<Rightarrow> NaN | _ \<Rightarrow> js_to_num_val (Some x))"
| "js_to_num_val (Some (YSeq (x # y # zs))) = NaN"

text \<open>\<open>v * 83\<close>\<close>

definition js_times83 :: "js_num \<Rightarrow> js_num" where
  "js_times83 v = (case v of Fin x \<Rightarrow> Fin (x * 83) | w \<Rightarrow> w)"

text \<open>
  \<open>Number.prototype.toFixed(0)\<close>: the sign, then the integer nearest to the magnitude
  (the larger on a tie); from \<open>10^21\<close> on the digits are \<open>Number::toString\<close> of the
  double, the parameter \<open>num_str\<close>, which exact reals cannot determine.
\<close>

definition js_to_fixed0 :: "(real \<Rightarrow> string) \<Rightarrow> js_num \<Rightarrow> string" where
  "js_to_fixed0 num_str v =
     (case v of
        NaN \<Rightarrow> ''NaN''
      | PosInf \<Rightarrow> ''Infinity''
      | NegInf \<Rightarrow> ''-Infinity''
      | Fin x \<Rightarrow> (if x < 0 then ''-'' else []) @
                 (if 10 ^ 21 \<le> \<bar>x\<bar> then num_str \<bar>x\<bar> else nat_digits (nat \<lfloor>\<bar>x\<bar> + 1 / 2\<rfloor>)))"

definition rupee_sign :: string where
  "rupee_sign = [CHR 0xE2, CHR 0x82, CHR 0xB9]"

definition ellipsis :: string where
  "ellipsis = [CHR 0xE2, CHR 0x80, CHR 0xA6]"

section \<open>What the render reads\<close>

text \<open>\<open>(data?.recommendations ?? [])\<close>, and the LEI pill \<open>data?.lei ?? "..."\<close>.\<close>

definition ui_recommendations :: "yval option \<Rightarrow> yval" where
  "ui_recommendations d = opt_prop_or d ''recommendations'' (YSeq [])"

definition ui_lei :: "yval option \<Rightarrow> yval" where
  "ui_lei d = opt_prop_or d ''lei'' (YStr ellipsis)"

text \<open>\<open>pie\<close>: \<open>.slice(0,5).map(r => ({ name: r.title, value: r.impact_monthly }))\<close>.\<close>

definition ui_pie :: "yval option \<Rightarrow> dsl_error + (yval option \<times> yval option) list" where
  "ui_pie d =
     (case ui_recommendations d of
        YSeq xs \<Rightarrow> map_sum (\<lambda>r. case read_prop r ''title'' of
                                  Inl e \<Rightarrow> Inl e
                                | Inr t \<Rightarrow> Inr (t, get_prop r ''impact_monthly'')) (take 5 xs)
      | YStr s \<Rightarrow> Inl (TypeError ''(data?.recommendations ?? []).slice(...).map is not a function'')
      | _ \<Rightarrow> Inl (TypeError ''(data?.recommendations ?? []).slice is not a function''))"

text \<open>
  One row of the savings table: the \<open>key\<close> \<open>r.id\<close> (read first), the title, and the
  text: the rupee sign, a space and \<open>(r.impact_monthly*83).toFixed(0)\<close>.
\<close>

record table_row =
  row_key :: "yval option"
  row_title :: "yval option"
  row_amount :: string

definition ui_row :: "(real \<Rightarrow> string) \<Rightarrow> yval \<Rightarrow> dsl_error + table_row" where
  "ui_row num_str r =
     (case read_prop r ''id'' of
        Inl e \<Rightarrow> Inl e
      | Inr k \<Rightarrow> Inr \<lparr>row_key = k, row_title = get_prop r ''title'',
                     row_amount = rupee_sign @ '' '' @
                       js_to_fixed0 num_str (js_times83 (js_to_num_val (get_prop r ''impact_monthly'')))\<rparr>)"

definition ui_table :: "(real \<Rightarrow> string) \<Rightarrow> yval option \<Rightarrow> dsl_error + table_row list" where
  "ui_table num_str d =
     (case ui_recommendations d of
        YSeq xs \<Rightarrow> map_sum (ui_row num_str) xs
      | _ \<Rightarrow> Inl (TypeError ''(data?.recommendations ?? []).map is not a function''))"

section \<open>The render\<close>

text \<open>
  A value rendered as a React child: strings, numbers, booleans, \<open>null\<close> and
  \<open>undefined\<close> render (the last three as nothing), an array renders its elements, and a
  plain object throws (\<open>Objects are not valid as a React child\<close>).
\<close>

fun react_val_ok :: "yval \<Rightarrow> bool" where
  "react_val_ok (YMap kvs) = False"
| "react_val_ok (YSeq xs) = list_all react_val_ok xs"
| "react_val_ok v = True"

fun react_child_ok :: "yval option \<Rightarrow> bool" where
  "react_child_ok None = True"
| "react_child_ok (Some v) = react_val_ok v"

datatype render_error = Thrown dsl_error | InvalidChild

text \<open>
  What one render of \<open>App\<close> shows: the LEI pill, the pie's slices and the keys of its
  cells (\<open>pie.map((entry, index) => <Cell key={`c-${index}`} />)\<close>), and the table rows.
\<close>

record ui_view =
  view_lei :: yval
  view_pie :: "(yval option \<times> yval option) list"
  view_cells :: "string list"
  view_rows :: "table_row list"

text \<open>
  The render in evaluation order: \<open>useMemo\<close> computes \<open>pie\<close>, the JSX builds the pie's
  cells and then the table rows (reading \<open>r.id\<close>, \<open>r.title\<close>, \<open>r.impact_monthly\<close>), and
  React then renders the children, the LEI pill first.
\<close>

definition ui_render :: "(real \<Rightarrow> string) \<Rightarrow> yval option \<Rightarrow> render_error + ui_view" where
  "ui_render num_str d =
     (case ui_pie d of
        Inl e \<Rightarrow> Inl (Thrown e)
      | Inr pie \<Rightarrow>
          (case ui_table num_str d of
             Inl e \<Rightarrow> Inl (Thrown e)
           | Inr rows \<Rightarrow>
               (if react_child_ok (Some (ui_lei d)) \<and> list_all (\<lambda>r. react_child_ok (row_title r)) rows
                then Inr \<lparr>view_lei = ui_lei d, view_pie = pie,
                          view_cells = map (\<lambda>i. ''c-'' @ nat_digits i) [0..<length pie], view_rows = rows\<rparr>
                else Inl InvalidChild)))"

section \<open>The Compile Plan button\<close>

text \<open>\<open>xs[0]\<close> on a value that is not \<open>null\<close> or \<open>undefined\<close>.\<close>

fun js_index0 :: "yval \<Rightarrow> yval option" where
  "js_index0 (YSeq xs) = (case xs of [] \<Rightarrow> None | x # _ \<Rightarrow> Some x)"
| "js_index0 (YStr s) = (case s of [] \<Rightarrow> None | c # _ \<Rightarrow> Some (YStr [c]))"
| "js_index0 (YMap kvs) = map_of kvs ''0''"
| "js_index0 v = None"

text \<open>\<open>v.length\<close> on a value that is not \<open>null\<close> or \<open>undefined\<close>.\<close>

fun js_length :: "yval \<Rightarrow> yval option" where
  "js_length (YSeq xs) = Some (YNum (real (length xs)))"
| "js_length (YStr s) = Some (YNum (real (length s)))"
| "js_length (YMap kvs) = map_of kvs ''length''"
| "js_length v = None"

text \<open>\<open>json.plan[0]?.steps.length\<close>, the value the alert prints (\<open>None\<close>: \<open>undefined\<close>).\<close>

definition plan_steps_length :: "yval \<Rightarrow> dsl_error + yval option" where
  "plan_steps_length json =
     (case read_prop json ''plan'' of
        Inl e \<Rightarrow> Inl e
      | Inr p \<Rightarrow>
          (case p of
             None \<Rightarrow> Inl (TypeError ''Cannot read properties of undefined (reading '0')'')
           | Some YNull \<Rightarrow> Inl (TypeError ''Cannot read properties of null (reading '0')'')
           | Some pl \<Rightarrow> (case js_index0 pl of
                   None \<Rightarrow> Inr None
                 | Some YNull \<Rightarrow> Inr None
                 | Some it \<Rightarrow>
                     (case get_prop it ''steps'' of
                        None \<Rightarrow> Inl (TypeError ''Cannot read properties of undefined (reading 'length')'')
                      | Some YNull \<Rightarrow> Inl (TypeError ''Cannot read properties of null (reading 'length')'')
                      | Some st \<Rightarrow> Inr (js_length st)))))"

text \<open>
  The default text of the YAML textarea, as \<open>YAML.parse\<close> reads it: one action with an
  id, a quoted title and two structured steps.
\<close>

definition default_yaml_doc :: yval where
  "default_yaml_doc =
     YMap [(''actions'', YSeq [YMap [(''id'', YStr ''cosmos-to-supabase''),
        (''title'', YStr (''Migrate Azure CosmosDB '' @ right_arrow @ '' Supabase'')),
        (''steps'', YSeq [YMap [(''run'', YStr ''pg_dump ...'')], YMap [(''run'', YStr ''pg_restore ...'')]])]])]"

text \<open>The click: \<open>POST /actions/plan\<close> to the API, then \<open>res.json()\<close> and the alert.\<close>

definition plan_click :: "server_env \<Rightarrow> dsl_error + yval option" where
  "plan_click env = plan_steps_length (body (api_handle env POST ''/actions/plan'' None))"

section \<open>The state machine\<close>

record ui_state =
  ui_provider :: cloud
  ui_data :: "yval option"
  ui_pending :: "cloud list"

text \<open>After the first render: \<open>provider = "aws"\<close>, \<open>data = null\<close>, and the effect's request.\<close>

definition ui_init :: ui_state where
  "ui_init = \<lparr>ui_provider = Aws, ui_data = None, ui_pending = [Aws]\<rparr>"

datatype ui_event = Select cloud | Respond nat | Fail nat

definition remove_at :: "nat \<Rightarrow> 'a list \<Rightarrow> 'a list" where
  "remove_at i xs = take i xs @ drop (Suc i) xs"

text \<open>
  \<open>setProvider(p)\<close>; when the value changed, the effect on \<open>[provider]\<close> runs again and
  sends \<open>/recommendations?provider=p\<close>. No cleanup cancels or ignores the earlier
  request.
\<close>

definition ui_select :: "cloud \<Rightarrow> ui_state \<Rightarrow> ui_state" where
  "ui_select p s = (if p = ui_provider s then s else s\<lparr>ui_provider := p, ui_pending := ui_pending s @ [p]\<rparr>)"

text \<open>The \<open>i\<close>-th pending request answers: \<open>setData\<close> of its body, whatever is selected now.\<close>

definition ui_respond :: "(cloud \<Rightarrow> yval) \<Rightarrow> nat \<Rightarrow> ui_state \<Rightarrow> ui_state option" where
  "ui_respond srv i s =
     (if i < length (ui_pending s)
      then Some (s\<lparr>ui_data := Some (srv (ui_pending s ! i)), ui_pending := remove_at i (ui_pending s)\<rparr>)
      else None)"

definition ui_fail :: "nat \<Rightarrow> ui_state \<Rightarrow> ui_state option" where
  "ui_fail i s = (if i < length (ui_pending s) then Some (s\<lparr>ui_pending := remove_at i (ui_pending s)\<rparr>) else None)"

fun ui_apply :: "(cloud \<Rightarrow> yval) \<Rightarrow> ui_state \<Rightarrow> ui_event \<Rightarrow> ui_state option" where
  "ui_apply srv s (Select p) = Some (ui_select p s)"
| "ui_apply srv s (Respond i) = ui_respond srv i s"
| "ui_apply srv s (Fail i) = ui_fail i s"

fun ui_run :: "(cloud \<Rightarrow> yval) \<Rightarrow> ui_state \<Rightarrow> ui_event list \<Rightarrow> ui_state option" where
  "ui_run srv s [] = Some s"
| "ui_run srv s (e # es) = (case ui_apply srv s e of None \<Rightarrow> None | Some s' \<Rightarrow> ui_run srv s' es)"

text \<open>Which events a network allows: any, or answers in request order and no failure.\<close>

fun any_event :: "ui_event \<Rightarrow> bool" where
  "any_event e = True"

fun in_order :: "ui_event \<Rightarrow> bool" where
  "in_order (Select p) = True"
| "in_order (Respond i) = (i = 0)"
| "in_order (Fail i) = False"

fun net_event :: "ui_event \<Rightarrow> bool" where
  "net_event (Select p) = False"
| "net_event (Respond i) = True"
| "net_event (Fail i) = True"

inductive ui_reach :: "(ui_event \<Rightarrow> bool) \<Rightarrow> (cloud \<Rightarrow> yval) \<Rightarrow> ui_state \<Rightarrow> bool"
  for ok :: "ui_event \<Rightarrow> bool" and srv :: "cloud \<Rightarrow> yval" where
  init: "ui_reach ok srv ui_init"
| step: "ui_reach ok srv s \<Longrightarrow> ok e \<Longrightarrow> ui_apply srv s e = Some s' \<Longrightarrow> ui_reach ok srv s'"

text \<open>The client against the API model: \<open>api(`/recommendations?provider=${provider}`)\<close>.\<close>

definition ui_server :: "server_env \<Rightarrow> cloud \<Rightarrow> yval" where
  "ui_server env c = body (api_handle env GET ''/recommendations'' (Some (QStr (cloud_name c))))"

section \<open>Abstract views\<close>

text \<open>A recommendation as the client shows it in the table and in the pie.\<close>

definition rec_row :: "(real \<Rightarrow> string) \<Rightarrow> recommendation \<Rightarrow> table_row" where
  "rec_row ns r = \<lparr>row_key = Some (YStr (rec_id r)), row_title = Some (YStr (title r)),
      row_amount = rupee_sign @ '' '' @ js_to_fixed0 ns (Fin (impact_monthly r * 83))\<rparr>"

definition rec_slice :: "recommendation \<Rightarrow> yval option \<times> yval option" where
  "rec_slice r = (Some (YStr (title r)), Some (YNum (impact_monthly r)))"

text \<open>A server whose only demo file is the AWS batch of the specification.\<close>

definition demo_env :: server_env where
  "demo_env = \<lparr>env_port = None, env_razorpay_key = None,
     demo_files = (\<lambda>c. if c = Aws then Some
        (''date,service,cost'' @ CHR 0x0A # ''2024-01-01,EC2,400'' @ CHR 0x0A # ''2024-01-01,S3,100'' @ [CHR 0x0A])
        else None),
     env_date_parse = (\<lambda>_. Some 0), host_nonfinite_recs = (\<lambda>_ _. [])\<rparr>"

text \<open>The items the loader validates from that file.\<close>

definition demo_batch :: "zod_item list" where
  "demo_batch =
     [\<lparr>z_cloud = Aws, z_service = ''EC2'', z_usage_type = [], z_resource_id = None, z_date = 0, z_cost = Fin 400\<rparr>,
      \<lparr>z_cloud = Aws, z_service = ''S3'', z_usage_type = [], z_resource_id = None, z_date = 0, z_cost = Fin 100\<rparr>]"

text \<open>
  The invariant of in-order answers: with nothing pending the selected provider's answer
  is shown, otherwise the last request sent is for the selected provider.
\<close>

definition in_order_inv :: "(cloud \<Rightarrow> yval) \<Rightarrow> ui_state \<Rightarrow> bool" where
  "in_order_inv srv s \<longleftrightarrow>
     (if ui_pending s = [] then ui_data s = Some (srv (ui_provider s)) else last (ui_pending s) = ui_provider s)"

section \<open>Lemmas\<close>

lemma map_sum_map_Inr:
  "(\<And>x. x \<in> set xs \<Longrightarrow> f (g x) = Inr (h x)) \<Longrightarrow> map_sum f (map g xs) = Inr (map h xs)"
  by (induction xs) auto

lemma remove_at_0 [simp]: "remove_at 0 xs = tl xs"
  by (simp add: remove_at_def drop_Suc)

lemma length_remove_at [simp]: "i < length xs \<Longrightarrow> length (remove_at i xs) = length xs - 1"
  by (simp add: remove_at_def)

lemma ui_run_reach:
  "ui_reach ok srv s \<Longrightarrow> list_all ok es \<Longrightarrow> ui_run srv s es = Some t \<Longrightarrow> ui_reach ok srv t"
proof (induction es arbitrary: s)
  case Nil
  then show ?case by simp
next
  case (Cons e es)
  then obtain s' where "ui_apply srv s e = Some s'" "ui_run srv s' es = Some t"
    by (auto split: option.splits)
  with Cons show ?case by (auto intro: ui_reach.step)
qed

lemma ui_reach_data: "ui_reach ok srv s \<Longrightarrow> ui_data s = None \<or> (\<exists>c. ui_data s = Some (srv c))"
proof (induction rule: ui_reach.induct)
  case init
  then show ?case by (simp add: ui_init_def)
next
  case (step s e s')
  then show ?case
    by (cases e) (auto simp: ui_select_def ui_respond_def ui_fail_def split: if_splits)
qed

lemma in_order_step:
  assumes "in_order_inv srv s" "in_order e" "ui_apply srv s e = Some s'"
  shows "in_order_inv srv s'"
proof (cases e)
  case (Select p)
  with assms show ?thesis by (auto simp: in_order_inv_def ui_select_def)
next
  case (Respond i)
  with assms have i: "i = 0" and ne: "ui_pending s \<noteq> []"
    and s': "s' = s\<lparr>ui_data := Some (srv (hd (ui_pending s))), ui_pending := tl (ui_pending s)\<rparr>"
    by (auto simp: ui_respond_def hd_conv_nth split: if_splits)
  show ?thesis
  proof (cases "tl (ui_pending s) = []")
    case True
    with ne obtain x where x: "ui_pending s = [x]" by (cases "ui_pending s") auto
    with assms(1) s' show ?thesis by (auto simp: in_order_inv_def)
  next
    case False
    with assms(1) ne s' show ?thesis by (auto simp: in_order_inv_def last_tl)
  qed
next
  case (Fail i)
  with assms show ?thesis by simp
qed

lemma ui_reach_in_order: "ui_reach in_order srv s \<Longrightarrow> in_order_inv srv s"
proof (induction rule: ui_reach.induct)
  case init
  then show ?case by (simp add: in_order_inv_def ui_init_def)
next
  case (step s e s')
  from step.IH step.hyps(2,3) show ?case by (rule in_order_step)
qed

lemma drain_in_order:
  "ui_pending s = xs \<Longrightarrow> xs \<noteq> [] \<Longrightarrow>
   ui_run srv s (replicate (length xs) (Respond 0)) =
     Some (s\<lparr>ui_data := Some (srv (last xs)), ui_pending := []\<rparr>)"
proof (induction xs arbitrary: s)
  case Nil
  then show ?case by simp
next
  case (Cons x xs)
  show ?case
  proof (cases xs)
    case Nil
    with Cons.prems show ?thesis by (simp add: ui_respond_def)
  next
    case (Cons y ys)
    let ?s1 = "s\<lparr>ui_data := Some (srv x), ui_pending := xs\<rparr>"
    have "ui_respond srv 0 s = Some ?s1" using Cons.prems by (simp add: ui_respond_def)
    moreover have "ui_run srv ?s1 (replicate (length xs) (Respond 0)) =
        Some (?s1\<lparr>ui_data := Some (srv (last xs)), ui_pending := []\<rparr>)"
      using Cons by (intro Cons.IH) simp_all
    ultimately show ?thesis using Cons Cons.prems by simp
  qed
qed

lemma ui_row_json: "ui_row ns (json_of_rec r) = Inr (rec_row ns r)"
  by (simp add: ui_row_def json_of_rec_def read_prop_def rec_row_def js_times83_def)

lemma ui_recommendations_json:
  "ui_recommendations (Some (json_of_response r)) = YSeq (map json_of_rec (recommendations r))"
  by (simp add: ui_recommendations_def opt_prop_or_def json_of_response_def)

lemma ui_recommendations_error: "ui_recommendations (Some (body (error_reply e))) = YSeq []"
  by (simp add: ui_recommendations_def opt_prop_or_def error_reply_def)

lemma ui_table_json: "ui_table ns (Some (json_of_response r)) = Inr (map (rec_row ns) (recommendations r))"
  by (simp add: ui_table_def ui_recommendations_json map_sum_map_Inr ui_row_json)

lemma ui_pie_json: "ui_pie (Some (json_of_response r)) = Inr (map rec_slice (take 5 (recommendations r)))"
  by (simp add: ui_pie_def ui_recommendations_json take_map map_sum_map_Inr json_of_rec_def
      read_prop_def rec_slice_def)

lemma ui_table_error: "ui_table ns (Some (body (error_reply e))) = Inr []"
  by (simp add: ui_table_def ui_recommendations_error)

lemma ui_pie_error: "ui_pie (Some (body (error_reply e))) = Inr []"
  by (simp add: ui_pie_def ui_recommendations_error)

lemma ui_server_cases:
  "(\<exists>e. ui_server env c = body (error_reply e)) \<or> (\<exists>r. ui_server env c = json_of_response r) \<or>
   (\<exists>p l xs. ui_server env c =
      YMap [(''provider'', YStr p), (''lei'', YNum l), (''recommendations'', YSeq (map json_of_rec_num xs))])"
  by (cases c; auto simp: ui_server_def api_recommendations recommendations_reply_def ok_reply_def Let_def
      split: sum.split option.split)

lemma ui_server_loaded:
  "load_items env c = Inr zs \<Longrightarrow> finite_items zs = Some items \<Longrightarrow>
   ui_server env c = json_of_response \<lparr>resp_provider = cloud_name c, lei = compute_lei items,
                                       recommendations = generate_recommendations items c\<rparr>"
  by (cases c) (simp_all add: ui_server_def api_recommendations recommendations_reply_def ok_reply_def)

lemma js_to_fixed0_number:
  assumes "\<bar>x\<bar> < 10 ^ 21"
  shows "\<exists>y. js_to_number (js_to_fixed0 ns (Fin x)) = Fin y \<and> \<bar>y - x\<bar> \<le> 1 / 2"
proof -
  let ?n = "nat \<lfloor>\<bar>x\<bar> + 1 / 2\<rfloor>"
  have n: "real ?n = of_int \<lfloor>\<bar>x\<bar> + 1 / 2\<rfloor>" by simp
  have b: "\<bar>real ?n - \<bar>x\<bar>\<bar> \<le> 1 / 2" unfolding n by linarith
  show ?thesis
  proof (cases "x < 0")
    case True
    then have "js_to_number (js_to_fixed0 ns (Fin x)) = Fin (- real ?n)"
      using assms by (simp add: js_to_fixed0_def js_to_number_neg_nat_digits)
    moreover have "\<bar>- real ?n - x\<bar> \<le> 1 / 2" using b True by linarith
    ultimately show ?thesis by blast
  next
    case False
    then have "js_to_number (js_to_fixed0 ns (Fin x)) = Fin (real ?n)"
      using assms by (simp add: js_to_fixed0_def js_to_number_nat_digits)
    moreover have "\<bar>real ?n - x\<bar> \<le> 1 / 2" using b False by linarith
    ultimately show ?thesis by blast
  qed
qed

lemma ui_render_cells: "ui_render ns d = Inr v \<Longrightarrow> distinct (view_cells v)"
  by (auto simp: ui_render_def distinct_map inj_on_def nat_digits_inj [THEN injD]
      split: sum.splits if_splits)

lemma ui_lei_json: "ui_lei (Some (json_of_response r)) = YNum (of_int (lei r))"
  by (simp add: ui_lei_def opt_prop_or_def json_of_response_def)

lemma ui_render_json:
  "ui_render ns (Some (json_of_response r)) =
     Inr \<lparr>view_lei = YNum (of_int (lei r)), view_pie = map rec_slice (take 5 (recommendations r)),
          view_cells = map (\<lambda>i. ''c-'' @ nat_digits i) [0..<length (take 5 (recommendations r))],
          view_rows = map (rec_row ns) (recommendations r)\<rparr>"
  by (simp add: ui_render_def ui_pie_json ui_table_json ui_lei_json list_all_iff rec_row_def)

lemma ui_row_num:
  "ui_row ns (json_of_rec_num (r, x)) =
     Inr \<lparr>row_key = Some (YStr (rec_id r)), row_title = Some (YStr (title r)),
          row_amount = rupee_sign @ '' '' @ js_to_fixed0 ns (js_times83 (js_to_num_val (Some (json_num x))))\<rparr>"
  by (simp add: ui_row_def json_of_rec_num_def read_prop_def)

lemma ui_render_nonfinite:
  "\<exists>v. ui_render ns (Some (YMap [(''provider'', YStr p), (''lei'', YNum l),
                                  (''recommendations'', YSeq (map json_of_rec_num xs))])) = Inr v"
proof -
  let ?d = "Some (YMap [(''provider'', YStr p), (''lei'', YNum l), (''recommendations'', YSeq (map json_of_rec_num xs))])"
  have rs: "ui_recommendations ?d = YSeq (map json_of_rec_num xs)"
    by (simp add: ui_recommendations_def opt_prop_or_def)
  have "ui_pie ?d = Inr (map (\<lambda>(r, x). (Some (YStr (title r)), Some (json_num x))) (take 5 xs))"
  proof -
    have "ui_pie ?d = map_sum (\<lambda>r. case read_prop r ''title'' of Inl e \<Rightarrow> Inl e
                                      | Inr t \<Rightarrow> Inr (t, get_prop r ''impact_monthly''))
                        (map json_of_rec_num (take 5 xs))"
      by (simp add: ui_pie_def rs take_map)
    also have "\<dots> = Inr (map (\<lambda>(r, x). (Some (YStr (title r)), Some (json_num x))) (take 5 xs))"
      by (rule map_sum_map_Inr) (auto simp: json_of_rec_num_def read_prop_def)
    finally show ?thesis .
  qed
  moreover have "ui_table ns ?d = Inr (map (\<lambda>(r, x). \<lparr>row_key = Some (YStr (rec_id r)), row_title = Some (YStr (title r)),
          row_amount = rupee_sign @ '' '' @ js_to_fixed0 ns (js_times83 (js_to_num_val (Some (json_num x))))\<rparr>) xs)"
  proof -
    have "ui_table ns ?d = map_sum (ui_row ns) (map json_of_rec_num xs)" by (simp add: ui_table_def rs)
    also have "\<dots> = Inr (map (\<lambda>(r, x). \<lparr>row_key = Some (YStr (rec_id r)), row_title = Some (YStr (title r)),
          row_amount = rupee_sign @ '' '' @ js_to_fixed0 ns (js_times83 (js_to_num_val (Some (json_num x))))\<rparr>) xs)"
      by (rule map_sum_map_Inr) (auto simp: ui_row_num)
    finally show ?thesis .
  qed
  moreover have "ui_lei ?d = YNum l" by (simp add: ui_lei_def opt_prop_or_def)
  ultimately show ?thesis by (simp add: ui_render_def list_all_iff split_beta)
qed

lemma ui_render_None:
  "ui_render ns None = Inr \<lparr>view_lei = YStr ellipsis, view_pie = [], view_cells = [], view_rows = []\<rparr>"
  by (simp add: ui_render_def ui_pie_def ui_table_def ui_lei_def ui_recommendations_def opt_prop_or_def)

lemma ui_lei_error: "ui_lei (Some (body (error_reply e))) = YStr ellipsis"
  by (simp add: ui_lei_def opt_prop_or_def error_reply_def)

lemma ui_render_error_reply:
  "ui_render ns (Some (body (error_reply e))) =
     Inr \<lparr>view_lei = YStr ellipsis, view_pie = [], view_cells = [], view_rows = []\<rparr>"
  by (simp add: ui_render_def ui_pie_error ui_table_error ui_lei_error ellipsis_def)

lemma load_items_demo_env: "load_items demo_env Aws = Inr demo_batch"
  by (simp add: load_items_def demo_env_def load_csv_def csv_eval csv_row_of_def cost_item_parse_def
      load_row_def js_string_opt_def strip_ws_def parse_float_def exponent_of_def scale10_def digits_value_def
      digit_val_def is_digit_def demo_batch_def)

lemma finite_demo_batch: "finite_items demo_batch = Some example_items"
  by (simp add: demo_batch_def item_of_zod_def example_items_def row_item_def)

text \<open>The default action of the textarea compiles to one plan with two steps.\<close>

lemma default_plan_compiles:
  "compile_actions (Inr default_yaml_doc) =
     Inr [\<lparr>plan_id = Some (YStr ''cosmos-to-supabase''),
           plan_title = Some (YStr (''Migrate Azure CosmosDB '' @ right_arrow @ '' Supabase'')),
           steps = [YMap [(''run'', YStr ''pg_dump ...'')], YMap [(''run'', YStr ''pg_restore ...'')]]\<rparr>]"
  by (simp add: dsl_eval default_yaml_doc_def)

section \<open>Properties of the client\<close>

text \<open>
  C24. When the network answers the requests in the order they were sent, a client
  with no request pending shows the server's answer for the provider selected.
\<close>

theorem ui_in_order_shows_selection:
  "ui_reach in_order srv s \<Longrightarrow> ui_pending s = [] \<Longrightarrow> ui_data s = Some (srv (ui_provider s))"
  using ui_reach_in_order [of srv s] by (simp add: in_order_inv_def)

theorem ui_in_order_shows_selection_witness:
  "ui_reach in_order (\<lambda>c. YStr (cloud_name c)) \<lparr>ui_provider = Azure, ui_data = Some (YStr ''azure''), ui_pending = []\<rparr> \<and>
   ui_pending \<lparr>ui_provider = Azure, ui_data = Some (YStr ''azure''), ui_pending = []\<rparr> = [] \<and>
   ui_data \<lparr>ui_provider = Azure, ui_data = Some (YStr ''azure''), ui_pending = []\<rparr> =
     Some ((\<lambda>c. YStr (cloud_name c)) (ui_provider \<lparr>ui_provider = Azure, ui_data = Some (YStr ''azure''), ui_pending = []\<rparr>))"
proof -
  have r: "ui_run (\<lambda>c. YStr (cloud_name c)) ui_init [Select Azure, Respond 0, Respond 0] =
             Some \<lparr>ui_provider = Azure, ui_data = Some (YStr ''azure''), ui_pending = []\<rparr>"
    by (simp add: ui_init_def ui_select_def ui_respond_def)
  have h: "ui_reach in_order (\<lambda>c. YStr (cloud_name c)) \<lparr>ui_provider = Azure, ui_data = Some (YStr ''azure''), ui_pending = []\<rparr>"
    by (rule ui_run_reach [OF ui_reach.init _ r]) simp
  show ?thesis using h ui_in_order_shows_selection [OF h] by simp
qed

text \<open>
  C25. An answer to a superseded request overwrites the current one: after selecting
  Azure, the client shows Azure's answer while the earlier AWS request is still
  pending; when that answer arrives it replaces \<open>data\<close>, leaving AWS's LEI and
  recommendations under the Azure selection with nothing pending. The effect has no
  cleanup that would ignore it, and only a new selection changes the state again.
\<close>

theorem ui_stale_answer:
  "ui_reach any_event srv \<lparr>ui_provider = Azure, ui_data = Some (srv Azure), ui_pending = [Aws]\<rparr> \<and>
   ui_apply srv \<lparr>ui_provider = Azure, ui_data = Some (srv Azure), ui_pending = [Aws]\<rparr> (Respond 0) =
     Some \<lparr>ui_provider = Azure, ui_data = Some (srv Aws), ui_pending = []\<rparr>"
proof
  have r: "ui_run srv ui_init [Select Azure, Respond 1] =
          Some \<lparr>ui_provider = Azure, ui_data = Some (srv Azure), ui_pending = [Aws]\<rparr>"
    by (simp add: ui_init_def ui_select_def ui_respond_def remove_at_def)
  show "ui_reach any_event srv \<lparr>ui_provider = Azure, ui_data = Some (srv Azure), ui_pending = [Aws]\<rparr>"
    by (rule ui_run_reach [OF ui_reach.init _ r]) simp
  show "ui_apply srv \<lparr>ui_provider = Azure, ui_data = Some (srv Azure), ui_pending = [Aws]\<rparr> (Respond 0) =
     Some \<lparr>ui_provider = Azure, ui_data = Some (srv Aws), ui_pending = []\<rparr>"
    by (simp add: ui_respond_def)
qed

text \<open>
  C26. From every state reachable with in-order answers, answering the pending requests
  (as many steps as there are requests) reaches a state with nothing pending that shows
  the answer for the provider selected.
\<close>

theorem ui_eventually_shows_selection:
  assumes "ui_reach in_order srv s"
  shows "\<exists>t. ui_run srv s (replicate (length (ui_pending s)) (Respond 0)) = Some t \<and>
           list_all in_order (replicate (length (ui_pending s)) (Respond 0)) \<and>
           ui_pending t = [] \<and> ui_provider t = ui_provider s \<and> ui_data t = Some (srv (ui_provider s))"
proof (cases "ui_pending s = []")
  case True
  then show ?thesis using ui_reach_in_order [OF assms] by (simp add: in_order_inv_def)
next
  case False
  then have "last (ui_pending s) = ui_provider s"
    using ui_reach_in_order [OF assms] by (simp add: in_order_inv_def)
  then show ?thesis using drain_in_order [OF refl False, of srv] by (simp add: list_all_iff)
qed

theorem ui_eventually_shows_selection_witness:
  "ui_reach in_order (\<lambda>c. YStr (cloud_name c)) ui_init \<and>
   (\<exists>t. ui_run (\<lambda>c. YStr (cloud_name c)) ui_init (replicate (length (ui_pending ui_init)) (Respond 0)) = Some t \<and>
        list_all in_order (replicate (length (ui_pending ui_init)) (Respond 0)) \<and>
        ui_pending t = [] \<and> ui_provider t = ui_provider ui_init \<and>
        ui_data t = Some ((\<lambda>c. YStr (cloud_name c)) (ui_provider ui_init)))"
  using ui_reach.init ui_eventually_shows_selection [OF ui_reach.init] by blast

text \<open>
  C27. Without user input the client's steps terminate: answers and failures of requests
  alone form a well-founded relation, each removing one pending request.
\<close>

theorem ui_network_terminates:
  "wf {(t, s). \<exists>e. net_event e \<and> ui_apply srv s e = Some t}"
proof (rule wf_subset [OF wf_measure [of "\<lambda>s. length (ui_pending s)"]])
  show "{(t, s). \<exists>e. net_event e \<and> ui_apply srv s e = Some t} \<subseteq> measure (\<lambda>s. length (ui_pending s))"
  proof clarify
    fix s t e
    assume "net_event e" "ui_apply srv s e = Some t"
    then show "(t, s) \<in> measure (\<lambda>s. length (ui_pending s))"
      by (cases e) (auto simp: ui_respond_def ui_fail_def split: if_splits)
  qed
qed

text \<open>
  C28. Against the API model, no render of a reachable state throws: whatever the
  server answered (a result or Fastify's error reply), the pie, the table and the LEI
  pill are computed, no object reaches React as a child, and the keys of the pie's
  cells are distinct.
\<close>

theorem ui_render_total:
  assumes "ui_reach ok (ui_server env) s"
  shows "\<exists>v. ui_render ns (ui_data s) = Inr v \<and> distinct (view_cells v)"
proof -
  have "ui_data s = None \<or> (\<exists>c. ui_data s = Some (ui_server env c))"
    using assms by (rule ui_reach_data)
  then have "\<exists>v. ui_render ns (ui_data s) = Inr v"
  proof (elim disjE exE)
    assume "ui_data s = None"
    then show ?thesis by (simp add: ui_render_None)
  next
    fix c
    assume d: "ui_data s = Some (ui_server env c)"
    show ?thesis using ui_server_cases [of env c]
      by (auto simp: d ui_render_json ui_render_error_reply ui_render_nonfinite)
  qed
  then show ?thesis using ui_render_cells by blast
qed

theorem ui_render_total_witness:
  "ui_reach any_event (ui_server demo_env) ui_init \<and>
   (\<exists>v. ui_render (\<lambda>_. []) (ui_data ui_init) = Inr v \<and> distinct (view_cells v))"
  using ui_reach.init ui_render_total [OF ui_reach.init] by blast

text \<open>
  C29. When the provider's demo batch loads, the client's savings table lists the
  recommendations of the engine for that batch, in order, one row each (the id as key,
  the title, the rupee amount), and the React keys of the rows are distinct.
\<close>

theorem ui_table_shows_recommendations:
  assumes "load_items env c = Inr zs" "finite_items zs = Some items"
  shows "ui_table ns (Some (ui_server env c)) = Inr (map (rec_row ns) (generate_recommendations items c)) \<and>
         distinct (map row_key (map (rec_row ns) (generate_recommendations items c)))"
proof -
  have "inj (\<lambda>i. Some (YStr i))" by (auto intro: injI)
  then have "distinct (map (\<lambda>r. Some (YStr (rec_id r))) (generate_recommendations items c))"
    using generate_distinct_from_candidates [of items c]
    by (simp add: distinct_map inj_on_def)
  then show ?thesis
    by (simp add: ui_server_loaded [OF assms] ui_table_json rec_row_def comp_def)
qed

theorem ui_table_shows_recommendations_witness:
  "load_items demo_env Aws = Inr demo_batch \<and> finite_items demo_batch = Some example_items \<and>
   ui_table (\<lambda>_. []) (Some (ui_server demo_env Aws)) =
     Inr (map (rec_row (\<lambda>_. [])) (generate_recommendations example_items Aws)) \<and>
   distinct (map row_key (map (rec_row (\<lambda>_. [])) (generate_recommendations example_items Aws)))"
proof -
  note h = load_items_demo_env finite_demo_batch
  show ?thesis using h ui_table_shows_recommendations [OF h, of "\<lambda>_. []"] by blast
qed

text \<open>
  C30. When the provider's demo batch loads, the pie shows the titles and impacts of the
  first five recommendations, and no recommendation left out has a larger impact than
  one shown.
\<close>

theorem ui_pie_top_five:
  assumes "load_items env c = Inr zs" "finite_items zs = Some items"
  shows "ui_pie (Some (ui_server env c)) = Inr (map rec_slice (take 5 (generate_recommendations items c))) \<and>
         list_all (\<lambda>x. list_all (\<lambda>y. impact_monthly x \<le> impact_monthly y) (take 5 (generate_recommendations items c)))
           (drop 5 (generate_recommendations items c))"
proof -
  let ?rs = "generate_recommendations items c"
  have "sorted_wrt (\<lambda>a b. impact_monthly b \<le> impact_monthly a) (take 5 ?rs @ drop 5 ?rs)"
    using js_sort_desc_sorted [of "candidate_recs items c"] by (simp add: generate_js_sort sorted_wrt_map)
  then have "list_all (\<lambda>x. list_all (\<lambda>y. impact_monthly x \<le> impact_monthly y) (take 5 ?rs)) (drop 5 ?rs)"
    unfolding sorted_wrt_append by (auto simp: list_all_iff)
  then show ?thesis by (simp add: ui_server_loaded [OF assms] ui_pie_json)
qed

theorem ui_pie_top_five_witness:
  "load_items demo_env Aws = Inr demo_batch \<and> finite_items demo_batch = Some example_items \<and>
   ui_pie (Some (ui_server demo_env Aws)) = Inr (map rec_slice (take 5 (generate_recommendations example_items Aws))) \<and>
   list_all (\<lambda>x. list_all (\<lambda>y. impact_monthly x \<le> impact_monthly y) (take 5 (generate_recommendations example_items Aws)))
     (drop 5 (generate_recommendations example_items Aws))"
proof -
  note h = load_items_demo_env finite_demo_batch
  show ?thesis using h ui_pie_top_five [OF h] by blast
qed

text \<open>
  C31. The rupee amount of a row is the saving times 83 rounded to an integer:
  read back as a number it is within one half of \<open>impact_monthly * 83\<close>.
\<close>

theorem ui_amount_rounds:
  assumes "\<bar>impact_monthly r * 83\<bar> < 10 ^ 21"
  shows "\<exists>t y. ui_row ns (json_of_rec r) =
            Inr \<lparr>row_key = Some (YStr (rec_id r)), row_title = Some (YStr (title r)),
                 row_amount = rupee_sign @ '' '' @ t\<rparr> \<and>
          js_to_number t = Fin y \<and> \<bar>y - impact_monthly r * 83\<bar> \<le> 1 / 2"
  using js_to_fixed0_number [OF assms, of ns] by (simp add: ui_row_json rec_row_def)

theorem ui_amount_rounds_witness:
  "\<bar>impact_monthly (mk_rec Aws ''rightsizing'' ''t'' 48 ''r'' []) * 83\<bar> < 10 ^ 21 \<and>
   (\<exists>t y. ui_row (\<lambda>_. []) (json_of_rec (mk_rec Aws ''rightsizing'' ''t'' 48 ''r'' [])) =
            Inr \<lparr>row_key = Some (YStr (rec_id (mk_rec Aws ''rightsizing'' ''t'' 48 ''r'' []))),
                 row_title = Some (YStr (title (mk_rec Aws ''rightsizing'' ''t'' 48 ''r'' []))),
                 row_amount = rupee_sign @ '' '' @ t\<rparr> \<and>
          js_to_number t = Fin y \<and> \<bar>y - impact_monthly (mk_rec Aws ''rightsizing'' ''t'' 48 ''r'' []) * 83\<bar> \<le> 1 / 2)"
proof -
  have h: "\<bar>impact_monthly (mk_rec Aws ''rightsizing'' ''t'' 48 ''r'' []) * 83\<bar> < 10 ^ 21"
    by (simp add: mk_rec_def js_round2_def)
  show ?thesis using h ui_amount_rounds [OF h, of "\<lambda>_. []"] by blast
qed

text \<open>
  C32. The Compile Plan button always throws: it posts to \<open>/actions/plan\<close>, a route
  the API does not register, and reads \<open>json.plan[0]\<close> from Fastify's 404 reply, which has
  no \<open>plan\<close>; the alert is never shown.
\<close>

theorem plan_click_fails:
  "plan_click env = Inl (TypeError ''Cannot read properties of undefined (reading '0')'')"
  by (simp add: plan_click_def api_not_get not_found_reply_def plan_steps_length_def read_prop_def)

text \<open>
  C39. A failed request renders as no answer at all: after the server's 500 reply the
  page is exactly the initial one, the ellipsis in the LEI pill and nothing in the pie
  or the table.
\<close>

theorem ui_error_looks_pending:
  "ui_render ns (Some (body (error_reply e))) = ui_render ns None \<and>
   ui_render ns None = Inr \<lparr>view_lei = YStr ellipsis, view_pie = [], view_cells = [], view_rows = []\<rparr>"
  by (simp add: ui_render_error_reply ui_render_None)

end
