(* ===== verification/Spec2Isabelle.thy ===== *)
theory Spec2Isabelle
  imports WebUi
begin

text \<open>
  \<^bold>\<open>A verification development of pvtvault (CloudShift).\<close>

  \<^bold>\<open>The program.\<close> The core package \<open>src/packages/core/src\<close> takes billing line items
  of one cloud provider and computes (a) the lock-in escape index (\<open>lei.ts\<close>,
  \<open>computeLEI\<close>), (b) a ranked list of cost recommendations (\<open>rules.ts\<close>,
  \<open>generateRecommendations\<close>), and separately (c) compiles a YAML action description
  into step plans (\<open>actions-dsl.ts\<close>, \<open>compileActions\<close>). \<open>types.ts\<close> holds the
  record schemas and \<open>normalize.ts\<close> the CSV loader and a per-service summary. The API
  server (\<open>src/apps/api/src/index.ts\<close>) serves \<open>/recommendations\<close>: it loads the demo
  CSV of a provider and returns the index and the recommendations of that batch; the
  two computations share the batch and nothing else. The web client
  (\<open>src/apps/web/src/ui/App.tsx\<close>) fetches \<open>/recommendations\<close> whenever the selected
  provider changes and renders the answer; its Compile Plan button posts to the API.
  The core is pure; the only state is the client's (the selection, the last answer,
  the requests in flight), and the only interleaving is that of the client's requests.

  \<^bold>\<open>The theories.\<close>
  \<^item> \<open>Prelude\<close>: the JavaScript primitives the core relies on. \<open>regex_search\<close> is
    \<open>RegExp.prototype.test\<close> for the flag-less alternations of literals the code uses
    (a position-by-position scan, proved equal to substring search,
    \<open>regex_search_sublist\<close>); \<open>js_round2\<close> is \<open>Math.round(x * 100) / 100\<close>
    (\<open>js_round2_error\<close>: off by at most half a cent); the UTF-8 bytes of the three
    non-ASCII characters of the recommendation texts.
  \<^item> \<open>CostModel\<close>: \<open>types.ts\<close> as the datatypes \<open>cloud\<close>, \<open>effort\<close> and the records
    \<open>cost_item\<close>, \<open>recommendation\<close>; \<open>summarizeByService\<close> of \<open>normalize.ts\<close> as
    \<open>summarize_by_service\<close> over an insertion-ordered association list
    (\<open>agg_add\<close> is \<open>agg[k] = (agg[k] ?? 0) + v\<close>). Lemmas: the keys are the services in
    first-occurrence order, each maps to the sum of its costs, the values add up to the
    total.
  \<^item> \<open>Recommendations\<close>: \<open>generateRecommendations\<close>. \<open>aggregate\<close> is the loop of
    lines 4--9, \<open>or_one\<close> is \<open>total || 1\<close>, \<open>spend_matching\<close>/\<open>has_key_matching\<close>
    the \<open>Object.entries(...).filter(...).reduce(...)\<close> and \<open>Object.keys(...).some(...)\<close>
    reads, \<open>mk_rec\<close>/\<open>add_rec\<close> the closure \<open>add\<close>, and \<open>rule_rightsizing\<close> ...
    \<open>rule_bq\<close> the six conditional blocks, each a step on the list \<open>recs\<close> in the
    code's order (\<open>candidate_recs\<close>). \<open>js_sort_desc\<close> is the stable sort by impact,
    descending, and \<open>generate_recommendations\<close> adds \<open>slice(0, 10)\<close>. The lemma group
    \<open>one_rec_*\<close>/\<open>candidate_recs_parts\<close> shows that each rule adds at most one
    recommendation with its own id; from it follow the sort order, the size bound,
    distinct and provider-scoped ids, provider gating, non-negative impacts for
    non-negative costs, the exact trigger and value of the rightsizing and
    hybrid-benefit rules, exactly when credits make the reserved-instance impact negative, that every stable descending sort gives the same result, and
    the refinement of the aggregation by \<open>items_spend\<close>/\<open>items_match\<close>.
  \<^item> \<open>EscapeIndex\<close>: \<open>computeLEI\<close>, the score threaded through the five \<open>addIf\<close>
    calls (\<open>add_if\<close>) and clamped. Lemmas: bounds \<open>[0, 100]\<close> and in fact
    \<open>[25, 80]\<close>, the baseline for the empty batch, refinement of the design's rule table
    \<open>lei_table\<close>, invariance under the set of service names, and when adding an item
    cannot raise the score (with a counterexample when it can).
  \<^item> \<open>ActionsDsl\<close>: \<open>compileActions\<close> over the value \<open>YAML.parse\<close> returns
    (\<open>yval\<close>), with JavaScript property access, \<open>?.\<close>, \<open>??\<close>, \<open>||\<close>,
    \<open>for ... of\<close> and \<open>.map\<close> written out; every throw is a \<open>dsl_error\<close> value.
    Lemmas: exactly which documents compile (\<open>item_ok\<close>), that the plans are the items
    in order (\<open>plan_of\<close>), the examples of the specification, and the inputs on which
    the code throws although the specification calls it permissive.
  \<^item> \<open>Api\<close>: the \<open>/recommendations\<close> handler (\<open>recommendations_route\<close>): the provider
    from the query string (\<open>provider_of_query\<close>), the \<open>DEMO[p]\<close> lookup
    (\<open>demo_cloud\<close>), the load as a parameter \<open>load\<close>, then both components on the
    same batch. Lemma: what a successful response guarantees (provider, score range,
    order, \<open>meta\<close>).
  \<^item> \<open>Validation\<close>: the ingestion boundary of \<open>loadCsv\<close> (\<open>normalize.ts\<close>) and the
    zod schema \<open>CostItem\<close> (\<open>types.ts\<close>). \<open>load_row\<close> builds the object of each CSV
    row (\<open>usage_type || ""\<close>, \<open>resource_id || null\<close>, the cost through
    \<open>parseFloat(String(c).replace(/\\s/g, ''))\<close>, modelled as \<open>parse_float\<close>),
    \<open>cost_item_parse\<close> is the schema's check returning the list of zod issues or the
    parsed object \<open>zod_item\<close>, whose cost is a JavaScript number (\<open>js_num\<close>:
    \<open>z.number()\<close> refuses only NaN, so the infinities pass), and \<open>load_rows\<close> the
    \<open>rows.map\<close> that throws at the first invalid row. \<open>finite_items\<close> maps a batch
    whose costs are all finite to the real-valued \<open>cost_item\<close>s the engine model
    computes with, and is \<open>None\<close> on a batch with an infinite cost.
    \<open>js_date_parse\<close> is \<open>Date.parse\<close> on the date-only ISO forms (\<open>iso_date\<close>, with
    \<open>make_day\<close> the standard's \<open>MakeDay\<close>), the host's parser being the parameter for
    every other string. Lemmas: a load succeeds exactly when every row is accepted
    (\<open>row_ok\<close>); an \<open>Infinity\<close> or \<open>-Infinity\<close> cost is accepted and leaves the
    finite batches; the decimal digits of \<open>n\<close> load as \<open>n\<close>; \<open>make_day\<close> equals a count of whole years and months
    (\<open>year_day\<close>, \<open>month_sum\<close>) and preserves the order of dates, and a printed
    \<open>YYYY-MM-DD\<close> date parses back to its midnight UTC.
  \<^item> \<open>CsvParse\<close>: the file side of \<open>loadCsv\<close>. \<open>csv_parse\<close> is
    \<open>parse(raw, { columns: true, skip_empty_lines: true, trim: true })\<close> of
    \<open>csv-parse/sync\<close>, written as the library's character loop: \<open>csv_state\<close> is its
    parser state, \<open>csv_char\<close> one iteration (escape, quote, record delimiter with its
    discovery, empty-line skip, delimiter, trimming append), \<open>csv_loop\<close> the loop (a
    \<open>function\<close> terminating on the length of the text; an iteration may consume the two
    characters of \<open>\r\n\<close>), \<open>csv_on_field\<close>/\<open>csv_on_record\<close> the field and record ends
    (header columns, record length check, the object built by property assignment),
    \<open>csv_finish\<close> the end of input. \<open>load_csv\<close> is \<open>loadCsv\<close> on the text of the file:
    parse, read the properties (\<open>csv_row_of\<close>), validate (\<open>load_rows\<close>). A reference
    printer \<open>csv_print\<close> quotes every field. Lemmas, from one iteration to a quoted field,
    a line and a file: printed cost records load back as themselves (round trip, any
    strings); a record of the wrong length fails the file; a quoted thousands separator
    truncates the cost and an unquoted one fails the file; and, as a refinement, on
    text without quotes or carriage returns the loop computes the abstract
    specification \<open>simple_parse\<close> (non-blank lines, split at commas, trimmed, the first
    line the columns), proved line by line (\<open>csv_line_start\<close> is the loop state
    between lines); for every text, the invariant \<open>csv_keys_inv\<close>, kept by each
    iteration, gives the record objects all the same keys, those of the one header the
    loop recorded.
  \<^item> \<open>Server\<close>: the whole route table of \<open>index.ts\<close> as \<open>api_handle\<close>, a function of
    the environment \<open>server_env\<close> (\<open>process.env\<close>, the text of the demo files as
    \<open>fs.readFileSync\<close> returns it, the host's date parsing) and the request.
    \<open>load_items\<close> is \<open>loadItems\<close>, i.e. \<open>load_csv\<close> on the provider's demo file, so
    \<open>/recommendations\<close> is the handler of the Api theory composed with the loader of
    the CsvParse and Validation theories (\<open>recommendations_reply\<close>). On a batch of
    finite costs the engine is \<open>generate_recommendations\<close>; on a batch with an infinite
    cost the engine computes with \<open>Infinity\<close> and \<open>NaN\<close>, which the real-valued model
    does not, so its answer (each recommendation with the double its impact evaluates
    to) is the environment's parameter \<open>host_nonfinite_recs\<close>, and \<open>json_num\<close> sends a
    non-finite impact as \<open>null\<close>, as \<open>JSON.stringify\<close> does. Replies are JSON
    values (\<open>json_of_response\<close>, \<open>json_of_rec\<close>, \<open>json_of_rec_num\<close>), a thrown error is Fastify's default
    500 reply and an unregistered route its 404 reply. \<open>PORT\<close> is read with
    \<open>Number()\<close> (\<open>js_to_number\<close>, the \<open>StringNumericLiteral\<close> grammar). Lemmas: when the
    demo batches that load have finite costs (\<open>env_finite\<close>), \<open>/recommendations\<close> is
    the Api route on the loaded items, its error an error reply
    (\<open>recommendations_reply_route\<close>), and every success has the client's
    declared type \<open>ApiRes\<close> and every failure has neither \<open>lei\<close> nor
    \<open>recommendations\<close>, while an infinite cost with a non-finite impact gives a 200
    reply that is not an \<open>ApiRes\<close>; \<open>Number\<close> reads back the digits of \<open>n\<close>; the
    Razorpay check reports a loaded key whatever the environment.
  \<^item> \<open>WebUi\<close>: \<open>App.tsx\<close>. The state \<open>ui_state\<close> is the two \<open>useState\<close> hooks and the
    list of requests the effect on \<open>[provider]\<close> has sent and that have not settled.
    Events (\<open>ui_event\<close>, \<open>ui_apply\<close>) are a selection (\<open>ui_select\<close>: \<open>setProvider\<close>
    and, on a change, a new request), the answer of any pending request
    (\<open>ui_respond\<close>: \<open>setData\<close> of its body, whatever its status) and its failure
    (\<open>ui_fail\<close>). \<open>ui_reach\<close> is the inductive set of reachable states, for a network
    that answers in any order or, restricted, in request order; the server is a
    parameter, instantiated with \<open>api_handle\<close> by \<open>ui_server\<close>. The render is modelled
    by what it reads: \<open>ui_pie\<close> (the first five slices), \<open>ui_table\<close>/\<open>ui_row\<close> (key,
    title and the rupee amount through \<open>toFixed(0)\<close>, \<open>js_to_fixed0\<close>), \<open>ui_lei\<close>; a
    property read on \<open>null\<close> is a \<open>TypeError\<close> value. \<open>plan_click\<close> is the Compile Plan
    handler against the API model. Lemmas, by rule induction over \<open>ui_reach\<close>: with
    in-order answers a quiescent client shows the selected provider's answer, and
    answering the pending requests always gets there (liveness); with answers out of
    order a superseded answer overwrites the current one; network steps alone
    terminate (a well-founded relation); no reachable render throws, \<open>null\<close> impacts
    included; the table lists
    the engine's result with distinct keys and the pie its five largest entries; the
    rupee amount is within one half of the saving times 83; the Compile Plan click
    always throws; an error reply renders exactly as no answer.

  \<^bold>\<open>Modelling choices.\<close> JavaScript numbers are exact \<open>real\<close>s in the engine and
  the index (the code adds, multiplies and compares finite costs; a parsed cost is a
  \<open>js_num\<close>, finite, NaN or infinite, and only finite batches reach the engine model; floating-point rounding is not modelled, so
  e.g. \<open>computePct * total * 0.12\<close> equals the compute spend times 0.12). The LEI is an
  \<open>int\<close>. Strings are byte strings (\<open>char list\<close>); the patterns are ASCII, so substring
  tests agree with JavaScript's UTF-16 strings, but a string \<open>actions\<close> value is
  iterated by byte rather than by code point. Dictionaries are association lists in
  insertion order; keys that JavaScript orders first (array indices) or that hit
  \<open>Object.prototype\<close> members (\<open>__proto__\<close>, \<open>toString\<close>) are not modelled for
  \<open>summarizeByService\<close>. Every loop runs over a finite list, so every function is
  total: all are structurally recursive but the CSV loop, whose termination is proved
  on the length of the text; no fuel or \<open>partial_function\<close> is needed. The
  client's steps are a relation, not a function, because the order in which the
  network answers is not determined; runs are lists of events (\<open>ui_run\<close>).
  \<open>toFixed\<close> from \<open>10^21\<close> on prints the double's shortest digits, which exact reals
  do not determine: that case is the parameter \<open>num_str\<close>.

  \<^bold>\<open>Not modelled.\<close> File reading itself (the file's text is a parameter) and the
  options of \<open>csv-parse\<close> that \<open>loadCsv\<close> leaves at their defaults only as those
  defaults; text that is not ASCII (UTF-8 bytes, a byte-order mark); the engine's
  floating-point arithmetic on an infinite cost (its result is the parameter
  \<open>host_nonfinite_recs\<close>); the host-defined parsing of date strings outside the standard
  date-only forms (a parameter of \<open>js_date_parse\<close>), including date-time forms and
  expanded years; \<open>parseFloat\<close>'s exponent range (\<open>1e400\<close> is Infinity in
  JavaScript, a large real here) and the non-ASCII white space that \<open>\\s\<close> also
  removes; the \<open>yaml\<close> parser (its outcome is the input of \<open>compile_actions\<close>); the
  Fastify set-up that has no effect on replies (\<open>dotenv\<close>, CORS headers, logging,
  \<open>app.listen\<close>) and the HEAD routes Fastify adds; the JSX layout, styles and the
  \<open>recharts\<close> library of the client, and the DOM read of the textarea. Error messages
  of thrown errors are their names (\<open>ZodError\<close>, \<open>ENOENT\<close>), not the full text.

  \<^bold>\<open>What modelling showed.\<close> A credit (negative cost) yields a negative
  \<open>impact_monthly\<close>, against the specification's invariant; the \<open>total || 1\<close> guard
  leaks into the hybrid-benefit estimate (0.05 on a zero-cost batch); provider rules
  fire on a zero-spend service name; the cap of ten and the LEI clamp are never
  reached; the compiler throws on a non-list \<open>actions\<close>, a null item or a string
  \<open>steps\<close>, failing the whole batch; one invalid CSV row fails the whole load, a
  cost written \<open>"1,234.50"\<close> loads as 1 and an unquoted one fails the file; zod
  accepts an infinite cost although the specification requires a finite one, and the
  server then answers 200 with \<open>null\<close> impacts outside the client's type; the comment
  of \<open>computeLEI\<close> says spend raises the index, but only the service names count; the client shows a superseded answer when
  answers arrive out of order, shows a server error as endless loading, and its
  Compile Plan button posts to \<open>/actions/plan\<close>, which the API does not serve, and
  throws; \<open>/api/check-razorpay\<close> reports a loaded key when none is set.
\<close>

end
